(* ===== verification/Prelude.thy ===== *)
theory Prelude
  imports Main "HOL-Library.Word" "HOL-Library.Monad_Syntax" "HOL-Library.Signed_Division"
    "HOL-Library.Multiset" "HOL-Library.Sublist"
begin

text \<open>
  Shared vocabulary of the development: C strings, C characters, and the generic facts on
  lists, options and words that the component theories use.  A C string is a \<open>string\<close>
  (a \<open>char list\<close>) without its terminating NUL; reading at the position of the terminator
  gives NUL, as in C.  A possibly null \<open>char *\<close> is a \<open>string option\<close>.
\<close>

unbundle bit_operations_syntax

named_theorems c_string_simps "evaluation rules of the C string functions"

type_synonym cstring = string
type_synonym byte = "8 word"

abbreviation NUL :: char where
  "NUL \<equiv> CHR 0x00"

section \<open>C strings\<close>

text \<open>\<open>s[i]\<close>, with the terminator at position \<open>strlen s\<close>.\<close>

definition cchar :: "cstring \<Rightarrow> nat \<Rightarrow> char" where
  "cchar s i = (if i < length s then s ! i else NUL)"

text \<open>The plain \<open>char\<close> of the supported platforms is signed and eight bits wide.\<close>

definition int_of_char :: "char \<Rightarrow> int" where
  "int_of_char c = (if (of_char c :: int) < 128 then of_char c else of_char c - 256)"

text \<open>
  \<open>strchr\<close>: the position of the first occurrence.  Searching for NUL finds the terminator.
\<close>

fun index_of :: "char \<Rightarrow> cstring \<Rightarrow> nat option" where
  "index_of c [] = None"
| "index_of c (x # xs) = (if x = c then Some 0 else map_option Suc (index_of c xs))"

definition strchr :: "cstring \<Rightarrow> char \<Rightarrow> nat option" where
  "strchr s c = (if c = NUL then Some (length s) else index_of c s)"

text \<open>
  \<open>strncmp a b n == 0\<close> on NUL-free strings: the first \<open>n\<close> characters agree, where a
  string that ends early ends the other one too.
\<close>

definition strncmp_eq :: "cstring \<Rightarrow> cstring \<Rightarrow> nat \<Rightarrow> bool" where
  "strncmp_eq a b n \<longleftrightarrow> take n a = take n b"

declare cchar_def [c_string_simps] strchr_def [c_string_simps] strncmp_eq_def [c_string_simps]
  int_of_char_def [c_string_simps]

lemma cchar_in [simp]: "i < length s \<Longrightarrow> cchar s i = s ! i"
  by (simp add: cchar_def)

lemma cchar_end [simp]: "length s \<le> i \<Longrightarrow> cchar s i = NUL"
  by (simp add: cchar_def)

lemma cchar_neq_NUL: "cchar s i \<noteq> NUL \<Longrightarrow> i < length s"
  by (simp add: cchar_def split: if_splits)

lemma cchar_eqD: "cchar s i = c \<Longrightarrow> c \<noteq> NUL \<Longrightarrow> i < length s"
  using cchar_neq_NUL by blast

lemma length_tl_dropWhile: "s \<noteq> [] \<Longrightarrow> length (tl (dropWhile P s)) < length s"
proof -
  assume "s \<noteq> []"
  then have "0 < length s" by simp
  moreover have "length (dropWhile P s) \<le> length s" by (rule length_dropWhile_le)
  ultimately show ?thesis unfolding length_tl by linarith
qed

lemma index_of_SomeD: "index_of c s = Some i \<Longrightarrow> i < length s \<and> s ! i = c \<and> c \<notin> set (take i s)"
  by (induction s arbitrary: i) (auto split: if_splits)

lemma index_of_None_iff: "index_of c s = None \<longleftrightarrow> c \<notin> set s"
  by (induction s) auto

lemma index_of_append:
  "index_of c (xs @ ys) =
     (case index_of c xs of Some i \<Rightarrow> Some i | None \<Rightarrow> map_option (\<lambda>i. length xs + i) (index_of c ys))"
  by (induction xs) (auto simp: option.map_comp o_def fun_eq_iff intro!: option.map_cong0 option.map_ident_strong[symmetric] split: option.splits)

lemma strchr_SomeD: "strchr s c = Some i \<Longrightarrow> c \<noteq> NUL \<Longrightarrow> i < length s \<and> s ! i = c"
  by (auto simp: strchr_def dest: index_of_SomeD split: if_splits)

lemma strchr_None_iff: "strchr s c = None \<longleftrightarrow> c \<noteq> NUL \<and> c \<notin> set s"
  by (simp add: strchr_def index_of_None_iff)

lemma of_char_int_bounds: "0 \<le> (of_char c :: int)" "(of_char c :: int) < 256"
  by (simp_all add: of_char_def)

lemma int_of_char_bounds: "-128 \<le> int_of_char c" "int_of_char c < 128"
  using of_char_int_bounds [of c] by (auto simp: int_of_char_def)

section \<open>Lists\<close>

text \<open>The contiguous piece of a list from position \<open>i\<close> up to, not including, \<open>j\<close>.\<close>

definition piece :: "nat \<Rightarrow> nat \<Rightarrow> 'a list \<Rightarrow> 'a list" where
  "piece i j xs = take (j - i) (drop i xs)"

lemma length_piece [simp]: "length (piece i j xs) = min (j - i) (length xs - i)"
  by (simp add: piece_def)

lemma nth_piece [simp]: "k < j - i \<Longrightarrow> i + k < length xs \<Longrightarrow> piece i j xs ! k = xs ! (i + k)"
  by (simp add: piece_def)

lemma take_append_piece: "i \<le> j \<Longrightarrow> take i xs @ piece i j xs = take j xs"
  by (metis le_add_diff_inverse piece_def take_add)

lemma piece_append_piece:
  assumes "i \<le> j" "j \<le> k"
  shows "piece i j xs @ piece j k xs = piece i k xs"
proof -
  have "k - i = (j - i) + (k - j)" and "drop j xs = drop (j - i) (drop i xs)"
    using assms by simp_all
  then show ?thesis by (simp add: piece_def take_add)
qed

lemma piece_append_drop: "i \<le> j \<Longrightarrow> piece i j xs @ drop j xs = drop i xs"
  by (metis append_take_drop_id drop_drop le_add_diff_inverse2 piece_def)

lemma piece_Nil [simp]: "piece i i xs = []"
  by (simp add: piece_def)

lemma upt_append_upt: "i \<le> j \<Longrightarrow> j \<le> k \<Longrightarrow> [i..<j] @ [j..<k] = [i..<k]"
  by (metis le_add_diff_inverse upt_add_eq_append)

lemma sorted_append_upt: "sorted xs \<Longrightarrow> (\<And>x. x \<in> set xs \<Longrightarrow> x < i) \<Longrightarrow> sorted (xs @ [i..<j])"
  by (fastforce simp: sorted_append)

lemma filter_index_Cons:
  "filter (\<lambda>k. P ((x # xs) ! k)) [0..<length (x # xs)] =
     (if P x then [0] else []) @ map Suc (filter (\<lambda>k. P (xs ! k)) [0..<length xs])"
proof -
  have "[0..<length (x # xs)] = 0 # map Suc [0..<length xs]"
    by (simp only: length_Cons map_Suc_upt upt_conv_Cons zero_less_Suc)
  then show ?thesis by (simp add: filter_map o_def)
qed

lemma strict_prefix_take:
  "strict_prefix t n \<longleftrightarrow> take (length t) n = t \<and> length n \<noteq> length t"
proof
  assume "strict_prefix t n"
  then obtain zs where "n = t @ zs" "zs \<noteq> []" by (auto simp: strict_prefix_def prefix_def)
  then show "take (length t) n = t \<and> length n \<noteq> length t" by simp
next
  assume *: "take (length t) n = t \<and> length n \<noteq> length t"
  then have "n = t @ drop (length t) n" by (metis append_take_drop_id)
  with * show "strict_prefix t n" by (auto simp: strict_prefix_def prefix_def)
qed

section \<open>Sizes returned as 32-bit integers\<close>

lemma sint_of_nat_mod: "sint (word_of_nat n :: 32 word) = (int n + 2 ^ 31) mod 2 ^ 32 - 2 ^ 31"
  by (simp add: signed_of_nat signed_take_bit_eq_take_bit_shift take_bit_eq_mod)

lemma sint_of_nat_32:
  assumes "n < 2 ^ 32"
  shows "sint (word_of_nat n :: 32 word) = (if n < 2 ^ 31 then int n else int n - 2 ^ 32)"
proof (cases "n < 2 ^ 31")
  case True
  then have "(int n + 2 ^ 31) mod 2 ^ 32 = int n + 2 ^ 31" by (intro mod_pos_pos_trivial) simp_all
  with True show ?thesis by (simp add: sint_of_nat_mod)
next
  case False
  have "(int n + 2 ^ 31) mod 2 ^ 32 = (int n + 2 ^ 31 - 2 ^ 32) mod 2 ^ 32" by (rule minus_mod_self2 [symmetric])
  also have "\<dots> = int n + 2 ^ 31 - 2 ^ 32" using False assms by (intro mod_pos_pos_trivial) simp_all
  finally show ?thesis using False by (simp add: sint_of_nat_mod)
qed

end
