(* ===== verification/Getopt_Permute.thy ===== *)
theory Getopt_Permute
  imports Prelude
begin

text \<open>
  The in-place block exchange of \<open>src/src/getopt_long.c\<close>: \<open>gcd\<close> (lines 103-116) and
  \<open>permute_args\<close> (lines 122-150), with the proof that the cycle-leader loops exchange the
  two adjacent blocks of the argument vector and keep the order inside each block.
\<close>

section \<open>The code\<close>

text \<open>
  The \<open>while\<close> loop of \<open>gcd\<close>.  \<open>smod\<close> is C's \<open>%\<close>; the loop runs on after the first
  remainder, which faults on a zero divisor: that is the \<open>None\<close> of \<open>gcd\<close>.
\<close>

function gcd_loop :: "int \<Rightarrow> int \<Rightarrow> int \<Rightarrow> int" where
  "gcd_loop a b c = (if c \<noteq> 0 then gcd_loop b c (b smod c) else b)"
  by pat_completeness auto
termination
proof (relation "measure (\<lambda>(a, b, c). nat \<bar>c\<bar>)")
  fix b c :: int
  assume "c \<noteq> 0"
  then show "((b, c, b smod c), (a, b, c)) \<in> measure (\<lambda>(a, b, c). nat \<bar>c\<bar>)" for a
    using smod_int_range [of c b] by auto
qed simp

definition c_gcd :: "int \<Rightarrow> int \<Rightarrow> int option" where
  "c_gcd a b = (if b = 0 then None else Some (gcd_loop a b (a smod b)))"

text \<open>The inner loop of \<open>permute_args\<close>; the first argument counts the rounds left.\<close>

fun permute_cycle :: "nat \<Rightarrow> int \<Rightarrow> int \<Rightarrow> int \<Rightarrow> int \<Rightarrow> int \<Rightarrow> 'a list \<Rightarrow> 'a list" where
  "permute_cycle 0 panonopt_end nnonopts nopts cstart pos nargv = nargv"
| "permute_cycle (Suc j) panonopt_end nnonopts nopts cstart pos nargv =
     (let pos' = (if pos \<ge> panonopt_end then pos - nnonopts else pos + nopts);
          swap = nargv ! nat pos';
          nargv1 = nargv[nat pos' := nargv ! nat cstart];
          nargv2 = nargv1[nat cstart := swap]
      in permute_cycle j panonopt_end nnonopts nopts cstart pos' nargv2)"

text \<open>The outer loop: \<open>n\<close> cycles are left, the next one has index \<open>i\<close>.\<close>

fun permute_cycles :: "nat \<Rightarrow> int \<Rightarrow> int \<Rightarrow> int \<Rightarrow> int \<Rightarrow> nat \<Rightarrow> 'a list \<Rightarrow> 'a list" where
  "permute_cycles 0 i panonopt_end nnonopts nopts cyclelen nargv = nargv"
| "permute_cycles (Suc n) i panonopt_end nnonopts nopts cyclelen nargv =
     permute_cycles n (i + 1) panonopt_end nnonopts nopts cyclelen
       (permute_cycle cyclelen panonopt_end nnonopts nopts (panonopt_end + i) (panonopt_end + i) nargv)"

definition permute_args :: "int \<Rightarrow> int \<Rightarrow> int \<Rightarrow> 'a list \<Rightarrow> 'a list option" where
  "permute_args panonopt_start panonopt_end opt_end nargv =
     (let nnonopts = panonopt_end - panonopt_start;
          nopts = opt_end - panonopt_end
      in do {
        ncycle \<leftarrow> c_gcd nnonopts nopts;
        let cyclelen = (opt_end - panonopt_start) sdiv ncycle;
        Some (permute_cycles (nat ncycle) 0 panonopt_end nnonopts nopts (nat cyclelen) nargv)
      })"

declare gcd_loop.simps [simp del]

section \<open>The greatest common divisor\<close>

lemma sdiv_nonneg: "0 \<le> a \<Longrightarrow> 0 \<le> b \<Longrightarrow> a sdiv b = a div (b :: int)"
  by (cases "a = 0"; cases "b = 0") (auto simp: signed_divide_int_def sgn_if)

lemma gcd_loop_eq: "0 < b \<Longrightarrow> 0 \<le> c \<Longrightarrow> gcd_loop a b c = gcd b c"
proof (induction a b c rule: gcd_loop.induct)
  case (1 a b c)
  show ?case
  proof (cases "c = 0")
    case True
    with 1 show ?thesis by (simp add: gcd_loop.simps [of a b 0])
  next
    case False
    with 1 show ?thesis
      by (simp add: gcd_loop.simps [of a b c] smod_mod_positive gcd.commute [of c] flip: gcd_red_int)
  qed
qed

lemma c_gcd_eq: "0 \<le> a \<Longrightarrow> 0 < b \<Longrightarrow> c_gcd a b = Some (gcd a b)"
  by (simp add: c_gcd_def gcd_loop_eq smod_mod_positive gcd.commute flip: gcd_red_int)

section \<open>The positions of one cycle\<close>

text \<open>
  Relative to the start of the first block, with blocks of length \<open>a\<close> and \<open>b\<close>, cycle
  \<open>i\<close> starts at \<open>a + i\<close> and visits \<open>cyc_pos a b i k\<close> in round \<open>k\<close>.
\<close>

definition cyc_pos :: "nat \<Rightarrow> nat \<Rightarrow> nat \<Rightarrow> nat \<Rightarrow> nat" where
  "cyc_pos a b i k = (a + i + k * b) mod (a + b)"

definition cyc_len :: "nat \<Rightarrow> nat \<Rightarrow> nat" where
  "cyc_len a b = (a + b) div gcd a b"

lemma cyc_pos_less: "0 < a \<Longrightarrow> cyc_pos a b i k < a + b"
  by (simp add: cyc_pos_def)

lemma cyc_pos_0: "i < b \<Longrightarrow> cyc_pos a b i 0 = a + i"
  by (simp add: cyc_pos_def)

lemma cyc_pos_Suc: "cyc_pos a b i (Suc k) = (cyc_pos a b i k + b) mod (a + b)"
  by (simp add: cyc_pos_def mod_simps ac_simps)

lemma cyc_pos_back:
  assumes "0 < a"
  shows "(cyc_pos a b i (Suc k) + a) mod (a + b) = cyc_pos a b i k"
proof -
  have "(cyc_pos a b i (Suc k) + a) mod (a + b) = (cyc_pos a b i k + (a + b)) mod (a + b)"
    by (simp add: cyc_pos_Suc mod_simps ac_simps)
  also have "\<dots> = cyc_pos a b i k"
    using cyc_pos_less [OF assms, of b i k] by simp
  finally show ?thesis .
qed

lemma cyc_pos_step:
  assumes "p < a + (b :: nat)"
  shows "(p + b) mod (a + b) = (if a \<le> p then p - a else p + b)"
proof (cases "a \<le> p")
  case True
  then have "p + b = (p - a) + (a + b)" by linarith
  moreover have "p - a < a + b" using assms by simp
  ultimately have "(p + b) mod (a + b) = p - a" by (metis mod_add_self2 mod_less)
  with True show ?thesis by simp
qed simp

lemma cyc_len_mult: "cyc_len a b * gcd a b = a + b" "gcd a b * cyc_len a b = a + b"
  unfolding cyc_len_def by (simp_all only: dvd_div_mult_self dvd_mult_div_cancel dvd_add gcd_dvd1 gcd_dvd2)

lemma cyc_len_coprime:
  assumes "0 < a" "0 < b"
  shows "coprime (cyc_len a b) (b div gcd a b)"
proof -
  have "gcd (a + b) b = gcd a b" by simp
  moreover have "coprime ((a + b) div gcd (a + b) b) (b div gcd (a + b) b)"
    using assms by (intro div_gcd_coprime) simp
  ultimately show ?thesis unfolding cyc_len_def by metis
qed

lemma cyc_pos_inj:
  assumes ab: "0 < a" "0 < b" and "k \<le> k'"
    and eq: "cyc_pos a b i k = cyc_pos a b i k'"
  shows "cyc_len a b dvd k' - k"
proof -
  let ?g = "gcd a b"
  have "(a + i + k * b) mod (a + b) = (a + i + k' * b) mod (a + b)"
    using eq by (simp add: cyc_pos_def)
  then have "a + b dvd (a + i + k' * b) - (a + i + k * b)"
    using \<open>k \<le> k'\<close> by (metis add_left_mono mod_eq_dvd_iff_nat mult_le_mono1)
  moreover have "(a + i + k' * b) - (a + i + k * b) = (k' - k) * b"
    by (simp add: diff_mult_distrib)
  ultimately have "a + b dvd (k' - k) * b" by simp
  moreover have "?g * ((k' - k) * (b div ?g)) = (k' - k) * b"
    by (metis dvd_mult_div_cancel gcd_dvd2 mult.left_commute)
  ultimately have "?g * cyc_len a b dvd ?g * ((k' - k) * (b div ?g))"
    by (simp only: cyc_len_mult)
  then have "cyc_len a b dvd (k' - k) * (b div ?g)"
    using ab by (simp add: nat_mult_dvd_cancel_disj)
  then show ?thesis
    using cyc_len_coprime [OF ab] by (simp add: coprime_dvd_mult_left_iff)
qed

lemma cyc_pos_distinct:
  assumes "0 < a" "0 < b" "k < k'" "k' < k + cyc_len a b"
  shows "cyc_pos a b i k \<noteq> cyc_pos a b i k'"
proof
  assume "cyc_pos a b i k = cyc_pos a b i k'"
  then have "cyc_len a b dvd k' - k"
    using assms cyc_pos_inj [of a b k k' i] by simp
  then show False
    using assms(3,4) by (auto dest: dvd_imp_le)
qed

lemma cyc_pos_round: "cyc_pos a b i (cyc_len a b) = cyc_pos a b i 0"
proof -
  have "cyc_len a b * b = (a + b) * (b div gcd a b)"
    by (metis cyc_len_mult(1) dvd_mult_div_cancel gcd_dvd2 mult.assoc)
  then show ?thesis by (simp add: cyc_pos_def)
qed

lemma cyc_pos_mod:
  assumes "i < gcd a b"
  shows "cyc_pos a b i k mod gcd a b = i"
proof -
  have "cyc_pos a b i k mod gcd a b = (a + i + k * b) mod gcd a b"
    by (simp add: cyc_pos_def mod_mod_cancel)
  also have "\<dots> = i mod gcd a b"
    by (metis (no_types, lifting) add.commute dvd_mult gcd_dvd1 gcd_dvd2 mod_0_imp_dvd
        mod_add_eq mod_add_self2 dvd_imp_mod_0 add.right_neutral mod_mod_trivial)
  finally show ?thesis using assms by simp
qed

lemma cyc_pos_onto:
  assumes ab: "0 < a" "0 < b" and "i < gcd a b" and p: "p < a + b" "p mod gcd a b = i"
  shows "\<exists>k < cyc_len a b. cyc_pos a b i k = p"
proof -
  let ?g = "gcd a b" and ?L = "cyc_len a b"
  let ?S = "{p. p < a + b \<and> p mod ?g = i}"
  have inj: "inj_on (cyc_pos a b i) {..<?L}"
  proof (rule linorder_inj_onI)
    fix k k' assume "k < k'" "k' \<in> {..<?L}"
    then show "cyc_pos a b i k \<noteq> cyc_pos a b i k'"
      using cyc_pos_distinct [OF ab, of k k' i] by simp
  qed auto
  have "?S \<subseteq> (\<lambda>t. i + t * ?g) ` {..<?L}"
  proof
    fix q assume q: "q \<in> ?S"
    then have "q = i + (q div ?g) * ?g"
      using div_mult_mod_eq [of q ?g] by simp
    moreover have "q div ?g < ?L"
      using q by (intro less_mult_imp_div_less) (simp add: cyc_len_mult)
    ultimately show "q \<in> (\<lambda>t. i + t * ?g) ` {..<?L}" by blast
  qed
  then have card: "card ?S \<le> ?L"
    using surj_card_le [of "{..<?L}" ?S] by simp
  have "cyc_pos a b i ` {..<?L} \<subseteq> ?S"
    using ab assms(3) by (auto simp: cyc_pos_less cyc_pos_mod)
  moreover have "card ?S \<le> card (cyc_pos a b i ` {..<?L})"
    using card by (simp add: card_image [OF inj])
  ultimately have "cyc_pos a b i ` {..<?L} = ?S"
    by (intro card_seteq) auto
  moreover have "p \<in> ?S" using p by simp
  ultimately have "p \<in> cyc_pos a b i ` {..<?L}" by (simp only:)
  then show ?thesis by auto
qed

section \<open>The loops exchange the blocks\<close>

text \<open>
  The vector that holds, from position \<open>s\<close> on, a block of \<open>a\<close> and a block of \<open>b\<close>
  entries: \<open>rot\<close> is where the entry at \<open>q\<close> of the exchanged vector comes from.
\<close>

definition rot :: "nat \<Rightarrow> nat \<Rightarrow> nat \<Rightarrow> nat \<Rightarrow> nat" where
  "rot s a b q = s + (q - s + a) mod (a + b)"

definition in_cycle :: "nat \<Rightarrow> nat \<Rightarrow> nat \<Rightarrow> nat \<Rightarrow> nat \<Rightarrow> bool" where
  "in_cycle s a b i q \<longleftrightarrow> s \<le> q \<and> q < s + (a + b) \<and> (q - s) mod gcd a b = i"

text \<open>What the vector holds when \<open>j\<close> rounds of cycle \<open>i\<close> are done.\<close>

definition cycle_inv :: "nat \<Rightarrow> nat \<Rightarrow> nat \<Rightarrow> nat \<Rightarrow> nat \<Rightarrow> 'a list \<Rightarrow> 'a list \<Rightarrow> bool" where
  "cycle_inv s a b i j xs ys \<longleftrightarrow> length ys = length xs \<and>
     (\<forall>q < length xs. ys ! q =
        (if q = s + cyc_pos a b i 0 then xs ! (s + cyc_pos a b i j)
         else if \<exists>k. 1 \<le> k \<and> k \<le> j \<and> q = s + cyc_pos a b i k then xs ! rot s a b q
         else xs ! q))"

definition cycle_done :: "nat \<Rightarrow> nat \<Rightarrow> nat \<Rightarrow> nat \<Rightarrow> 'a list \<Rightarrow> 'a list \<Rightarrow> bool" where
  "cycle_done s a b i xs ys \<longleftrightarrow> length ys = length xs \<and>
     (\<forall>q < length xs. ys ! q = (if in_cycle s a b i q then xs ! rot s a b q else xs ! q))"

lemma cycle_inv_0: "cycle_inv s a b i 0 xs xs"
  by (auto simp: cycle_inv_def)

lemma rot_cyc_pos: "0 < a \<Longrightarrow> rot s a b (s + cyc_pos a b i (Suc k)) = s + cyc_pos a b i k"
  by (simp add: rot_def cyc_pos_back)

lemma cycle_inv_Suc:
  assumes ab: "0 < a" "0 < b" and len: "s + (a + b) \<le> length xs"
    and j: "Suc j < cyc_len a b"
    and inv: "cycle_inv s a b i j xs ys"
  defines "c \<equiv> s + cyc_pos a b i 0" and "p \<equiv> s + cyc_pos a b i (Suc j)"
  shows "cycle_inv s a b i (Suc j) xs (ys[p := ys ! c, c := ys ! p])"
proof -
  have less: "s + cyc_pos a b i k < length xs" for k
    using cyc_pos_less [OF ab(1), of b i k] len by simp
  have new: "cyc_pos a b i (Suc j) \<noteq> cyc_pos a b i k" if "k \<le> j" for k
    using cyc_pos_distinct [OF ab, of k "Suc j" i] that j by auto
  have pc: "p \<noteq> c" using new [of 0] by (simp add: p_def c_def)
  have yc: "ys ! c = xs ! (s + cyc_pos a b i j)" and yl: "length ys = length xs"
    using inv less [of 0] by (simp_all add: cycle_inv_def c_def)
  have yp: "ys ! p = xs ! p"
    using inv less [of "Suc j"] new pc by (auto simp: cycle_inv_def p_def c_def)
  have "xs ! rot s a b p = xs ! (s + cyc_pos a b i j)"
    unfolding p_def by (subst rot_cyc_pos [OF ab(1)]) simp
  moreover have "(\<exists>k. 1 \<le> k \<and> k \<le> Suc j \<and> q = s + cyc_pos a b i k) \<longleftrightarrow>
      q = p \<or> (\<exists>k. 1 \<le> k \<and> k \<le> j \<and> q = s + cyc_pos a b i k)" for q
    unfolding p_def by (metis One_nat_def le_SucE le_SucI le_refl less_eq_Suc_le zero_less_Suc)
  ultimately show ?thesis
    using inv yc yp pc less [of 0] less [of "Suc j"] yl
    unfolding cycle_inv_def c_def [symmetric] p_def [symmetric]
    by (auto simp: nth_list_update)
qed

lemma cycle_inv_last:
  assumes ab: "0 < a" "0 < b" and i: "i < gcd a b" and len: "s + (a + b) \<le> length xs"
    and j: "Suc j = cyc_len a b"
    and inv: "cycle_inv s a b i j xs ys"
  shows "cycle_done s a b i xs ys"
proof -
  have start: "xs ! rot s a b (s + cyc_pos a b i 0) = xs ! (s + cyc_pos a b i j)"
    using rot_cyc_pos [OF ab(1), of s b i j] by (simp add: j cyc_pos_round)
  have cyc: "in_cycle s a b i q \<longleftrightarrow> (\<exists>k \<le> j. q = s + cyc_pos a b i k)" for q
  proof
    assume "in_cycle s a b i q"
    then have "q - s < a + b" "(q - s) mod gcd a b = i" "q = s + (q - s)"
      by (auto simp: in_cycle_def)
    then show "\<exists>k \<le> j. q = s + cyc_pos a b i k"
      using cyc_pos_onto [OF ab i, of "q - s"] j by (metis less_Suc_eq_le)
  next
    assume "\<exists>k \<le> j. q = s + cyc_pos a b i k"
    then show "in_cycle s a b i q"
      using cyc_pos_less [OF ab(1)] cyc_pos_mod [OF i] by (auto simp: in_cycle_def)
  qed
  have "(\<exists>k \<le> j. q = s + cyc_pos a b i k) \<longleftrightarrow>
      q = s + cyc_pos a b i 0 \<or> (\<exists>k. 1 \<le> k \<and> k \<le> j \<and> q = s + cyc_pos a b i k)" for q
    using not_less_eq_eq [of _ 0] by (auto simp: Suc_le_eq)
  with inv start show ?thesis
    unfolding cycle_inv_def cycle_done_def cyc by auto
qed

lemma int_pos_step:
  assumes "p < a + b"
  shows "(if int (s + a) \<le> int (s + p) then int (s + p) - int a else int (s + p) + int b) =
    int (s + (p + b) mod (a + b))"
  by (auto simp: cyc_pos_step [OF assms])

lemma permute_cycle_inv:
  assumes ab: "0 < a" "0 < b" and i: "i < gcd a b" and len: "s + (a + b) \<le> length xs"
  shows "0 < m \<Longrightarrow> j + m = cyc_len a b \<Longrightarrow> cycle_inv s a b i j xs ys \<Longrightarrow>
    cycle_done s a b i xs (permute_cycle m (int (s + a)) (int a) (int b)
      (int (s + cyc_pos a b i 0)) (int (s + cyc_pos a b i j)) ys)"
proof (induction m arbitrary: j ys)
  case (Suc m)
  let ?c = "s + cyc_pos a b i 0" and ?p = "s + cyc_pos a b i (Suc j)"
  let ?ys = "ys[?p := ys ! ?c, ?c := ys ! ?p]"
  have step: "permute_cycle (Suc m) (int (s + a)) (int a) (int b) (int ?c) (int (s + cyc_pos a b i j)) ys =
      permute_cycle m (int (s + a)) (int a) (int b) (int ?c) (int ?p) ?ys"
    unfolding permute_cycle.simps Let_def
      int_pos_step [OF cyc_pos_less [OF ab(1)]] cyc_pos_Suc [symmetric] nat_int ..
  show ?case
  proof (cases "m = 0")
    case True
    with Suc.prems have "Suc j = cyc_len a b" by simp
    moreover from this have "?ys = ys"
      by (simp only: cyc_pos_round list_update_id)
    ultimately show ?thesis
      using cycle_inv_last [OF ab i len _ Suc.prems(3)] True unfolding step by simp
  next
    case False
    with Suc.prems have "cycle_inv s a b i (Suc j) xs ?ys"
      by (intro cycle_inv_Suc [OF ab len]) simp_all
    with False Suc.prems Suc.IH [of "Suc j" ?ys] show ?thesis
      unfolding step by simp
  qed
qed simp

definition cycles_done :: "nat \<Rightarrow> nat \<Rightarrow> nat \<Rightarrow> nat \<Rightarrow> 'a list \<Rightarrow> 'a list \<Rightarrow> bool" where
  "cycles_done s a b i xs ys \<longleftrightarrow> length ys = length xs \<and>
     (\<forall>q < length xs. ys ! q =
        (if s \<le> q \<and> q < s + (a + b) \<and> (q - s) mod gcd a b < i then xs ! rot s a b q else xs ! q))"

lemma rot_same_cycle: "s \<le> q \<Longrightarrow> 0 < a \<Longrightarrow> (rot s a b q - s) mod gcd a b = (q - s) mod gcd a b"
proof -
  have "(q - s + a) mod (a + b) mod gcd a b = (q - s + a) mod gcd a b"
    by (simp add: mod_mod_cancel)
  also have "\<dots> = (q - s) mod gcd a b"
    by (metis add.commute dvd_def gcd_dvd1 mod_mult_self4 mult.commute)
  finally show ?thesis by (simp add: rot_def)
qed

lemma cycles_done_Suc:
  assumes "0 < a" and len: "s + (a + b) \<le> length xs"
    and xy: "cycles_done s a b i xs ys" and yz: "cycle_done s a b i ys zs"
  shows "cycles_done s a b (Suc i) xs zs"
proof -
  have "zs ! q = (if s \<le> q \<and> q < s + (a + b) \<and> (q - s) mod gcd a b < Suc i
      then xs ! rot s a b q else xs ! q)" if q: "q < length xs" for q
  proof (cases "in_cycle s a b i q")
    case True
    then have range: "rot s a b q < s + (a + b)" "s \<le> rot s a b q"
      using assms(1) by (auto simp: rot_def)
    have "ys ! rot s a b q = xs ! rot s a b q"
      using xy range len rot_same_cycle [of s q a b] True assms(1)
      by (auto simp: cycles_done_def in_cycle_def)
    with True yz xy q show ?thesis by (auto simp: cycle_done_def in_cycle_def cycles_done_def)
  next
    case False
    then have "((q - s) mod gcd a b < Suc i) = ((q - s) mod gcd a b < i)" if "s \<le> q" "q < s + (a + b)"
      using that by (auto simp: in_cycle_def less_Suc_eq)
    with False yz xy q show ?thesis by (auto simp: cycle_done_def cycles_done_def)
  qed
  with xy yz show ?thesis by (simp add: cycles_done_def cycle_done_def)
qed

lemma permute_cycles_inv:
  assumes ab: "0 < a" "0 < b" and len: "s + (a + b) \<le> length xs"
  shows "i + n = gcd a b \<Longrightarrow> cycles_done s a b i xs ys \<Longrightarrow>
    cycles_done s a b (gcd a b) xs
      (permute_cycles n (int i) (int (s + a)) (int a) (int b) (cyc_len a b) ys)"
proof (induction n arbitrary: i ys)
  case (Suc n)
  let ?zs = "permute_cycle (cyc_len a b) (int (s + a)) (int a) (int b)
      (int (s + a) + int i) (int (s + a) + int i) ys"
  have i: "i < gcd a b" using Suc.prems by simp
  have "gcd a b \<le> b" using ab by (simp add: gcd_le2_nat)
  with i have start: "s + cyc_pos a b i 0 = s + a + i" by (simp add: cyc_pos_0)
  have "0 < cyc_len a b"
    using cyc_len_mult(1) [of a b] ab by (metis add_is_0 gr0I less_numeral_extra(3) mult_is_0)
  moreover have "s + (a + b) \<le> length ys" using Suc.prems len by (simp add: cycles_done_def)
  ultimately have "cycle_done s a b i ys ?zs"
    using permute_cycle_inv [OF ab i, of s ys "cyc_len a b" 0 ys]
    by (simp add: start cycle_inv_0)
  then have "cycles_done s a b (Suc i) xs ?zs"
    by (rule cycles_done_Suc [OF ab(1) len Suc.prems(2)])
  with Suc.prems Suc.IH [of "Suc i" ?zs] show ?case by (simp add: add.commute)
qed simp

lemma cycles_done_all:
  assumes ab: "0 < a" "0 < b" and len: "s + (a + b) \<le> length xs"
    and "cycles_done s a b (gcd a b) xs ys"
  shows "ys = take s xs @ piece (s + a) (s + a + b) xs @ piece s (s + a) xs @ drop (s + a + b) xs"
    (is "ys = ?zs")
proof (rule nth_equalityI)
  show "length ys = length ?zs"
    using assms by (auto simp: cycles_done_def)
next
  fix q assume "q < length ys"
  then have q: "q < length xs" and
    ys: "ys ! q = (if s \<le> q \<and> q < s + (a + b) then xs ! rot s a b q else xs ! q)"
    using assms ab by (auto simp: cycles_done_def)
  consider "q < s" | "s \<le> q" "q < s + b" | "s + b \<le> q" "q < s + (a + b)" | "s + (a + b) \<le> q"
    by linarith
  then show "ys ! q = ?zs ! q"
  proof cases
    case 2
    then have "rot s a b q = s + a + (q - s)" and "q - s < b" by (auto simp: rot_def)
    with 2 len show ?thesis by (simp add: ys nth_append)
  next
    case 3
    then have "rot s a b q = s + (q - s - b)"
      using cyc_pos_step [of "q - s" b a] by (simp add: rot_def ac_simps)
    moreover have "\<not> q - s < b" "q - s - b < a" using 3 by linarith+
    ultimately show ?thesis using 3 len by (simp add: ys nth_append ac_simps)
  next
    case 4
    then have "\<not> q - s < b" "\<not> q - s - b < a" by linarith+
    with 4 q len show ?thesis by (simp add: ys nth_append ac_simps)
  qed (use len in \<open>simp add: ys nth_append\<close>)
qed

lemma permute_args_eq:
  assumes "0 \<le> st" "st < en" "en < oe" "oe \<le> int (length nargv)"
  shows "permute_args st en oe nargv =
    Some (take (nat st) nargv @ piece (nat en) (nat oe) nargv
      @ piece (nat st) (nat en) nargv @ drop (nat oe) nargv)"
proof -
  define s a b where "s = nat st" and "a = nat (en - st)" and "b = nat (oe - en)"
  then have st: "st = int s" and en: "en = int (s + a)" and oe: "oe = int (s + a + b)"
    and ab: "0 < a" "0 < b" and len: "s + (a + b) \<le> length nargv"
    using assms by auto
  have diff: "en - st = int a" "oe - en = int b" "oe - st = int (a + b)"
    by (simp_all add: st en oe)
  have g: "c_gcd (int a) (int b) = Some (int (gcd a b))"
    using ab by (simp add: c_gcd_eq)
  have "int (a + b) sdiv int (gcd a b) = int (cyc_len a b)"
    by (simp only: sdiv_nonneg of_nat_0_le_iff cyc_len_def of_nat_div)
  then have "permute_args st en oe nargv =
      Some (permute_cycles (gcd a b) 0 (int (s + a)) (int a) (int b) (cyc_len a b) nargv)"
    by (simp only: permute_args_def diff Let_def g nat_int Option.bind.simps) (simp only: en)
  moreover have "cycles_done s a b 0 nargv nargv"
    by (simp add: cycles_done_def)
  then have "permute_cycles (gcd a b) 0 (int (s + a)) (int a) (int b) (cyc_len a b) nargv =
      take s nargv @ piece (s + a) (s + a + b) nargv @ piece s (s + a) nargv @ drop (s + a + b) nargv"
    using permute_cycles_inv [OF ab len, of 0 "gcd a b" nargv] by (intro cycles_done_all [OF ab len]) simp
  moreover have "nat st = s" "nat en = s + a" "nat oe = s + a + b"
    by (simp_all only: st en oe nat_int)
  ultimately show ?thesis by (simp only:)
qed

lemma permute_args_append:
  assumes "N \<noteq> []" "O' \<noteq> []"
  shows "permute_args (int (length A)) (int (length A + length N)) (int (length A + length N + length O'))
    (A @ N @ O' @ R) = Some (A @ O' @ N @ R)"
proof -
  have "permute_args (int (length A)) (int (length A + length N)) (int (length A + length N + length O'))
      (A @ N @ O' @ R) =
    Some (take (length A) (A @ N @ O' @ R)
      @ piece (length A + length N) (length A + length N + length O') (A @ N @ O' @ R)
      @ piece (length A) (length A + length N) (A @ N @ O' @ R)
      @ drop (length A + length N + length O') (A @ N @ O' @ R))"
    using assms by (subst permute_args_eq) (simp_all only: nat_int, simp_all)
  then show ?thesis by (simp add: piece_def)
qed

section \<open>The property\<close>

text \<open>
  Claim C15.  \<open>permute_args\<close> exchanges the block of operands with the block of options that
  follows it, keeps the order inside each block and leaves the rest of the vector alone; it
  never takes a remainder by zero when both blocks are non-empty.
\<close>

theorem permute_args_exchanges_blocks:
  assumes "0 \<le> panonopt_start" "panonopt_start < panonopt_end" "panonopt_end < opt_end"
    and "opt_end \<le> int (length nargv)"
  shows "permute_args panonopt_start panonopt_end opt_end nargv =
    Some (take (nat panonopt_start) nargv
      @ piece (nat panonopt_end) (nat opt_end) nargv
      @ piece (nat panonopt_start) (nat panonopt_end) nargv
      @ drop (nat opt_end) nargv)"
  using assms by (rule permute_args_eq)

theorem permute_args_exchanges_blocks_witness:
  "permute_args 1 3 7 [0, 1, 2, 3, 4, 5, 6, 7 :: nat] = Some [0, 3, 4, 5, 6, 1, 2, 7]"
  using permute_args_exchanges_blocks [of 1 3 7 "[0, 1, 2, 3, 4, 5, 6, 7 :: nat]"]
  by (simp add: piece_def eval_nat_numeral)

end
