(* ===== verification/Getopt.thy ===== *)
theory Getopt
  imports Getopt_Permute
begin

text \<open>
  The option parser of \<open>src/src/getopt_long.c\<close>: its static and external variables as a
  record, the argument vector as a mutable list of string addresses, and
  \<open>parse_long_options\<close>, \<open>getopt_internal\<close>, \<open>getopt\<close>, \<open>getopt_long\<close> and
  \<open>getopt_long_only\<close> as state-passing functions.

  A \<open>char *\<close> into an argument is a pair of a string address and an offset, so that the
  comparison \<open>place != nargv[optind]\<close> compares addresses, as the C does.  The strings
  themselves never change.  \<open>None\<close> as a result means that the C has undefined behaviour
  there: a read outside \<open>argv[0..argc]\<close> or a remainder by zero in \<open>permute_args\<close>.
\<close>

section \<open>Data\<close>

type_synonym cptr = "nat \<times> nat"

datatype has_arg = no_argument | required_argument | optional_argument

record long_option =
  name :: cstring
  has_arg :: has_arg
  flag :: "nat option"
  val :: int
  description :: cstring

datatype warning =
    recargchar char
  | recargstring cstring
  | ambig cstring
  | noarg cstring
  | illoptchar char
  | illoptstring cstring

record getopt_state =
  opterr :: bool
  optind :: int
  optopt :: int
  optreset :: bool
  optarg :: "cptr option"
  place :: "cptr option"
  nonopt_start :: int
  nonopt_end :: int
  posixly_correct :: int
  nargv :: "nat list"
  flag_store :: "nat \<Rightarrow> int"
  long_idx :: int
  warnings :: "warning list"

text \<open>The initial values of the variables, for the vector \<open>argv[0..argc-1]\<close>.\<close>

definition getopt_init :: "nat \<Rightarrow> getopt_state" where
  "getopt_init argc = \<lparr> opterr = True, optind = 1, optopt = 63, optreset = False, optarg = None,
     place = None, nonopt_start = -1, nonopt_end = -1, posixly_correct = -1,
     nargv = [0..<argc], flag_store = (\<lambda>_. 0), long_idx = 0, warnings = [] \<rparr>"

abbreviation "FLAG_PERMUTE \<equiv> (0x01 :: 32 word)"
abbreviation "FLAG_ALLARGS \<equiv> (0x02 :: 32 word)"
abbreviation "FLAG_LONGONLY \<equiv> (0x04 :: 32 word)"

text \<open>The parts of a call that do not change: the strings, the option string, the table.\<close>

record getopt_args =
  strs :: "cstring list"
  options_null :: bool
  options :: cstring
  long_options :: "long_option list option"
  idx_given :: bool
  env_posixly_correct :: bool

abbreviation "PRINT_ERROR a st \<equiv> opterr st \<and> cchar (options a) 0 \<noteq> CHR '':''"
abbreviation "BADCH \<equiv> int_of_char (CHR 0x3F)"
abbreviation "BADARG a \<equiv> (if cchar (options a) 0 = CHR '':'' then int_of_char (CHR '':'')
  else int_of_char (CHR 0x3F))"
abbreviation (input) "INORDER \<equiv> (1 :: int)"
abbreviation (input) "EMSG \<equiv> (None :: cptr option)"

definition warnx :: "getopt_args \<Rightarrow> warning \<Rightarrow> getopt_state \<Rightarrow> getopt_state" where
  "warnx a w st = (if PRINT_ERROR a st then st\<lparr>warnings := warnings st @ [w]\<rparr> else st)"

section \<open>Pointers into the arguments\<close>

text \<open>The string a pointer points to: what is left of the argument from its offset on.\<close>

definition str_at :: "getopt_args \<Rightarrow> cptr option \<Rightarrow> cstring" where
  "str_at a p = (case p of None \<Rightarrow> '''' | Some (s, i) \<Rightarrow> drop i (strs a ! s))"

definition deref :: "getopt_args \<Rightarrow> cptr option \<Rightarrow> nat \<Rightarrow> char" where
  "deref a p k = cchar (str_at a p) k"

definition advance :: "cptr option \<Rightarrow> nat \<Rightarrow> cptr option" where
  "advance p k = map_option (\<lambda>(s, i). (s, i + k)) p"

text \<open>\<open>nargv[i]\<close>: the vector ends with a null pointer; beyond it the read is undefined.\<close>

definition argv_at :: "getopt_state \<Rightarrow> int \<Rightarrow> cptr option option" where
  "argv_at st i =
     (if 0 \<le> i \<and> i < int (length (nargv st)) then Some (Some (nargv st ! nat i, 0))
      else if i = int (length (nargv st)) then Some None
      else None)"

text \<open>A read of \<open>nargv[i]\<close> that is dereferenced at once.\<close>

definition argv_str :: "getopt_state \<Rightarrow> int \<Rightarrow> cptr option" where
  "argv_str st i =
     (if 0 \<le> i \<and> i < int (length (nargv st)) then Some (nargv st ! nat i, 0) else None)"

section \<open>Long options\<close>

datatype match_result = Match int | Ambiguous

text \<open>The \<open>for\<close> loop of \<open>parse_long_options\<close>, at table index \<open>i\<close>.\<close>

fun match_long :: "cstring \<Rightarrow> nat \<Rightarrow> bool \<Rightarrow> long_option list \<Rightarrow> int \<Rightarrow> int \<Rightarrow> match_result" where
  "match_long current_argv current_argv_len short_too [] i match = Match match"
| "match_long current_argv current_argv_len short_too (opt # opts) i match =
     (if \<not> strncmp_eq current_argv (name opt) current_argv_len
      then match_long current_argv current_argv_len short_too opts (i + 1) match
      else if length (name opt) = current_argv_len then Match i
      else if short_too \<and> current_argv_len = 1
      then match_long current_argv current_argv_len short_too opts (i + 1) match
      else if match = -1
      then match_long current_argv current_argv_len short_too opts (i + 1) i
      else Ambiguous)"

definition set_optopt :: "long_option \<Rightarrow> getopt_state \<Rightarrow> getopt_state" where
  "set_optopt opt st = st\<lparr>optopt := (if flag opt = None then val opt else 0)\<rparr>"

text \<open>
  What follows a unique match (lines 206-250 and 261-267): the argument is taken from after
  the equals sign or from the next element of the vector.
\<close>

definition take_long_arg ::
  "getopt_args \<Rightarrow> long_option \<Rightarrow> cptr option \<Rightarrow> getopt_state \<Rightarrow> getopt_state option" where
  "take_long_arg a opt has_equal st =
     (if has_arg opt = required_argument \<or> has_arg opt = optional_argument then
        if has_equal \<noteq> None then Some (st\<lparr>optarg := has_equal\<rparr>)
        else if has_arg opt = required_argument then do {
          p \<leftarrow> argv_at st (optind st);
          Some (st\<lparr>optarg := p, optind := optind st + 1\<rparr>)
        } else Some st
      else Some st)"

definition long_found ::
  "getopt_args \<Rightarrow> cstring \<Rightarrow> nat \<Rightarrow> cptr option \<Rightarrow> int \<Rightarrow> long_option \<Rightarrow> getopt_state
     \<Rightarrow> (getopt_state \<times> int) option" where
  "long_found a current_argv current_argv_len has_equal match opt st =
     (if has_arg opt = no_argument \<and> has_equal \<noteq> None then
        Some (set_optopt opt (warnx a (noarg (take current_argv_len current_argv)) st), BADARG a)
      else do {
        st1 \<leftarrow> take_long_arg a opt has_equal st;
        if has_arg opt = required_argument \<and> optarg st1 = None then
          let st2 = set_optopt opt (warnx a (recargstring current_argv) st1)
          in Some (st2\<lparr>optind := optind st2 - 1\<rparr>, BADARG a)
        else
          let st2 = (if idx_given a then st1\<lparr>long_idx := match\<rparr> else st1)
          in (case flag opt of
                Some f \<Rightarrow> Some (st2\<lparr>flag_store := (flag_store st2)(f := val opt)\<rparr>, 0)
              | None \<Rightarrow> Some (st2, val opt))
      })"

definition parse_long_options ::
  "getopt_args \<Rightarrow> long_option list \<Rightarrow> bool \<Rightarrow> getopt_state \<Rightarrow> (getopt_state \<times> int) option" where
  "parse_long_options a longopts short_too st0 =
     (let current_argv = str_at a (place st0);
          st = st0\<lparr>optind := optind st0 + 1\<rparr>;
          eq = strchr current_argv (CHR ''='');
          current_argv_len = (case eq of Some k \<Rightarrow> k | None \<Rightarrow> length current_argv);
          has_equal = (case eq of Some k \<Rightarrow> advance (place st0) (k + 1) | None \<Rightarrow> None)
      in (case match_long current_argv current_argv_len short_too longopts 0 (-1) of
            Ambiguous \<Rightarrow>
              Some ((warnx a (ambig (take current_argv_len current_argv)) st)\<lparr>optopt := 0\<rparr>, BADCH)
          | Match m \<Rightarrow>
              if m \<noteq> -1 then
                long_found a current_argv current_argv_len has_equal m (longopts ! nat m) st
              else if short_too then Some (st\<lparr>optind := optind st - 1\<rparr>, -1)
              else Some ((warnx a (illoptstring current_argv) st)\<lparr>optopt := 0\<rparr>, BADCH)))"

section \<open>One call of the parser\<close>

text \<open>Lines 311-328: the end of the vector.\<close>

definition finish_args :: "getopt_state \<Rightarrow> (getopt_state \<times> int) option" where
  "finish_args st0 =
     (let st = st0\<lparr>place := EMSG\<rparr> in
      if nonopt_end st \<noteq> -1 then do {
        v \<leftarrow> permute_args (nonopt_start st) (nonopt_end st) (optind st) (nargv st);
        Some (st\<lparr>nargv := v, optind := optind st - (nonopt_end st - nonopt_start st),
                 nonopt_start := -1, nonopt_end := -1\<rparr>, -1)
      }
      else if nonopt_start st \<noteq> -1 then
        Some (st\<lparr>optind := nonopt_start st, nonopt_start := -1, nonopt_end := -1\<rparr>, -1)
      else Some (st\<lparr>nonopt_start := -1, nonopt_end := -1\<rparr>, -1))"

text \<open>Lines 347-357: a non-option is skipped, after moving earlier options in front.\<close>

definition skip_nonopt :: "getopt_state \<Rightarrow> getopt_state option" where
  "skip_nonopt st =
     (if nonopt_start st = -1 then
        Some (st\<lparr>nonopt_start := optind st, optind := optind st + 1\<rparr>)
      else if nonopt_end st \<noteq> -1 then do {
        v \<leftarrow> permute_args (nonopt_start st) (nonopt_end st) (optind st) (nargv st);
        Some (st\<lparr>nargv := v, nonopt_start := optind st - (nonopt_end st - nonopt_start st),
                 nonopt_end := -1, optind := optind st + 1\<rparr>)
      }
      else Some (st\<lparr>optind := optind st + 1\<rparr>))"

text \<open>Lines 367-381: \<open>--\<close> ends the options.\<close>

definition end_of_options :: "getopt_state \<Rightarrow> (getopt_state \<times> int) option" where
  "end_of_options st0 =
     (let st = st0\<lparr>optind := optind st0 + 1, place := EMSG\<rparr> in
      if nonopt_end st \<noteq> -1 then do {
        v \<leftarrow> permute_args (nonopt_start st) (nonopt_end st) (optind st) (nargv st);
        Some (st\<lparr>nargv := v, optind := optind st - (nonopt_end st - nonopt_start st),
                 nonopt_start := -1, nonopt_end := -1\<rparr>, -1)
      }
      else Some (st\<lparr>nonopt_start := -1, nonopt_end := -1\<rparr>, -1))"

definition is_nonoption :: "getopt_args \<Rightarrow> cptr option \<Rightarrow> bool" where
  "is_nonoption a p \<longleftrightarrow> deref a p 0 \<noteq> CHR ''-'' \<or>
     (deref a p 1 = NUL \<and> strchr (options a) (CHR ''-'') = None)"

datatype scan_result = Return getopt_state int | Go getopt_state

lemma skip_nonopt_optind: "skip_nonopt st = Some st' \<Longrightarrow> optind st' = optind st + 1"
  by (auto simp: skip_nonopt_def bind_eq_Some_conv split: if_splits)

text \<open>
  Lines 308-382, the part under \<open>start:\<close> that finds the next option; \<open>goto start\<close> is the
  recursive call.  It runs when \<open>optreset\<close> is set or \<open>place\<close> is at the end of a string.
\<close>

function scan_args :: "getopt_args \<Rightarrow> int \<Rightarrow> 32 word \<Rightarrow> getopt_state \<Rightarrow> scan_result option" where
  "scan_args a nargc flags st0 =
     (let st = st0\<lparr>optreset := False\<rparr> in
      if optind st \<ge> nargc then map_option (\<lambda>(s, r). Return s r) (finish_args st)
      else do {
        p \<leftarrow> argv_str st (optind st);
        if is_nonoption a (Some p) then
          let st1 = st\<lparr>place := EMSG\<rparr> in
          if flags AND FLAG_ALLARGS \<noteq> 0 then
            Some (Return (st1\<lparr>optarg := Some p, optind := optind st1 + 1\<rparr>) INORDER)
          else if flags AND FLAG_PERMUTE = 0 then Some (Return st1 (-1))
          else do {
            st2 \<leftarrow> skip_nonopt st1;
            scan_args a nargc flags st2
          }
        else
          let st1 = st\<lparr>place := Some p\<rparr>;
              st2 = (if nonopt_start st1 \<noteq> -1 \<and> nonopt_end st1 = -1
                     then st1\<lparr>nonopt_end := optind st1\<rparr> else st1)
          in if deref a (Some p) 1 \<noteq> NUL then
               let st3 = st2\<lparr>place := advance (Some p) 1\<rparr>
               in if deref a (place st3) 0 = CHR ''-'' \<and> deref a (place st3) 1 = NUL
                  then map_option (\<lambda>(s, r). Return s r) (end_of_options st3)
                  else Some (Go st3)
             else Some (Go st2)
      })"
  by pat_completeness auto
termination
  by (relation "measure (\<lambda>(a, nargc, flags, st). nat (nargc - optind st))")
    (auto dest: skip_nonopt_optind)

declare scan_args.simps [simp del]

text \<open>Lines 384-404: the long options.  \<open>Inl\<close> returns from the call.\<close>

definition try_long ::
  "getopt_args \<Rightarrow> 32 word \<Rightarrow> getopt_state \<Rightarrow> ((getopt_state \<times> int) + getopt_state) option" where
  "try_long a flags st =
     (case long_options a of
        None \<Rightarrow> Some (Inr st)
      | Some longopts \<Rightarrow> do {
          q \<leftarrow> argv_at st (optind st);
          if place st \<noteq> q \<and> (deref a (place st) 0 = CHR ''-'' \<or> flags AND FLAG_LONGONLY \<noteq> 0) then
            let dash = (deref a (place st) 0 = CHR ''-'');
                short_too = (\<not> dash \<and> deref a (place st) 0 \<noteq> CHR '':'' \<and>
                  strchr (options a) (deref a (place st) 0) \<noteq> None);
                st1 = (if dash then st\<lparr>place := advance (place st) 1\<rparr> else st)
            in do {
              (st2, optchar) \<leftarrow> parse_long_options a longopts short_too st1;
              if optchar \<noteq> -1 then Some (Inl (st2\<lparr>place := EMSG\<rparr>, optchar))
              else Some (Inr st2)
            }
          else Some (Inr st)
        })"

text \<open>Lines 440-461: a letter of the option string, whose position there is \<open>oli\<close>.\<close>

definition short_found ::
  "getopt_args \<Rightarrow> int \<Rightarrow> char \<Rightarrow> nat \<Rightarrow> getopt_state \<Rightarrow> (getopt_state \<times> int) option" where
  "short_found a nargc optchar oli st =
     (if cchar (options a) (oli + 1) \<noteq> CHR '':'' then
        Some (if deref a (place st) 0 = NUL then st\<lparr>optind := optind st + 1\<rparr> else st,
              int_of_char optchar)
      else
        let st1 = st\<lparr>optarg := None\<rparr> in
        if deref a (place st1) 0 \<noteq> NUL then
          Some (st1\<lparr>optarg := place st1, place := EMSG, optind := optind st1 + 1\<rparr>,
                int_of_char optchar)
        else if cchar (options a) (oli + 2) \<noteq> CHR '':'' then
          let st2 = st1\<lparr>optind := optind st1 + 1\<rparr> in
          if optind st2 \<ge> nargc then
            Some ((warnx a (recargchar optchar) (st2\<lparr>place := EMSG\<rparr>))
                    \<lparr>optopt := int_of_char optchar\<rparr>, BADARG a)
          else do {
            p \<leftarrow> argv_at st2 (optind st2);
            Some (st2\<lparr>optarg := p, place := EMSG, optind := optind st2 + 1\<rparr>, int_of_char optchar)
          }
        else Some (st1\<lparr>place := EMSG, optind := optind st1 + 1\<rparr>, int_of_char optchar))"

text \<open>Lines 423-439: \<open>-W name\<close> stands for the long option \<open>name\<close>.\<close>

definition long_by_W ::
  "getopt_args \<Rightarrow> int \<Rightarrow> long_option list \<Rightarrow> char \<Rightarrow> getopt_state \<Rightarrow> (getopt_state \<times> int) option" where
  "long_by_W a nargc longopts optchar st =
     (if deref a (place st) 0 \<noteq> NUL then do {
        (st1, r) \<leftarrow> parse_long_options a longopts False st;
        Some (st1\<lparr>place := EMSG\<rparr>, r)
      }
      else
        let st1 = st\<lparr>optind := optind st + 1\<rparr> in
        if optind st1 \<ge> nargc then
          Some ((warnx a (recargchar optchar) (st1\<lparr>place := EMSG\<rparr>))
                  \<lparr>optopt := int_of_char optchar\<rparr>, BADARG a)
        else do {
          p \<leftarrow> argv_at st1 (optind st1);
          (st2, r) \<leftarrow> parse_long_options a longopts False (st1\<lparr>place := p\<rparr>);
          Some (st2\<lparr>place := EMSG\<rparr>, r)
        })"

text \<open>Lines 406-461: one option letter.\<close>

definition short_option ::
  "getopt_args \<Rightarrow> int \<Rightarrow> getopt_state \<Rightarrow> (getopt_state \<times> int) option" where
  "short_option a nargc st0 =
     (let optchar = deref a (place st0) 0;
          st = st0\<lparr>place := advance (place st0) 1\<rparr>;
          at_end = (deref a (place st) 0 = NUL)
      in if optchar = CHR '':'' \<or> (optchar = CHR ''-'' \<and> \<not> at_end) \<or>
            strchr (options a) optchar = None then
           if optchar = CHR ''-'' \<and> at_end then Some (st, -1)
           else
             let st1 = (if at_end then st\<lparr>optind := optind st + 1\<rparr> else st)
             in Some ((warnx a (illoptchar optchar) st1)\<lparr>optopt := int_of_char optchar\<rparr>, BADCH)
         else
           let oli = the (strchr (options a) optchar) in
           (case long_options a of
              Some longopts \<Rightarrow>
                if optchar = CHR ''W'' \<and> cchar (options a) (oli + 1) = CHR '';''
                then long_by_W a nargc longopts optchar st
                else short_found a nargc optchar oli st
            | None \<Rightarrow> short_found a nargc optchar oli st))"

text \<open>Lines 384-461: the option at \<open>place\<close>, as a long option or as a letter.\<close>

definition parse_option ::
  "getopt_args \<Rightarrow> int \<Rightarrow> 32 word \<Rightarrow> getopt_state \<Rightarrow> (getopt_state \<times> int) option" where
  "parse_option a nargc flags st =
     do {
       l \<leftarrow> try_long a flags st;
       (case l of Inl res \<Rightarrow> Some res | Inr st2 \<Rightarrow> short_option a nargc st2)
     }"

text \<open>Lines 285-307: the flags, the option string and the variables at the start of a call.\<close>

definition call_flags :: "getopt_args \<Rightarrow> getopt_state \<Rightarrow> 32 word \<Rightarrow> 32 word" where
  "call_flags a st flags =
     (if posixly_correct st \<noteq> 0 \<or> cchar (options a) 0 = CHR ''+'' then flags AND NOT FLAG_PERMUTE
      else if cchar (options a) 0 = CHR ''-'' then flags OR FLAG_ALLARGS
      else flags)"

definition call_args :: "getopt_args \<Rightarrow> getopt_args" where
  "call_args a =
     (if cchar (options a) 0 = CHR ''+'' \<or> cchar (options a) 0 = CHR ''-''
      then a\<lparr>options := drop 1 (options a)\<rparr> else a)"

definition call_state :: "getopt_args \<Rightarrow> getopt_state \<Rightarrow> getopt_state" where
  "call_state a st =
     (let st1 = (if optind st = 0 then st\<lparr>optind := 1, optreset := True\<rparr> else st);
          st2 = st1\<lparr>optarg := None\<rparr>
      in if optreset st2 then st2\<lparr>nonopt_start := -1, nonopt_end := -1\<rparr> else st2)"

definition note_posix :: "getopt_args \<Rightarrow> getopt_state \<Rightarrow> getopt_state" where
  "note_posix a st = (if posixly_correct st = -1
     then st\<lparr>posixly_correct := (if env_posixly_correct a then 1 else 0)\<rparr> else st)"

definition getopt_internal ::
  "getopt_args \<Rightarrow> int \<Rightarrow> 32 word \<Rightarrow> getopt_state \<Rightarrow> (getopt_state \<times> int) option" where
  "getopt_internal a0 nargc flags0 st00 =
     (if options_null a0 then Some (st00, -1) else
      let st0 = note_posix a0 st00;
          flags = call_flags a0 st0 flags0;
          a = call_args a0;
          st = call_state a st0
      in do {
        r \<leftarrow> (if optreset st \<or> deref a (place st) 0 = NUL
             then scan_args a nargc flags st else Some (Go st));
        (case r of
           Return st1 v \<Rightarrow> Some (st1, v)
         | Go st1 \<Rightarrow> parse_option a nargc flags st1)
      })"

text \<open>The entry points; \<open>getopt\<close> passes no table of long options.\<close>

definition getopt :: "getopt_args \<Rightarrow> int \<Rightarrow> getopt_state \<Rightarrow> (getopt_state \<times> int) option" where
  "getopt a nargc st = getopt_internal (a\<lparr>long_options := None, idx_given := False\<rparr>) nargc 0 st"

definition getopt_long :: "getopt_args \<Rightarrow> int \<Rightarrow> getopt_state \<Rightarrow> (getopt_state \<times> int) option" where
  "getopt_long a nargc st = getopt_internal a nargc FLAG_PERMUTE st"

definition getopt_long_only :: "getopt_args \<Rightarrow> int \<Rightarrow> getopt_state \<Rightarrow> (getopt_state \<times> int) option" where
  "getopt_long_only a nargc st = getopt_internal a nargc (FLAG_PERMUTE OR FLAG_LONGONLY) st"

end
