(* ===== verification/Getopt_Inv.thy ===== *)
theory Getopt_Inv
  imports Getopt
begin

text \<open>
  What a parse with \<open>getopt_internal\<close> keeps true of the argument vector: it stays a
  permutation of the original one, made of the options met so far, the skipped operands and
  the arguments not yet looked at, each in the original order.  From it follow that no call
  reads outside the vector or divides by zero, and that the final vector is the stable
  partition that the callers rely on.
\<close>

section \<open>The invariant\<close>

definition regions :: "getopt_state \<Rightarrow> nat \<Rightarrow> nat list \<Rightarrow> nat list \<Rightarrow> nat list \<Rightarrow> bool" where
  "regions st n A N O' \<longleftrightarrow>
     nargv st = A @ N @ O' @ [nat (optind st)..<n] \<and>
     1 \<le> optind st \<and> optind st \<le> int n \<and>
     mset (A @ N @ O') = mset [0..<nat (optind st)] \<and>
     A \<noteq> [] \<and> sorted (A @ O') \<and> sorted N \<and>
     (if nonopt_start st = -1 then N = [] \<and> O' = [] \<and> nonopt_end st = -1
      else nonopt_start st = int (length A) \<and> N \<noteq> [] \<and>
        (if nonopt_end st = -1 then O' = [] else nonopt_end st = int (length A + length N)))"

text \<open>The element of the vector that is being parsed is an option.\<close>

definition at_option :: "getopt_args \<Rightarrow> getopt_state \<Rightarrow> bool" where
  "at_option a st \<longleftrightarrow> optind st < int (length (nargv st)) \<and>
     \<not> is_nonoption a (Some (nargv st ! nat (optind st), 0))"

text \<open>
  \<open>place\<close> is inside the argument at \<open>optind\<close>, behind its dash unless the dash is all
  there is, and the argument is not \<open>--\<close>; skipped operands have been closed off.
\<close>

definition in_option :: "getopt_args \<Rightarrow> getopt_state \<Rightarrow> bool" where
  "in_option a st \<longleftrightarrow> at_option a st \<and> (nonopt_start st \<noteq> -1 \<longrightarrow> nonopt_end st \<noteq> -1) \<and>
     deref a (place st) 0 \<noteq> NUL \<and>
     (\<exists>i. place st = Some (nargv st ! nat (optind st), i) \<and>
        (if i = 0 then strs a ! (nargv st ! nat (optind st)) = ''-''
         else strs a ! (nargv st ! nat (optind st)) \<noteq> ''--''))"

text \<open>Operands are skipped only when the flags of the parse ask for it.\<close>

definition flags_ok :: "32 word \<Rightarrow> getopt_state \<Rightarrow> bool" where
  "flags_ok flags st \<longleftrightarrow>
     (flags AND FLAG_ALLARGS \<noteq> 0 \<or> flags AND FLAG_PERMUTE = 0 \<longrightarrow> nonopt_start st = -1)"

definition base_inv :: "getopt_args \<Rightarrow> 32 word \<Rightarrow> getopt_state \<Rightarrow> bool" where
  "base_inv a flags st \<longleftrightarrow> length (strs a) = length (nargv st) \<and> flags_ok flags st \<and>
     (\<exists>A N O'. regions st (length (strs a)) A N O' \<and> (nonopt_end st \<noteq> -1 \<and> O' = [] \<longrightarrow> at_option a st))"

definition getopt_inv :: "getopt_args \<Rightarrow> 32 word \<Rightarrow> getopt_state \<Rightarrow> bool" where
  "getopt_inv a flags st \<longleftrightarrow> base_inv a flags st \<and> (deref a (place st) 0 = NUL \<or> in_option a st)"

text \<open>
  Arguments for which the return value \<open>-1\<close> means the end of the options: no letter or
  table entry yields it, and no group of letters ends with a dash (see the finding on the
  trailing dash).
\<close>

definition plain_args :: "getopt_args \<Rightarrow> bool" where
  "plain_args a \<longleftrightarrow> \<not> options_null a \<and>
     (\<forall>s \<in> set (strs a). CHR 0xFF \<notin> set s \<and> NUL \<notin> set s \<and> (2 < length s \<longrightarrow> last s \<noteq> CHR ''-'')) \<and>
     (\<forall>opts. long_options a = Some opts \<longrightarrow> (\<forall>opt \<in> set opts. val opt \<noteq> -1))"

text \<open>When the parse is over: the parsed part and the operands, each in the original order.\<close>

definition stable_partition :: "getopt_state \<Rightarrow> bool" where
  "stable_partition st \<longleftrightarrow>
     1 \<le> optind st \<and> optind st \<le> int (length (nargv st)) \<and>
     mset (nargv st) = mset [0..<length (nargv st)] \<and>
     sorted (take (nat (optind st)) (nargv st)) \<and> sorted (drop (nat (optind st)) (nargv st))"

text \<open>The vector holds \<open>F\<close> up to \<open>optind\<close> and \<open>Q\<close> from there on.\<close>

definition laid_out :: "getopt_state \<Rightarrow> nat list \<Rightarrow> nat list \<Rightarrow> bool" where
  "laid_out st F Q \<longleftrightarrow> nargv st = F @ Q \<and> optind st = int (length F)"

lemma mset_eq_upt_less: "mset xs = mset [0..<n] \<Longrightarrow> x \<in> set xs \<Longrightarrow> x < n"
  by (metis atLeastLessThan_iff set_mset_mset set_upt)

lemma mset_eq_upt_length: "mset xs = mset [0..<n] \<Longrightarrow> length xs = n"
  by (metis diff_zero length_upt size_mset)

lemma regionsD:
  assumes "regions st n A N O'"
  shows "nat (optind st) = length A + length N + length O'"
    and "\<And>x. x \<in> set A \<or> x \<in> set N \<or> x \<in> set O' \<Longrightarrow> x < nat (optind st)"
proof -
  from assms have m: "mset (A @ N @ O') = mset [0..<nat (optind st)]"
    by (simp add: regions_def)
  show "nat (optind st) = length A + length N + length O'"
    using mset_eq_upt_length [OF m] by simp
  show "\<And>x. x \<in> set A \<or> x \<in> set N \<or> x \<in> set O' \<Longrightarrow> x < nat (optind st)"
    using mset_eq_upt_less [OF m] by auto
qed

lemma regions_init: "1 \<le> argc \<Longrightarrow> regions (getopt_init argc) argc [0] [] []"
  by (simp add: regions_def getopt_init_def upt_conv_Cons)

lemma regions_cong:
  "nargv st' = nargv st \<Longrightarrow> optind st' = optind st \<Longrightarrow> nonopt_start st' = nonopt_start st \<Longrightarrow>
   nonopt_end st' = nonopt_end st \<Longrightarrow> regions st' n A N O' = regions st n A N O'"
  by (simp add: regions_def)

lemma regions_upd [simp]:
  "regions (st\<lparr>optreset := x\<rparr>) n A N O' = regions st n A N O'"
  "regions (st\<lparr>place := y\<rparr>) n A N O' = regions st n A N O'"
  "regions (st\<lparr>optarg := z\<rparr>) n A N O' = regions st n A N O'"
  by (simp_all add: regions_def)

lemma upt_snoc_int: "0 \<le> (i::int) \<Longrightarrow> [0..<nat (i + 1)] = [0..<nat i] @ [nat i]"
  by (simp add: nat_add_distrib)

lemma upt_head_int: "0 \<le> i \<Longrightarrow> i < int n \<Longrightarrow> [nat i..<n] = nat i # [nat (i + 1)..<n]"
  by (simp add: nat_add_distrib upt_conv_Cons nat_less_iff)

lemma regions_bounds:
  "regions st n A N O' \<Longrightarrow> 1 \<le> optind st \<and> optind st \<le> int n \<and> nat (optind st) \<le> n"
  by (simp add: regions_def nat_le_iff)

lemma regions_length: "regions st n A N O' \<Longrightarrow> length (nargv st) = n"
proof -
  assume r: "regions st n A N O'"
  have "nargv st = A @ N @ O' @ [nat (optind st)..<n]" and "nat (optind st) \<le> n"
    using r regions_bounds [OF r] by (simp_all add: regions_def)
  then show ?thesis using regionsD(1) [OF r] by simp
qed

text \<open>Moving the operands behind the options, as \<open>permute_args\<close> does in a region state.\<close>

lemma permute_regions:
  assumes r: "regions st n A N O'" and e: "nonopt_end st \<noteq> -1" and "O' \<noteq> []"
  shows "permute_args (nonopt_start st) (nonopt_end st) (optind st) (nargv st) =
    Some (A @ O' @ N @ [nat (optind st)..<n])"
proof -
  have s: "nonopt_start st = int (length A)" "nonopt_end st = int (length A + length N)" "N \<noteq> []"
    using r e by (auto simp: regions_def split: if_splits)
  have "nat (optind st) = length A + length N + length O'" "0 \<le> optind st"
    using regionsD(1) [OF r] r by (simp_all add: regions_def)
  then have "optind st = int (length A + length N + length O')" by linarith
  then show ?thesis
    using permute_args_append [OF s(3) \<open>O' \<noteq> []\<close>, of A "[nat (optind st)..<n]"] r s
    by (metis regions_def)
qed

section \<open>The parts that move operands\<close>

lemma regions_stable:
  assumes r: "regions st n A N O'"
    and v: "nargv st' = A @ O' @ N @ [nat (optind st)..<n]"
    and o: "optind st' = int (length A + length O')"
  shows "stable_partition st'"
proof -
  note D = regionsD [OF r]
  have len: "length (nargv st') = n"
    using r D(1) by (auto simp: v regions_def)
  have "mset (nargv st') = mset (A @ N @ O') + mset [nat (optind st)..<n]"
    by (simp add: v ac_simps)
  also have "\<dots> = mset ([0..<nat (optind st)] @ [nat (optind st)..<n])"
    using r by (simp add: regions_def)
  also have "[0..<nat (optind st)] @ [nat (optind st)..<n] = [0..<n]"
    using regions_bounds [OF r] by (intro upt_append_upt) simp_all
  finally have m: "mset (nargv st') = mset [0..<n]" .
  have "sorted (N @ [nat (optind st)..<n])"
    using r D(2) by (intro sorted_append_upt) (auto simp: regions_def)
  moreover have "0 < length A" "length A + length O' \<le> n"
    using r D(1) regions_bounds [OF r] by (simp_all add: regions_def)
  moreover have "sorted (A @ O')" using r by (simp add: regions_def)
  ultimately show ?thesis
    using m by (simp add: stable_partition_def len o) (simp add: v Suc_le_eq flip: of_nat_add)
qed

lemma permute_stable:
  assumes r: "regions st n A N O'" and "nonopt_end st \<noteq> -1" and "O' \<noteq> []"
  shows "\<exists>v. permute_args (nonopt_start st) (nonopt_end st) (optind st) (nargv st) = Some v \<and>
    stable_partition (st'\<lparr>nargv := v, optind := optind st - (nonopt_end st - nonopt_start st),
      nonopt_start := -1, nonopt_end := -1\<rparr>) \<and>
    laid_out (st'\<lparr>nargv := v, optind := optind st - (nonopt_end st - nonopt_start st),
      nonopt_start := -1, nonopt_end := -1\<rparr>) (A @ O') (N @ [nat (optind st)..<n])"
proof -
  have "optind st - (nonopt_end st - nonopt_start st) = int (length A + length O')"
    using r assms(2) regionsD(1) [OF r] by (auto simp: regions_def split: if_splits)
  then show ?thesis
    using regions_stable [OF r] permute_regions [OF assms] by (simp add: laid_out_def)
qed

lemma regions_open_stable:
  assumes "regions st n A N []" "nargv st' = nargv st" "optind st' = int (length A)"
  shows "stable_partition st'" "laid_out st' A (N @ [nat (optind st)..<n])"
  using assms by (auto simp: regions_def laid_out_def intro!: regions_stable [OF assms(1)])

lemma finish_regions:
  assumes r: "regions st n A N O'" and o: "optind st = int n"
    and "nonopt_end st \<noteq> -1 \<Longrightarrow> O' \<noteq> []"
  shows "\<exists>st'. finish_args st = Some (st', -1) \<and> stable_partition st' \<and> laid_out st' (A @ O') N"
proof (cases "nonopt_end st = -1")
  case False
  then show ?thesis
    using permute_stable [OF r, of "st\<lparr>place := EMSG\<rparr>"] assms(3) o by (auto simp: finish_args_def)
next
  case True
  then have "O' = []" using r by (auto simp: regions_def split: if_splits)
  with r have r': "regions st n A N []" by simp
  show ?thesis
  proof (cases "nonopt_start st = -1")
    case True
    then have "N = []" using r by (simp add: regions_def)
    then have "optind st = int (length A)"
      using regionsD(1) [OF r] o \<open>O' = []\<close> by simp
    then show ?thesis
      using True \<open>nonopt_end st = -1\<close> \<open>O' = []\<close> o regions_open_stable(2) [OF r']
      by (auto simp: finish_args_def intro!: regions_open_stable(1) [OF r'])
  next
    case False
    then have "nonopt_start st = int (length A)" using r by (simp add: regions_def)
    then show ?thesis
      using False \<open>nonopt_end st = -1\<close> \<open>O' = []\<close> o regions_open_stable(2) [OF r']
      by (auto simp: finish_args_def intro!: regions_open_stable(1) [OF r'])
  qed
qed

text \<open>The arguments of an option are parsed: the region of options grows to \<open>optind\<close>.\<close>

definition moved :: "getopt_state \<Rightarrow> getopt_state \<Rightarrow> bool" where
  "moved st st' \<longleftrightarrow> nargv st' = nargv st \<and> nonopt_start st' = nonopt_start st \<and>
     nonopt_end st' = nonopt_end st \<and> optind st < optind st' \<and> optind st' \<le> int (length (nargv st))"

lemma moved_regions:
  assumes r: "regions st n A N O'" and closed: "nonopt_start st \<noteq> -1 \<Longrightarrow> nonopt_end st \<noteq> -1"
    and m: "moved st st'"
  shows "\<exists>A' O''. regions st' n A' N O'' \<and> (nonopt_end st' \<noteq> -1 \<longrightarrow> O'' \<noteq> []) \<and>
    A' @ O'' = A @ O' @ [nat (optind st)..<nat (optind st')]"
proof -
  let ?new = "[nat (optind st)..<nat (optind st')]"
  have o: "0 \<le> optind st" "optind st < optind st'" "optind st' \<le> int n"
    using r m regions_length [OF r] by (auto simp: moved_def regions_def)
  then have split: "[nat (optind st)..<n] = ?new @ [nat (optind st')..<n]"
    and all: "[0..<nat (optind st')] = [0..<nat (optind st)] @ ?new" and ne: "?new \<noteq> []"
    by (simp_all add: upt_append_upt nat_le_iff)
  have ms: "mset (A @ N @ O') = mset [0..<nat (optind st)]" and sn: "sorted N" "A \<noteq> []"
    using r by (simp_all add: regions_def)
  have "nargv st = A @ N @ O' @ [nat (optind st)..<n]"
    using r by (simp add: regions_def)
  then have v: "nargv st = A @ N @ O' @ ?new @ [nat (optind st')..<n]"
    by (simp only: split)
  have "sorted ((A @ O') @ ?new)"
    using r regionsD(2) [OF r] by (intro sorted_append_upt) (auto simp: regions_def)
  then have so: "sorted (A @ O' @ ?new)" by simp
  show ?thesis
  proof (cases "nonopt_start st = -1")
    case True
    then have "N = []" "O' = []" "nonopt_end st = -1" using r by (auto simp: regions_def)
    then have "regions st' n (A @ ?new) N []"
      using m o so sn v ms True by (auto simp: regions_def moved_def all)
    with m \<open>nonopt_end st = -1\<close> \<open>O' = []\<close> show ?thesis by (auto simp: moved_def)
  next
    case False
    with closed r have "nonopt_start st = int (length A)" "N \<noteq> []"
      "nonopt_end st = int (length A + length N)" "nonopt_end st \<noteq> -1"
      by (auto simp: regions_def)
    then have "regions st' n A N (O' @ ?new)"
      using m o so sn v ms False by (auto simp: regions_def moved_def all)
    with ne show ?thesis
      by (intro exI [of _ A] exI [of _ "O' @ ?new"]) simp
  qed
qed

lemma end_of_options_regions:
  assumes r: "regions st n A N O'" and o: "optind st < int n"
    and closed: "nonopt_start st \<noteq> -1 \<Longrightarrow> nonopt_end st \<noteq> -1"
  shows "\<exists>st'. end_of_options st = Some (st', -1) \<and> stable_partition st' \<and>
    laid_out st' (A @ O' @ [nat (optind st)]) (N @ [nat (optind st + 1)..<n])"
proof -
  let ?st = "st\<lparr>optind := optind st + 1, place := EMSG\<rparr>"
  have "moved st ?st" using o regions_length [OF r] by (simp add: moved_def)
  then obtain A' O'' where r': "regions ?st n A' N O''" and ne: "nonopt_end ?st \<noteq> -1 \<longrightarrow> O'' \<noteq> []"
    and "A' @ O'' = A @ O' @ [nat (optind st)..<nat (optind ?st)]"
    using moved_regions [OF r closed] by blast
  then have F: "A' @ O'' = A @ O' @ [nat (optind st)]"
    using regions_bounds [OF r] by (simp add: nat_add_distrib)
  show ?thesis
  proof (cases "nonopt_end st = -1")
    case False
    then show ?thesis
      using permute_stable [OF r', of ?st] ne F by (auto simp: end_of_options_def)
  next
    case True
    then have "nonopt_start st = -1" using closed by blast
    then have "N = []" "O'' = []" using r' by (auto simp: regions_def)
    let ?st' = "?st\<lparr>nonopt_start := -1, nonopt_end := -1\<rparr>"
    have "optind ?st = int (length A')"
      using regionsD(1) [OF r'] r' \<open>N = []\<close> \<open>O'' = []\<close> by (auto simp: regions_def)
    then have "stable_partition ?st'" "laid_out ?st' A' (N @ [nat (optind ?st)..<n])"
      using r' \<open>O'' = []\<close> regions_open_stable [of ?st n A' N ?st'] by simp_all
    moreover have "A' = A @ O' @ [nat (optind st)]" "optind ?st = optind st + 1" using F \<open>O'' = []\<close> by simp_all
    moreover have "end_of_options st = Some (?st', -1)" using True by (simp add: end_of_options_def)
    ultimately show ?thesis by metis
  qed
qed

lemma skip_regions:
  assumes r: "regions st n A N O'" and o: "optind st < int n"
    and ne: "nonopt_end st \<noteq> -1 \<Longrightarrow> O' \<noteq> []"
  shows "\<exists>st'. skip_nonopt st = Some st' \<and> regions st' n (A @ O') (N @ [nat (optind st)]) [] \<and> nonopt_end st' = -1 \<and>
    place st' = place st \<and> length (nargv st') = length (nargv st) \<and> optind st' = optind st + 1"
proof -
  note D = regionsD [OF r]
  have o1: "1 \<le> optind st" using regions_bounds [OF r] by simp
  have rest: "[nat (optind st)..<n] = nat (optind st) # [nat (optind st + 1)..<n]"
    and all: "[0..<nat (optind st + 1)] = [0..<nat (optind st)] @ [nat (optind st)]"
    using o1 o by (simp_all add: upt_head_int upt_snoc_int)
  have so: "sorted (N @ [nat (optind st)])"
    using r D(2) by (auto simp: regions_def sorted_append less_imp_le)
  have ms: "mset (A @ N @ O') = mset [0..<nat (optind st)]"
    and v: "nargv st = A @ N @ O' @ [nat (optind st)] @ [nat (optind st + 1)..<n]"
    and s: "sorted (A @ O')" "A \<noteq> []"
    using r by (simp_all add: regions_def rest)
  have ms': "mset (A @ N @ O' @ [nat (optind st)]) = mset [0..<nat (optind st + 1)]"
    using ms unfolding all by simp
  show ?thesis
  proof (cases "nonopt_end st = -1")
    case True
    then have O': "O' = []" using r by (auto simp: regions_def split: if_splits)
    let ?st = "(if nonopt_start st = -1 then st\<lparr>nonopt_start := optind st\<rparr> else st)\<lparr>optind := optind st + 1\<rparr>"
    have "nonopt_start ?st = int (length A)"
      using r D(1) o1 O' by (auto simp: regions_def)
    then have "regions ?st n A (N @ [nat (optind st)]) []"
      using True O' so ms' v s o o1 unfolding regions_def by simp
    with True O' show ?thesis
      by (intro exI [of _ ?st]) (simp add: skip_nonopt_def)
  next
    case False
    let ?st = "st\<lparr>nargv := A @ O' @ N @ [nat (optind st)..<n],
      nonopt_start := optind st - (nonopt_end st - nonopt_start st), nonopt_end := -1,
      optind := optind st + 1\<rparr>"
    have "nonopt_start ?st = int (length (A @ O'))" "N \<noteq> []" "nonopt_start st \<noteq> -1"
      using r False D(1) o1 by (auto simp: regions_def split: if_splits)
    then have "regions ?st n (A @ O') (N @ [nat (optind st)]) []"
      using False so ms' s o o1 unfolding regions_def by (simp add: rest ac_simps)
    moreover have "length (nargv ?st) = length (nargv st)"
      using v by (simp add: rest)
    ultimately show ?thesis
      using False permute_regions [OF r False ne] \<open>nonopt_start st \<noteq> -1\<close>
      by (auto simp: skip_nonopt_def)
  qed
qed

section \<open>Finding the next option\<close>

definition scan_ok :: "getopt_args \<Rightarrow> 32 word \<Rightarrow> scan_result \<Rightarrow> bool" where
  "scan_ok a flags res \<longleftrightarrow> (case res of
       Return st v \<Rightarrow> (if v = -1 then stable_partition st else getopt_inv a flags st)
     | Go st \<Rightarrow> base_inv a flags st \<and> in_option a st)"

lemma argv_str_in: "0 \<le> i \<Longrightarrow> i < int (length (nargv st)) \<Longrightarrow> argv_str st i = Some (nargv st ! nat i, 0)"
  by (simp add: argv_str_def)

lemma deref_advance: "deref a (advance p j) k = deref a p (j + k)"
  by (auto simp: deref_def str_at_def advance_def cchar_def ac_simps split: option.splits)

lemma moved_base:
  assumes "base_inv a flags st" "nonopt_start st \<noteq> -1 \<Longrightarrow> nonopt_end st \<noteq> -1" "moved st st'"
  shows "base_inv a flags st'"
proof -
  obtain A N O' where "regions st (length (strs a)) A N O'"
    using assms(1) unfolding base_inv_def by blast
  then have "\<exists>A' O''. regions st' (length (strs a)) A' N O'' \<and> (nonopt_end st' \<noteq> -1 \<longrightarrow> O'' \<noteq> [])"
    using moved_regions [OF _ assms(2,3)] by blast
  with assms show ?thesis unfolding base_inv_def flags_ok_def moved_def by auto
qed

lemma moved_inv:
  assumes "base_inv a flags st" "nonopt_start st \<noteq> -1 \<Longrightarrow> nonopt_end st \<noteq> -1" "moved st st'"
    and "place st' = EMSG"
  shows "getopt_inv a flags st'"
  using moved_base [OF assms(1-3)] assms(4) by (simp add: getopt_inv_def deref_def str_at_def)

lemma in_optionI:
  assumes "at_option a st" "nonopt_start st \<noteq> -1 \<Longrightarrow> nonopt_end st \<noteq> -1" "deref a (place st) 0 \<noteq> NUL"
    and "place st = Some (nargv st ! nat (optind st), i)"
    and "i = 0 \<Longrightarrow> strs a ! (nargv st ! nat (optind st)) = ''-''"
    and "i \<noteq> 0 \<Longrightarrow> strs a ! (nargv st ! nat (optind st)) \<noteq> ''--''"
  shows "in_option a st"
  using assms unfolding in_option_def by auto

lemma in_option_first:
  assumes p: "p = (nargv st ! nat (optind st), 0)" and opt: "at_option a st" "\<not> is_nonoption a (Some p)"
    and closed: "nonopt_start st \<noteq> -1 \<Longrightarrow> nonopt_end st \<noteq> -1"
    and nul: "NUL \<notin> set (strs a ! fst p)"
  shows "deref a (Some p) 1 = NUL \<Longrightarrow> place st = Some p \<Longrightarrow> in_option a st"
    and "deref a (Some p) 1 \<noteq> NUL \<Longrightarrow> \<not> (deref a (Some p) 1 = CHR ''-'' \<and> deref a (Some p) 2 = NUL)
      \<Longrightarrow> place st = advance (Some p) 1 \<Longrightarrow> in_option a st"
proof -
  let ?s = "strs a ! (nargv st ! nat (optind st))"
  have dash: "deref a (Some p) 0 = CHR ''-''" using opt by (simp add: is_nonoption_def)
  { assume "deref a (Some p) 1 = NUL" and "place st = Some p"
    moreover from dash have "?s ! 0 = CHR ''-''" "0 < length ?s"
      using cchar_neq_NUL [of ?s 0] by (auto simp: deref_def str_at_def p)
    moreover have "length ?s \<le> 1"
      using \<open>deref a (Some p) 1 = NUL\<close> nul
      by (auto simp: deref_def str_at_def p cchar_def in_set_conv_nth split: if_splits)
    ultimately have "?s = ''-''" by (cases ?s) auto
    with \<open>place st = Some p\<close> show "in_option a st"
      using opt(1) closed dash by (intro in_optionI [where i = 0]) (simp_all add: p) }
  { assume "deref a (Some p) 1 \<noteq> NUL" "\<not> (deref a (Some p) 1 = CHR ''-'' \<and> deref a (Some p) 2 = NUL)"
      and pl: "place st = advance (Some p) 1"
    moreover from this have "?s \<noteq> ''--''" by (auto simp: deref_def str_at_def p)
    moreover have "place st = Some (nargv st ! nat (optind st), 1)"
      using pl by (simp add: advance_def p)
    moreover have "deref a (place st) 0 = deref a (Some p) 1"
      using pl by (simp only: deref_advance) simp
    ultimately show "in_option a st"
      using opt(1) closed by (intro in_optionI [where i = 1]) simp_all }
qed

lemma plain_args_NUL:
  "plain_args a \<Longrightarrow> i < length (strs a) \<Longrightarrow> NUL \<notin> set (strs a ! i)"
  by (auto simp: plain_args_def)

lemma regions_ids:
  assumes "regions st n A N O'" "i < n"
  shows "nargv st ! i < n"
proof -
  have "x < nat (optind st) \<or> x < n" if "x \<in> set (nargv st)" for x
    using regionsD(2) [OF assms(1), of x] that assms(1) by (auto simp: regions_def)
  then have "set (nargv st) \<subseteq> {0..<n}"
    using regions_bounds [OF assms(1)] by fastforce
  moreover have "nargv st ! i \<in> set (nargv st)"
    using assms regions_length by (metis nth_mem)
  ultimately show ?thesis by auto
qed

text \<open>
  The search for the next option, one round.  The facts the two cases share are the locals of
  the invariant: the regions, and that the options region is empty only at an option.
\<close>

definition at_arg :: "getopt_args \<Rightarrow> 32 word \<Rightarrow> getopt_state \<Rightarrow> nat list \<Rightarrow> nat list \<Rightarrow> nat list \<Rightarrow> bool" where
  "at_arg a flags st A N O' \<longleftrightarrow> regions st (length (strs a)) A N O' \<and> flags_ok flags st \<and>
     (nonopt_end st \<noteq> -1 \<and> O' = [] \<longrightarrow> at_option a st)"

lemma base_inv_at_arg: "base_inv a flags st \<longleftrightarrow> (\<exists>A N O'. at_arg a flags st A N O')"
  unfolding base_inv_def at_arg_def using regions_length by metis

lemma scan_nonoption_eq:
  assumes "0 \<le> optind st" "optind st < int n" "length (nargv st) = n"
    and "is_nonoption a (Some (nargv st ! nat (optind st), 0))"
  shows "scan_args a (int n) flags st =
    (let st1 = st\<lparr>optreset := False, place := EMSG\<rparr> in
     if flags AND FLAG_ALLARGS \<noteq> 0
     then Some (Return (st1\<lparr>optarg := Some (nargv st ! nat (optind st), 0), optind := optind st + 1\<rparr>) INORDER)
     else if flags AND FLAG_PERMUTE = 0 then Some (Return st1 (-1))
     else skip_nonopt st1 \<bind> scan_args a (int n) flags)"
  using assms by (subst scan_args.simps) (simp add: argv_str_def Let_def)

lemma scan_option_eq:
  assumes "0 \<le> optind st" "optind st < int n" "length (nargv st) = n"
    and "\<not> is_nonoption a (Some (nargv st ! nat (optind st), 0))"
  shows "scan_args a (int n) flags st =
    (let p = (nargv st ! nat (optind st), 0);
         ne = if nonopt_start st \<noteq> -1 \<and> nonopt_end st = -1 then optind st else nonopt_end st;
         st1 = st\<lparr>optreset := False, nonopt_end := ne\<rparr>
     in if deref a (Some p) 1 \<noteq> NUL then
          if deref a (Some p) 1 = CHR ''-'' \<and> deref a (Some p) 2 = NUL
          then map_option (\<lambda>(s, v). Return s v) (end_of_options (st1\<lparr>place := advance (Some p) 1\<rparr>))
          else Some (Go (st1\<lparr>place := advance (Some p) 1\<rparr>))
        else Some (Go (st1\<lparr>place := Some p\<rparr>)))"
  using assms by (subst scan_args.simps) (simp add: argv_str_def Let_def deref_advance numeral_2_eq_2)

lemma scan_nonoption:
  assumes i: "at_arg a flags st A N O'" and o: "optind st < int (length (strs a))"
    and non: "is_nonoption a (Some (nargv st ! nat (optind st), 0))"
  shows "(\<exists>res. scan_args a (int (length (strs a))) flags st = Some res \<and> scan_ok a flags res) \<or>
    (\<exists>st'. scan_args a (int (length (strs a))) flags st = scan_args a (int (length (strs a))) flags st' \<and>
       base_inv a flags st' \<and> optind st' = optind st + 1)"
proof -
  let ?n = "length (strs a)" and ?st = "st\<lparr>optreset := False, place := EMSG\<rparr>"
  let ?p = "(nargv st ! nat (optind st), 0)"
  have r: "regions ?st ?n A N O'" and fl: "flags_ok flags st" and len: "length (nargv st) = ?n"
    and ne: "nonopt_end st \<noteq> -1 \<Longrightarrow> O' \<noteq> []"
    using i non regions_length [of st ?n A N O'] by (auto simp: at_arg_def regions_def at_option_def)
  have b: "1 \<le> optind st" using regions_bounds [OF r] by simp
  have scan: "scan_args a (int ?n) flags st =
      (if flags AND FLAG_ALLARGS \<noteq> 0 then Some (Return (?st\<lparr>optarg := Some ?p, optind := optind st + 1\<rparr>) INORDER)
       else if flags AND FLAG_PERMUTE = 0 then Some (Return ?st (-1))
       else skip_nonopt ?st \<bind> scan_args a (int ?n) flags)"
    using b o len non by (simp add: scan_nonoption_eq Let_def)
  show ?thesis
  proof (cases "flags AND FLAG_ALLARGS \<noteq> 0 \<or> flags AND FLAG_PERMUTE = 0")
    case True
    then have s: "nonopt_start st = -1" using fl by (simp add: flags_ok_def)
    have "getopt_inv a flags (?st\<lparr>optarg := Some ?p, optind := optind st + 1\<rparr>)"
      using i o len s by (intro moved_inv [of _ _ st]) (auto simp: base_inv_at_arg moved_def)
    moreover have "stable_partition ?st"
      using r s regionsD(1) [OF r] b by (intro regions_open_stable(1) [of ?st ?n A N]) (auto simp: regions_def)
    ultimately show ?thesis using True by (auto simp: scan scan_ok_def)
  next
    case False
    obtain st' where "skip_nonopt ?st = Some st'" "regions st' ?n (A @ O') (N @ [nat (optind st)]) []"
      "nonopt_end st' = -1" "optind st' = optind st + 1"
      using skip_regions [OF r] o ne by auto
    moreover have "flags_ok flags st'" using False by (simp add: flags_ok_def)
    ultimately have "base_inv a flags st'" "scan_args a (int ?n) flags st = scan_args a (int ?n) flags st'"
      using False unfolding base_inv_at_arg at_arg_def scan by auto
    with \<open>optind st' = optind st + 1\<close> show ?thesis by blast
  qed
qed

lemma scan_option:
  assumes pl: "plain_args a" and i: "at_arg a flags st A N O'" and o: "optind st < int (length (strs a))"
    and opt: "\<not> is_nonoption a (Some (nargv st ! nat (optind st), 0))"
  shows "\<exists>res. scan_args a (int (length (strs a))) flags st = Some res \<and> scan_ok a flags res"
proof -
  let ?n = "length (strs a)" and ?p = "(nargv st ! nat (optind st), 0)"
  let ?ne = "if nonopt_start st \<noteq> -1 \<and> nonopt_end st = -1 then optind st else nonopt_end st"
  let ?st = "st\<lparr>optreset := False, nonopt_end := ?ne\<rparr>"
  have r: "regions st ?n A N O'" and fl: "flags_ok flags st" and len: "length (nargv st) = ?n"
    using i regions_length [of st ?n A N O'] by (auto simp: at_arg_def)
  have b: "1 \<le> optind st" using regions_bounds [OF r] by simp
  have at: "at_option a st" using o opt len by (simp add: at_option_def)
  have r': "regions (?st\<lparr>place := p\<rparr>) ?n A N O'" for p
    using r b regionsD(1) [OF r] unfolding regions_upd by (auto simp: regions_def split: if_splits)
  have inv: "base_inv a flags (?st\<lparr>place := p\<rparr>)" for p
  proof -
    have "at_arg a flags (?st\<lparr>place := p\<rparr>) A N O'"
      using r' [of p] at fl by (simp add: at_arg_def flags_ok_def at_option_def)
    then show ?thesis unfolding base_inv_at_arg by blast
  qed
  have nul: "NUL \<notin> set (strs a ! fst ?p)"
    using plain_args_NUL [OF pl] regions_ids [OF r, of "nat (optind st)"] o b by (simp add: nat_less_iff)
  have scan: "scan_args a (int ?n) flags st =
      (if deref a (Some ?p) 1 \<noteq> NUL then
         if deref a (Some ?p) 1 = CHR ''-'' \<and> deref a (Some ?p) 2 = NUL
         then map_option (\<lambda>(s, v). Return s v) (end_of_options (?st\<lparr>place := advance (Some ?p) 1\<rparr>))
         else Some (Go (?st\<lparr>place := advance (Some ?p) 1\<rparr>))
       else Some (Go (?st\<lparr>place := Some ?p\<rparr>)))"
    using b o len opt by (simp add: scan_option_eq Let_def)
  have closed: "nonopt_start st \<noteq> -1 \<Longrightarrow> ?ne \<noteq> -1" using b by auto
  have at': "at_option a (?st\<lparr>place := q\<rparr>)" for q using at by (simp add: at_option_def)
  have go: "scan_ok a flags (Go (?st\<lparr>place := q\<rparr>))" if "in_option a (?st\<lparr>place := q\<rparr>)" for q
    using that inv [of q] by (simp add: scan_ok_def)
  consider "deref a (Some ?p) 1 = NUL"
    | "deref a (Some ?p) 1 \<noteq> NUL" "deref a (Some ?p) 1 = CHR ''-'' \<and> deref a (Some ?p) 2 = NUL"
    | "deref a (Some ?p) 1 \<noteq> NUL" "\<not> (deref a (Some ?p) 1 = CHR ''-'' \<and> deref a (Some ?p) 2 = NUL)"
    by blast
  then show ?thesis
  proof cases
    case 1
    then have "in_option a (?st\<lparr>place := Some ?p\<rparr>)"
      using closed by (intro in_option_first(1) [OF _ at' opt _ nul]) simp_all
    with 1 go show ?thesis by (simp add: scan)
  next
    case 2
    let ?st2 = "?st\<lparr>place := advance (Some ?p) 1\<rparr>"
    have "\<exists>st'. end_of_options ?st2 = Some (st', -1) \<and> stable_partition st'"
      using o closed end_of_options_regions [OF r', of "advance (Some ?p) 1"] by auto
    with 2 show ?thesis by (auto simp: scan scan_ok_def)
  next
    case 3
    then have "in_option a (?st\<lparr>place := advance (Some ?p) 1\<rparr>)"
      using closed by (intro in_option_first(2) [OF _ at' opt _ nul]) simp_all
    with 3 go show ?thesis by (auto simp: scan)
  qed
qed

lemma scan_args_ok:
  assumes "plain_args a" "base_inv a flags st"
  shows "\<exists>res. scan_args a (int (length (strs a))) flags st = Some res \<and> scan_ok a flags res"
  using assms(2)
proof (induction "nat (int (length (strs a)) - optind st)" arbitrary: st rule: less_induct)
  case less
  then obtain A N O' where i: "at_arg a flags st A N O'" unfolding base_inv_at_arg by blast
  then have r: "regions st (length (strs a)) A N O'" by (simp add: at_arg_def)
  note b = regions_bounds [OF r] and len = regions_length [OF r]
  show ?case
  proof (cases "optind st = int (length (strs a))")
    case True
    then have "nonopt_end st \<noteq> -1 \<Longrightarrow> O' \<noteq> []" using i len by (auto simp: at_arg_def at_option_def)
    moreover have "regions (st\<lparr>optreset := False\<rparr>) (length (strs a)) A N O'"
      using r by simp
    ultimately show ?thesis
      using finish_regions [of "st\<lparr>optreset := False\<rparr>" "length (strs a)" A N O'] True
      by (auto simp: scan_args.simps [of a _ _ st] scan_ok_def)
  next
    case False
    with b have o: "optind st < int (length (strs a))" by simp
    have hyp: "base_inv a flags st' \<Longrightarrow> optind st' = optind st + 1 \<Longrightarrow>
        \<exists>res. scan_args a (int (length (strs a))) flags st' = Some res \<and> scan_ok a flags res" for st'
      using o by (intro less.hyps) simp_all
    show ?thesis
      using scan_nonoption [OF i o] scan_option [OF assms(1) i o] hyp by metis
  qed
qed

end
