(* ===== verification/Getopt_Correct.thy ===== *)
theory Getopt_Correct
  imports Getopt_Inv
begin

text \<open>
  Correctness of whole calls of \<open>getopt_internal\<close>: each call is defined, keeps the
  invariant of \<open>Getopt_Inv\<close>, moves forward in the vector, and the call that returns
  \<open>-1\<close> leaves the stable partition.
\<close>

section \<open>Long options\<close>

lemma match_long_range:
  "match_long cur len short opts i m = Match k \<Longrightarrow> 0 \<le> i \<Longrightarrow> k = m \<or> i \<le> k \<and> k < i + int (length opts)"
  by (induction opts arbitrary: i m) (fastforce split: if_splits)+

lemma argv_at_cases:
  assumes "0 \<le> i" "i \<le> int (length (nargv st))"
  shows "\<exists>q. argv_at st i = Some q \<and> (q \<noteq> None \<longrightarrow> i < int (length (nargv st)))"
  using assms by (auto simp: argv_at_def)

lemma warnx_fields [simp]:
  "nargv (warnx a w st) = nargv st" "optind (warnx a w st) = optind st"
  "nonopt_start (warnx a w st) = nonopt_start st" "nonopt_end (warnx a w st) = nonopt_end st"
  "place (warnx a w st) = place st" "optreset (warnx a w st) = optreset st"
  "posixly_correct (warnx a w st) = posixly_correct st"
  by (simp_all add: warnx_def)

lemma set_optopt_fields [simp]:
  "nargv (set_optopt opt st) = nargv st" "optind (set_optopt opt st) = optind st"
  "nonopt_start (set_optopt opt st) = nonopt_start st" "nonopt_end (set_optopt opt st) = nonopt_end st"
  "place (set_optopt opt st) = place st" "optreset (set_optopt opt st) = optreset st"
  "posixly_correct (set_optopt opt st) = posixly_correct st"
  by (simp_all add: set_optopt_def)

definition same_but_optind :: "getopt_state \<Rightarrow> getopt_state \<Rightarrow> bool" where
  "same_but_optind st st' \<longleftrightarrow> nargv st' = nargv st \<and> nonopt_start st' = nonopt_start st \<and>
     nonopt_end st' = nonopt_end st \<and> optreset st' = optreset st \<and>
     posixly_correct st' = posixly_correct st"

lemma take_long_arg_ok:
  assumes "0 \<le> optind st" "optind st \<le> int (length (nargv st))"
  shows "\<exists>st'. take_long_arg a opt eq st = Some st' \<and> same_but_optind st st' \<and>
    optind st \<le> optind st' \<and>
    (if has_arg opt = required_argument \<and> optarg st' = None
     then optind st' \<le> int (length (nargv st)) + 1 \<and> optind st' = optind st + 1
     else optind st' \<le> int (length (nargv st)))"
proof (cases "has_arg opt = required_argument \<and> eq = None")
  case True
  obtain q where "argv_at st (optind st) = Some q" "q \<noteq> None \<longrightarrow> optind st < int (length (nargv st))"
    using argv_at_cases [OF assms] by blast
  with True assms show ?thesis by (auto simp: take_long_arg_def same_but_optind_def)
next
  case False
  with assms show ?thesis by (auto simp: take_long_arg_def same_but_optind_def)
qed

lemma long_found_ok:
  assumes "val opt \<noteq> -1" "0 \<le> optind st" "optind st < int (length (nargv st))"
  shows "\<exists>st' r. long_found a cur len eq m opt (st\<lparr>optind := optind st + 1\<rparr>) = Some (st', r) \<and>
    r \<noteq> -1 \<and> moved st st' \<and> same_but_optind st st'"
proof -
  let ?st = "st\<lparr>optind := optind st + 1\<rparr>"
  obtain st1 where t: "take_long_arg a opt eq ?st = Some st1" "same_but_optind ?st st1"
    "optind ?st \<le> optind st1"
    "if has_arg opt = required_argument \<and> optarg st1 = None
     then optind st1 \<le> int (length (nargv ?st)) + 1 \<and> optind st1 = optind ?st + 1
     else optind st1 \<le> int (length (nargv ?st))"
    using take_long_arg_ok [of ?st a opt eq, THEN exE] assms by auto
  consider "has_arg opt = no_argument \<and> eq \<noteq> None"
    | "\<not> (has_arg opt = no_argument \<and> eq \<noteq> None)" "has_arg opt = required_argument \<and> optarg st1 = None"
    | "\<not> (has_arg opt = no_argument \<and> eq \<noteq> None)" "\<not> (has_arg opt = required_argument \<and> optarg st1 = None)"
    by blast
  then show ?thesis
  proof cases
    case 1
    with assms show ?thesis
      by (simp add: long_found_def moved_def same_but_optind_def int_of_char_def)
  next
    case 2
    with t assms show ?thesis
      by (auto simp: long_found_def moved_def same_but_optind_def Let_def int_of_char_def)
  next
    case 3
    with t assms show ?thesis
      by (auto simp: long_found_def moved_def same_but_optind_def Let_def split: option.splits)
  qed
qed

lemma parse_long_ok:
  assumes "\<And>opt. opt \<in> set opts \<Longrightarrow> val opt \<noteq> -1" "0 \<le> optind st" "optind st < int (length (nargv st))"
  shows "\<exists>st' r. parse_long_options a opts short_too st = Some (st', r) \<and>
    (if r = -1 then short_too \<and> st' = st else moved st st' \<and> same_but_optind st st')"
proof -
  let ?cur = "str_at a (place st)" and ?eq = "strchr (str_at a (place st)) (CHR ''='')"
  let ?len = "case ?eq of Some k \<Rightarrow> k | None \<Rightarrow> length ?cur"
  show ?thesis
  proof (cases "match_long ?cur ?len short_too opts 0 (-1)")
    case Ambiguous
    with assms show ?thesis
      by (simp add: parse_long_options_def Let_def moved_def same_but_optind_def int_of_char_def)
  next
    case (Match m)
    show ?thesis
    proof (cases "m = -1")
      case True
      with Match assms show ?thesis
        by (simp add: parse_long_options_def Let_def moved_def same_but_optind_def int_of_char_def)
    next
      case False
      with Match match_long_range [OF Match] have "0 \<le> m" "m < int (length opts)" by auto
      then have "val (opts ! nat m) \<noteq> -1" using assms(1) by (simp add: nat_less_iff)
      with Match False assms long_found_ok [of "opts ! nat m" st] show ?thesis
        by (fastforce simp: parse_long_options_def Let_def)
    qed
  qed
qed

section \<open>The state after an option has been found\<close>

text \<open>
  A call ends in \<open>call_end\<close>: either it moved to a later element and left the argument it
  was in, or it stays in the argument, one letter further on.
\<close>

definition call_end :: "getopt_args \<Rightarrow> getopt_state \<Rightarrow> getopt_state \<Rightarrow> bool" where
  "call_end a st st' \<longleftrightarrow> same_but_optind st st' \<and>
     (moved st st' \<and> deref a (place st') 0 = NUL \<or>
      optind st' = optind st \<and> place st' = advance (place st) 1 \<and> deref a (place st') 0 \<noteq> NUL)"

lemma in_option_bounds:
  assumes "base_inv a flags st" "in_option a st"
  shows "0 \<le> optind st" "optind st < int (length (nargv st))" "length (nargv st) = length (strs a)"
    "nargv st ! nat (optind st) = nat (optind st)"
proof -
  obtain A N O' where r: "regions st (length (strs a)) A N O'"
    using assms(1) unfolding base_inv_at_arg at_arg_def by blast
  show "0 \<le> optind st" "length (nargv st) = length (strs a)"
    using regions_bounds [OF r] regions_length [OF r] by auto
  show o: "optind st < int (length (nargv st))"
    using assms(2) by (simp add: in_option_def at_option_def)
  have v: "nargv st = (A @ N @ O') @ [nat (optind st)..<length (strs a)]"
    using r by (simp add: regions_def)
  have "nat (optind st) = length (A @ N @ O')" using regionsD(1) [OF r] by simp
  then have "nargv st ! nat (optind st) = [nat (optind st)..<length (strs a)] ! 0"
    unfolding v by (simp add: nth_append)
  then show "nargv st ! nat (optind st) = nat (optind st)"
    using o regions_length [OF r] regions_bounds [OF r] by (simp add: nat_less_iff)
qed

lemma in_option_closed: "in_option a st \<Longrightarrow> nonopt_start st \<noteq> -1 \<Longrightarrow> nonopt_end st \<noteq> -1"
  by (simp add: in_option_def)

lemma try_long_ok:
  assumes pl: "plain_args a" and i: "base_inv a flags st" "in_option a st"
  shows "\<exists>res. try_long a fl st = Some res \<and>
    (case res of Inl (st', r) \<Rightarrow> r \<noteq> -1 \<and> call_end a st st' | Inr st' \<Rightarrow> st' = st)"
proof (cases "long_options a")
  case None
  then show ?thesis by (simp add: try_long_def)
next
  case (Some opts)
  note b = in_option_bounds [OF i]
  have v: "\<And>opt. opt \<in> set opts \<Longrightarrow> val opt \<noteq> -1"
    using pl Some by (simp add: plain_args_def)
  obtain q where q: "argv_at st (optind st) = Some q" using b by (simp add: argv_at_def)
  let ?dash = "deref a (place st) 0 = CHR ''-''"
  let ?st = "if ?dash then st\<lparr>place := advance (place st) 1\<rparr> else st"
  let ?short = "\<not> ?dash \<and> deref a (place st) 0 \<noteq> CHR '':'' \<and> strchr (options a) (deref a (place st) 0) \<noteq> None"
  obtain st' r where p: "parse_long_options a opts ?short ?st = Some (st', r)"
    "if r = -1 then ?short \<and> st' = ?st else moved ?st st' \<and> same_but_optind ?st st'"
  proof -
    have "0 \<le> optind ?st" "optind ?st < int (length (nargv ?st))" using b by simp_all
    then show ?thesis using parse_long_ok [of opts ?st a ?short] v that by blast
  qed
  then have "r \<noteq> -1 \<Longrightarrow> call_end a st (st'\<lparr>place := EMSG\<rparr>)"
    by (auto simp: call_end_def moved_def same_but_optind_def deref_def str_at_def split: if_splits)
  with p q show ?thesis
    by (auto simp: try_long_def Some Let_def split: if_splits)
qed

section \<open>Option letters\<close>

lemma deref_EMSG [simp]: "deref a None k = NUL"
  by (simp add: deref_def str_at_def)

lemma int_of_char_minus1:
  assumes "int_of_char c = -1"
  shows "c = CHR 0xFF"
proof -
  have "(of_char c :: int) = 255"
    using assms of_char_int_bounds [of c] by (simp add: int_of_char_def split: if_splits)
  then have "int (of_char c) = int 255" by (simp only: of_nat_of_char)
  then have "(of_char c :: nat) = of_char (CHR 0xFF)" by simp
  then show ?thesis by (simp only: of_char_eq_iff)
qed

lemma short_found_ok:
  assumes b: "0 \<le> optind st" "optind st < int (length (nargv st))"
    and c: "int_of_char c \<noteq> -1" and pl: "place st = advance (place st0) 1"
    and same: "same_but_optind st0 st" "optind st0 = optind st"
  shows "\<exists>st' r. short_found a (int (length (nargv st))) c oli st = Some (st', r) \<and> r \<noteq> -1 \<and>
    call_end a st0 st'"
proof (cases "cchar (options a) (oli + 1) = CHR '':''")
  case False
  with assms show ?thesis
    by (auto simp: short_found_def call_end_def moved_def same_but_optind_def)
next
  case True
  have "optind st + 1 < int (length (nargv st)) \<Longrightarrow>
      \<exists>p. argv_at (st\<lparr>optarg := None, optind := optind st + 1\<rparr>) (optind st + 1) = Some p"
    using b by (simp add: argv_at_def)
  with True assms show ?thesis
    by (auto simp: short_found_def call_end_def moved_def same_but_optind_def Let_def int_of_char_def)
qed

lemma long_by_W_ok:
  assumes b: "0 \<le> optind st" "optind st < int (length (nargv st))"
    and v: "\<And>opt. opt \<in> set opts \<Longrightarrow> val opt \<noteq> -1"
    and same: "same_but_optind st0 st" "optind st0 = optind st"
  shows "\<exists>st' r. long_by_W a (int (length (nargv st))) opts c st = Some (st', r) \<and> r \<noteq> -1 \<and>
    call_end a st0 st'"
proof (cases "deref a (place st) 0 = NUL \<and> optind st + 1 \<ge> int (length (nargv st))")
  case True
  with assms show ?thesis
    by (simp add: long_by_W_def Let_def call_end_def moved_def same_but_optind_def int_of_char_def)
next
  case False
  show ?thesis
  proof (cases "deref a (place st) 0 = NUL")
    case True
    with False have o: "optind st + 1 < int (length (nargv st))" by simp
    let ?st = "st\<lparr>optind := optind st + 1, place := Some (nargv st ! nat (optind st + 1), 0)\<rparr>"
    obtain st' r where "parse_long_options a opts False ?st = Some (st', r)" "r \<noteq> -1"
      "moved ?st st'" "same_but_optind ?st st'"
      using parse_long_ok [of opts ?st a False, OF v] b o by (auto split: if_splits)
    with True o b same show ?thesis
      by (auto simp: long_by_W_def Let_def argv_at_def call_end_def moved_def same_but_optind_def)
  next
    case False
    obtain st' r where "parse_long_options a opts False st = Some (st', r)" "r \<noteq> -1"
      "moved st st'" "same_but_optind st st'"
      using parse_long_ok [of opts st a False, OF v] b by (auto split: if_splits)
    with False b same show ?thesis
      by (auto simp: long_by_W_def call_end_def moved_def same_but_optind_def)
  qed
qed

text \<open>
  The letter at \<open>place\<close> cannot be a dash that ends the argument: \<open>-\<close> alone is an option
  only when the option string lists it, \<open>--\<close> has been dealt with, and \<open>plain_args\<close>
  excludes a longer argument that ends with a dash.
\<close>

lemma no_final_dash:
  assumes pl: "plain_args a" and i: "base_inv a flags st" "in_option a st"
    and dash: "deref a (place st) 0 = CHR ''-''" and last: "deref a (place st) 1 = NUL"
  shows "strchr (options a) (CHR ''-'') \<noteq> None"
proof -
  let ?s = "strs a ! (nargv st ! nat (optind st))"
  note b = in_option_bounds [OF i]
  have mem: "?s \<in> set (strs a)" using b by simp
  obtain k where k: "place st = Some (nargv st ! nat (optind st), k)"
    "if k = 0 then ?s = ''-'' else ?s \<noteq> ''--''" and at: "at_option a st"
    using i(2) by (auto simp: in_option_def)
  have c0: "cchar (drop k ?s) 0 = CHR ''-''" and c1: "cchar (drop k ?s) 1 = NUL"
    using dash last k by (simp_all add: deref_def str_at_def)
  have "k < length ?s" using cchar_neq_NUL [of "drop k ?s" 0] c0 by simp
  moreover have "\<not> k + 1 < length ?s"
  proof
    assume *: "k + 1 < length ?s"
    then have "?s ! (k + 1) = NUL" using c1 by (simp add: cchar_def less_diff_conv)
    then have "NUL \<in> set ?s" using nth_mem [OF *] by metis
    with pl mem show False by (auto simp: plain_args_def)
  qed
  ultimately have k1: "length ?s = k + 1" by simp
  then have "?s \<noteq> []" by auto
  with k1 have "last ?s = CHR ''-''" using c0 by (simp add: last_conv_nth cchar_def)
  moreover have s0: "?s ! 0 = CHR ''-''"
    using at k1 by (auto simp: at_option_def is_nonoption_def deref_def str_at_def cchar_def split: if_splits)
  ultimately have "k = 0"
    using pl mem k(2) k1 by (cases ?s; cases "tl ?s"; cases "tl (tl ?s)") (auto simp: plain_args_def split: if_splits)
  with at k1 show ?thesis
    by (auto simp: at_option_def is_nonoption_def deref_def str_at_def)
qed

lemma short_option_ok:
  assumes pl: "plain_args a" and i: "base_inv a flags st" "in_option a st"
  shows "\<exists>st' r. short_option a (int (length (strs a))) st = Some (st', r) \<and> r \<noteq> -1 \<and> call_end a st st'"
proof -
  let ?c = "deref a (place st) 0" and ?st = "st\<lparr>place := advance (place st) 1\<rparr>"
  note b = in_option_bounds [OF i]
  have b': "0 \<le> optind ?st" "optind ?st < int (length (nargv ?st))" "length (strs a) = length (nargv ?st)"
    using b by simp_all
  have same: "same_but_optind st ?st" "optind st = optind ?st" "place ?st = advance (place st) 1"
    by (simp_all add: same_but_optind_def)
  obtain k where k: "place st = Some (nargv st ! nat (optind st), k)" "?c \<noteq> NUL"
    using i(2) by (auto simp: in_option_def)
  then have "k < length (strs a ! (nargv st ! nat (optind st)))"
    using cchar_neq_NUL [of "drop k (strs a ! (nargv st ! nat (optind st)))" 0]
    by (simp add: deref_def str_at_def)
  then have "?c \<in> set (strs a ! (nargv st ! nat (optind st)))"
    using k by (simp add: deref_def str_at_def)
  then have c: "int_of_char ?c \<noteq> -1"
    using pl b by (auto simp: plain_args_def dest!: int_of_char_minus1)
  have dash: "\<not> (strchr (options a) ?c = None \<and> ?c = CHR ''-'' \<and> deref a (place ?st) 0 = NUL)"
    using no_final_dash [OF pl i] by (auto simp: deref_advance)
  have v: "\<And>opts opt. long_options a = Some opts \<Longrightarrow> opt \<in> set opts \<Longrightarrow> val opt \<noteq> -1"
    using pl by (simp add: plain_args_def)
  show ?thesis
  proof (cases "?c = CHR '':'' \<or> (?c = CHR ''-'' \<and> deref a (place ?st) 0 \<noteq> NUL) \<or> strchr (options a) ?c = None")
    case True
    with dash b show ?thesis
      by (auto simp: short_option_def Let_def call_end_def moved_def same_but_optind_def int_of_char_def)
  next
    case False
    show ?thesis
      using short_found_ok [OF b'(1,2) c same(3,1,2)] long_by_W_ok [OF b'(1,2) v same(1,2)] False
      unfolding short_option_def b'(3) Let_def by (auto split: option.splits)
  qed
qed

section \<open>Whole calls\<close>

text \<open>What the search leaves alone, and that it never moves keep.\<close>

lemma finish_args_frame:
  "finish_args st = Some (st', r) \<Longrightarrow> r = -1"
  by (auto simp: finish_args_def Let_def bind_eq_Some_conv split: if_splits)

lemma end_of_options_frame:
  "end_of_options st = Some (st', r) \<Longrightarrow> r = -1"
  by (auto simp: end_of_options_def Let_def bind_eq_Some_conv split: if_splits)

lemma skip_nonopt_frame:
  "skip_nonopt st = Some st' \<Longrightarrow> posixly_correct st' = posixly_correct st \<and> optreset st' = optreset st"
  by (auto simp: skip_nonopt_def bind_eq_Some_conv split: if_splits)

definition scan_frame :: "getopt_state \<Rightarrow> scan_result \<Rightarrow> bool" where
  "scan_frame st res \<longleftrightarrow> (case res of
      Go st' \<Rightarrow> optind st \<le> optind st' \<and> posixly_correct st' = posixly_correct st \<and> \<not> optreset st'
    | Return st' v \<Rightarrow> v \<noteq> -1 \<longrightarrow> optind st < optind st' \<and> posixly_correct st' = posixly_correct st \<and>
        \<not> optreset st' \<and> place st' = EMSG)"

lemma scan_args_frame: "scan_args a n fl st = Some res \<Longrightarrow> scan_frame st res"
proof (induction a n fl st arbitrary: res rule: scan_args.induct)
  case (1 a n fl st)
  let ?st = "st\<lparr>optreset := False\<rparr>"
  show ?case
  proof (cases "optind st \<ge> n")
    case True
    with "1.prems" show ?thesis
      by (subst (asm) scan_args.simps) (auto simp: scan_frame_def dest: finish_args_frame)
  next
    case False
    with "1.prems" obtain p where p: "argv_str ?st (optind st) = Some p"
      by (subst (asm) scan_args.simps) (auto simp: Let_def bind_eq_Some_conv)
    show ?thesis
    proof (cases "is_nonoption a (Some p) \<and> fl AND FLAG_ALLARGS = 0 \<and> fl AND FLAG_PERMUTE \<noteq> 0")
      case True
      with "1.prems" False p obtain st2 where s: "skip_nonopt (?st\<lparr>place := EMSG\<rparr>) = Some st2"
        "scan_args a n fl st2 = Some res"
        by (subst (asm) scan_args.simps) (auto simp: Let_def bind_eq_Some_conv)
      have "scan_frame st2 res"
        using "1.IH" [of ?st p "?st\<lparr>place := EMSG\<rparr>" st2] True False p s by simp
      with s(1) show ?thesis
        using skip_nonopt_frame [OF s(1)] skip_nonopt_optind [OF s(1)]
        by (auto simp: scan_frame_def split: scan_result.splits)
    next
      case no_skip: False
      with "1.prems" False p show ?thesis
        by (subst (asm) scan_args.simps)
          (auto simp: scan_frame_def Let_def dest: end_of_options_frame split: if_splits)
    qed
  qed
qed

text \<open>How much of the vector is left: the characters of the arguments from \<open>optind\<close> on.\<close>

definition offset :: "getopt_args \<Rightarrow> cptr option \<Rightarrow> nat" where
  "offset a p = (case p of Some (s, k) \<Rightarrow> if deref a p 0 = NUL then 0 else k | None \<Rightarrow> 0)"

definition todo :: "getopt_args \<Rightarrow> getopt_state \<Rightarrow> nat" where
  "todo a st = (\<Sum>i = nat (optind st)..<length (strs a). length (strs a ! i) + 1)
     - offset a (place st)"

lemma sum_less_tail:
  fixes i j n :: nat
  assumes "i < j" "j \<le> n"
  shows "(\<Sum>k = j..<n. f k) + f i \<le> (\<Sum>k = i..<n. (f k :: nat))"
proof -
  have "(\<Sum>k = j..<n. f k) \<le> (\<Sum>k = Suc i..<n. f k)"
    using assms by (intro sum_mono2) auto
  then show ?thesis using assms by (simp add: sum.atLeast_Suc_lessThan)
qed

lemma in_option_todo:
  assumes i: "base_inv a flags st" "in_option a st"
  obtains k where "place st = Some (nat (optind st), k)" "k < length (strs a ! nat (optind st))"
    "todo a st = (\<Sum>i = nat (optind st)..<length (strs a). length (strs a ! i) + 1) - k"
proof -
  note b = in_option_bounds [OF i]
  obtain k where k: "place st = Some (nat (optind st), k)" "deref a (place st) 0 \<noteq> NUL"
    using i(2) b by (auto simp: in_option_def)
  then have "k < length (strs a ! nat (optind st))"
    using cchar_neq_NUL [of "drop k (strs a ! nat (optind st))" 0] by (simp add: deref_def str_at_def)
  with k that show ?thesis by (simp add: todo_def offset_def)
qed

lemma todo_scan:
  assumes "base_inv a flags st" "in_option a st" "0 \<le> o0" "o0 \<le> optind st"
  shows "todo a st \<le> (\<Sum>i = nat o0..<length (strs a). length (strs a ! i) + 1)"
proof -
  have "todo a st \<le> (\<Sum>i = nat (optind st)..<length (strs a). length (strs a ! i) + 1)"
    by (simp add: todo_def)
  also have "\<dots> \<le> (\<Sum>i = nat o0..<length (strs a). length (strs a ! i) + 1)"
    using assms(3,4) by (intro sum_mono2) auto
  finally show ?thesis .
qed

lemma call_end_todo:
  assumes i: "base_inv a flags st" "in_option a st" and e: "call_end a st st'"
  shows "todo a st' < todo a st"
proof -
  let ?W = "\<lambda>j. \<Sum>i = j..<length (strs a). length (strs a ! i) + 1" and ?o = "nat (optind st)"
  note b = in_option_bounds [OF i]
  obtain k where k: "place st = Some (?o, k)" "k < length (strs a ! ?o)" "todo a st = ?W ?o - k"
    by (rule in_option_todo [OF i])
  have W: "length (strs a ! ?o) + 1 \<le> ?W ?o"
    using b by (subst sum.atLeast_Suc_lessThan) (auto simp: nat_less_iff)
  from e consider "moved st st'" | "optind st' = optind st" "place st' = advance (place st) 1"
    "deref a (place st') 0 \<noteq> NUL" by (auto simp: call_end_def)
  then show ?thesis
  proof cases
    case 1
    then have "?o < nat (optind st')" "nat (optind st') \<le> length (strs a)"
      using b by (auto simp: moved_def)
    then have "?W (nat (optind st')) + (length (strs a ! ?o) + 1) \<le> ?W ?o"
      by (rule sum_less_tail)
    moreover have "todo a st' \<le> ?W (nat (optind st'))" by (simp add: todo_def)
    ultimately show ?thesis using k by linarith
  next
    case 2
    then have "todo a st' = ?W ?o - (k + 1)" using k(1) by (simp add: todo_def offset_def advance_def)
    with k W show ?thesis by linarith
  qed
qed

lemma call_end_inv:
  assumes i: "base_inv a flags st" "in_option a st" and e: "call_end a st st'"
  shows "getopt_inv a flags st'"
proof -
  from e consider "moved st st'" "deref a (place st') 0 = NUL"
    | "same_but_optind st st'" "optind st' = optind st" "place st' = advance (place st) 1"
      "deref a (place st') 0 \<noteq> NUL" by (auto simp: call_end_def)
  then show ?thesis
  proof cases
    case 1
    then show ?thesis
      using moved_base [OF i(1) in_option_closed [OF i(2)]] by (simp add: getopt_inv_def)
  next
    case 2
    obtain A N O' where "at_arg a flags st A N O'" using i(1) unfolding base_inv_at_arg by blast
    then have "at_arg a flags st' A N O'"
      using 2 regions_cong [of st' st] unfolding at_arg_def flags_ok_def at_option_def same_but_optind_def
      by auto
    then have "base_inv a flags st'" unfolding base_inv_at_arg by blast
    moreover obtain k where k: "place st = Some (nargv st ! nat (optind st), k)"
      "if k = 0 then strs a ! (nargv st ! nat (optind st)) = ''-'' else strs a ! (nargv st ! nat (optind st)) \<noteq> ''--''"
      using i(2) by (auto simp: in_option_def)
    have "deref a (place st) 1 \<noteq> NUL" using 2(3,4) by (simp add: deref_advance)
    then have "k \<noteq> 0" using k by (cases "k = 0") (auto simp: deref_def str_at_def)
    then have "in_option a st'"
      using 2 k i(2) by (intro in_optionI [where i = "k + 1"])
        (auto simp: in_option_def at_option_def same_but_optind_def advance_def)
    ultimately show ?thesis by (simp add: getopt_inv_def)
  qed
qed

text \<open>
  The invariant between the calls of one parse, over the flags and the option string that
  \<open>getopt_internal\<close> works with once it has looked at \<open>POSIXLY_CORRECT\<close> and the first
  character of the option string.
\<close>

definition eff_flags :: "getopt_args \<Rightarrow> 32 word \<Rightarrow> getopt_state \<Rightarrow> 32 word" where
  "eff_flags a flags st = call_flags a (note_posix a st) flags"

definition parse_inv :: "getopt_args \<Rightarrow> 32 word \<Rightarrow> getopt_state \<Rightarrow> bool" where
  "parse_inv a flags st \<longleftrightarrow> \<not> optreset st \<and>
     getopt_inv (call_args a) (eff_flags a flags st) (note_posix a st)"

lemma call_args_fields [simp]:
  "strs (call_args a) = strs a" "long_options (call_args a) = long_options a"
  "options_null (call_args a) = options_null a"
  by (simp_all add: call_args_def)

lemma plain_call_args: "plain_args a \<Longrightarrow> plain_args (call_args a)"
  by (simp add: plain_args_def)

lemma note_posix_fields [simp]:
  "optreset (note_posix a st) = optreset st" "place (note_posix a st) = place st"
  "optind (note_posix a st) = optind st" "nargv (note_posix a st) = nargv st"
  "posixly_correct (note_posix a st) \<noteq> -1"
  by (simp_all add: note_posix_def)

lemma note_posix_idem: "posixly_correct st \<noteq> -1 \<Longrightarrow> note_posix a st = st"
  by (simp add: note_posix_def)

lemma base_inv_optarg: "base_inv a fl (st\<lparr>optarg := x\<rparr>) = base_inv a fl st"
  by (simp add: base_inv_def flags_ok_def at_option_def)

lemma in_option_optarg: "in_option a (st\<lparr>optarg := x\<rparr>) = in_option a st"
  by (simp add: in_option_def at_option_def)

lemma base_inv_optind: "base_inv a fl st \<Longrightarrow> 1 \<le> optind st"
  unfolding base_inv_at_arg at_arg_def using regions_bounds by blast

lemma parse_option_end:
  assumes pl: "plain_args a" and i: "base_inv a fl st" "in_option a st"
  shows "\<exists>st' v. parse_option a (int (length (strs a))) fl' st = Some (st', v) \<and> v \<noteq> -1 \<and> call_end a st st'"
  using try_long_ok [OF pl i, of fl'] short_option_ok [OF pl i]
  by (fastforce simp: parse_option_def split: sum.splits)

lemma option_part_ok:
  assumes pl: "plain_args a" and i: "base_inv a fl st" "in_option a st" and r: "\<not> optreset st"
  shows "\<exists>st' v. parse_option a (int (length (strs a))) fl' st = Some (st', v) \<and>
     v \<noteq> -1 \<and> getopt_inv a fl st' \<and> todo a st' < todo a st \<and> \<not> optreset st' \<and>
     posixly_correct st' = posixly_correct st"
proof -
  have *: "getopt_inv a fl st' \<and> todo a st' < todo a st \<and> \<not> optreset st' \<and> posixly_correct st' = posixly_correct st"
    if "call_end a st st'" for st'
    using call_end_inv [OF i that] call_end_todo [OF i that] that r
    by (simp add: call_end_def same_but_optind_def)
  show ?thesis using parse_option_end [OF pl i, of fl'] * by blast
qed

text \<open>Between two calls the effective flags stay the same, so a state that fits them is good for the next call.\<close>

lemma parse_inv_kept:
  assumes "getopt_inv (call_args a) (eff_flags a flags st) st'" "\<not> optreset st'"
    and "posixly_correct st' = posixly_correct (note_posix a st)"
  shows "parse_inv a flags st'"
proof -
  have "posixly_correct st' \<noteq> -1" using assms(3) by simp
  then have "eff_flags a flags st' = eff_flags a flags st"
    using assms(3) by (simp add: eff_flags_def call_flags_def note_posix_idem)
  with assms \<open>posixly_correct st' \<noteq> -1\<close> show ?thesis by (simp add: parse_inv_def note_posix_idem)
qed

text \<open>The work left, at the start of an element, and that moving to a later one reduces it.\<close>

lemma todo_start:
  "deref a (place st) 0 = NUL \<Longrightarrow> todo a st = (\<Sum>i = nat (optind st)..<length (strs a). length (strs a ! i) + 1)"
  by (auto simp: todo_def offset_def split: option.splits)

lemma todo_moved:
  assumes "base_inv a fl st" "getopt_inv a fl' st1" "deref a (place st) 0 = NUL"
    and "optind st < optind st1" "place st1 = EMSG"
  shows "todo a st1 < todo a st"
proof -
  let ?W = "\<lambda>o0. \<Sum>i = nat o0..<length (strs a). length (strs a ! i) + 1"
  have "optind st1 \<le> int (length (strs a))"
    using assms(2) regions_bounds unfolding getopt_inv_def base_inv_at_arg at_arg_def by fastforce
  then have "?W (optind st1) + (length (strs a ! nat (optind st)) + 1) \<le> ?W (optind st)"
    using assms(4) base_inv_optind [OF assms(1)] by (intro sum_less_tail) auto
  then show ?thesis using assms(5) todo_start [OF assms(3)] by (simp add: todo_def offset_def)
qed

text \<open>A call within a parse, without the preparations that only the first one makes.\<close>

lemma getopt_internal_call:
  assumes "plain_args a" "parse_inv a flags st"
  shows "getopt_internal a (int (length (strs a))) flags st =
    (let a' = call_args a; n = int (length (strs a)); fl = eff_flags a flags st;
         st0 = (note_posix a st)\<lparr>optarg := None\<rparr> in do {
       r \<leftarrow> (if deref a' (place st0) 0 = NUL then scan_args a' n fl st0 else Some (Go st0));
       (case r of Return st1 v \<Rightarrow> Some (st1, v) | Go st1 \<Rightarrow> parse_option a' n fl st1) })"
proof -
  let ?a = "call_args a" and ?st = "(note_posix a st)\<lparr>optarg := None\<rparr>"
  have b: "base_inv ?a (eff_flags a flags st) ?st" and r: "\<not> optreset ?st"
    using assms(2) by (simp_all add: parse_inv_def getopt_inv_def base_inv_optarg)
  then have "call_state ?a (note_posix a st) = ?st"
    using base_inv_optind [OF b] by (simp add: call_state_def)
  then show ?thesis
    using assms(1) r unfolding eff_flags_def by (simp add: getopt_internal_def Let_def plain_args_def)
qed

lemma getopt_internal_posix:
  assumes pl: "plain_args a" and inv: "parse_inv a flags st"
  shows "\<exists>st' r. getopt_internal a (int (length (strs a))) flags st = Some (st', r) \<and>
    (if r = -1 then stable_partition st'
     else parse_inv a flags st' \<and> posixly_correct st' = posixly_correct (note_posix a st) \<and>
       todo (call_args a) st' < todo (call_args a) st)"
proof -
  let ?a = "call_args a" and ?fl = "eff_flags a flags st" and ?st = "(note_posix a st)\<lparr>optarg := None\<rparr>"
  let ?n = "int (length (strs a))"
  have pl': "plain_args ?a" using pl by (rule plain_call_args)
  have b: "base_inv ?a ?fl ?st" and p: "deref ?a (place ?st) 0 = NUL \<or> in_option ?a ?st"
    and r: "\<not> optreset ?st"
    using inv by (simp_all add: parse_inv_def getopt_inv_def base_inv_optarg in_option_optarg)
  have call: "getopt_internal a ?n flags st =
      (do { r \<leftarrow> (if deref ?a (place ?st) 0 = NUL then scan_args ?a ?n ?fl ?st else Some (Go ?st));
        (case r of Return st1 v \<Rightarrow> Some (st1, v) | Go st1 \<Rightarrow> parse_option ?a ?n ?fl st1) })"
    using getopt_internal_call [OF pl inv] by (simp only: Let_def)
  have td: "todo ?a ?st = todo ?a st" by (simp add: todo_def note_posix_def)
  have keep: "parse_inv a flags st'" if "getopt_inv ?a ?fl st'" "\<not> optreset st'"
    "posixly_correct st' = posixly_correct ?st" for st'
    using parse_inv_kept [OF that(1,2)] that(3) by simp
  show ?thesis
  proof (cases "deref ?a (place ?st) 0 = NUL")
    case False
    then have "in_option ?a ?st" using p by blast
    then obtain st' v where o: "parse_option ?a ?n ?fl ?st = Some (st', v)" "v \<noteq> -1"
      "getopt_inv ?a ?fl st'" "todo ?a st' < todo ?a ?st" "\<not> optreset st'"
      "posixly_correct st' = posixly_correct ?st"
      using option_part_ok [OF pl' b _ r, of ?fl] by auto
    with False keep [OF o(3,5,6)] show ?thesis by (simp add: call td)
  next
    case True
    obtain res where s: "scan_args ?a ?n ?fl ?st = Some res" "scan_ok ?a ?fl res"
      using scan_args_ok [OF pl' b] by auto
    have fr: "scan_frame ?st res" by (rule scan_args_frame [OF s(1)])
    have t0: "todo ?a st = (\<Sum>i = nat (optind ?st)..<length (strs a). length (strs a ! i) + 1)"
      using todo_start [OF True] td by simp
    show ?thesis
    proof (cases res)
      case (Return st1 v)
      show ?thesis
      proof (cases "v = -1")
        case True
        with Return s \<open>deref ?a (place ?st) 0 = NUL\<close> show ?thesis by (simp add: call scan_ok_def)
      next
        case False
        then have g: "getopt_inv ?a ?fl st1" "\<not> optreset st1" "posixly_correct st1 = posixly_correct ?st"
          "optind ?st < optind st1" "place st1 = EMSG"
          using Return s(2) fr by (simp_all add: scan_ok_def scan_frame_def)
        have "todo ?a st1 < todo ?a st" using todo_moved [OF b g(1) True g(4,5)] td by simp
        with g keep Return s(1) False True show ?thesis by (simp add: call)
      qed
    next
      case (Go st1)
      then have g: "base_inv ?a ?fl st1" "in_option ?a st1" "\<not> optreset st1"
        "posixly_correct st1 = posixly_correct ?st" "optind ?st \<le> optind st1"
        using s(2) fr by (simp_all add: scan_ok_def scan_frame_def)
      have "todo ?a st1 \<le> todo ?a st"
        using todo_scan [OF g(1,2), of "optind ?st"] g(5) base_inv_optind [OF b] t0 by simp
      moreover obtain st' v where o: "parse_option ?a ?n ?fl st1 = Some (st', v)" "v \<noteq> -1"
        "getopt_inv ?a ?fl st'" "todo ?a st' < todo ?a st1" "\<not> optreset st'"
        "posixly_correct st' = posixly_correct ?st"
        using option_part_ok [OF pl' g(1,2,3), of ?fl] g(4) by auto
      ultimately show ?thesis using keep [OF o(3,5,6)] True s(1) Go by (simp add: call)
    qed
  qed
qed

lemma getopt_internal_ok:
  assumes "plain_args a" "parse_inv a flags st"
  shows "\<exists>st' r. getopt_internal a (int (length (strs a))) flags st = Some (st', r) \<and>
    (if r = -1 then stable_partition st'
     else parse_inv a flags st' \<and> todo (call_args a) st' < todo (call_args a) st)"
  using getopt_internal_posix [OF assms] by (auto split: if_splits)

section \<open>The first call\<close>

lemma at_arg_init:
  assumes "1 \<le> length (strs a)"
  shows "at_arg (call_args a) fl (note_posix a (getopt_init (length (strs a)))) [0] [] []"
proof -
  let ?st = "note_posix a (getopt_init (length (strs a)))"
  have "regions ?st (length (strs a)) [0] [] []"
    using regions_init [OF assms] regions_cong [of ?st "getopt_init (length (strs a))"]
    by (simp add: note_posix_def)
  moreover have "nonopt_end ?st = -1" "nonopt_start ?st = -1"
    by (simp_all add: note_posix_def getopt_init_def)
  ultimately show ?thesis by (simp add: at_arg_def flags_ok_def)
qed

lemma parse_inv_init:
  assumes "1 \<le> length (strs a)"
  shows "parse_inv a flags (getopt_init (length (strs a)))"
proof -
  have "base_inv (call_args a) fl (note_posix a (getopt_init (length (strs a))))" for fl
    using at_arg_init [OF assms] unfolding base_inv_at_arg by blast
  then show ?thesis
    by (simp add: parse_inv_def getopt_inv_def getopt_init_def deref_def str_at_def)
qed

section \<open>Which long option an abbreviation selects\<close>

definition exact_match :: "cstring \<Rightarrow> nat \<Rightarrow> long_option \<Rightarrow> bool" where
  "exact_match cur len opt \<longleftrightarrow> name opt = take len cur"

definition partial_match :: "cstring \<Rightarrow> nat \<Rightarrow> bool \<Rightarrow> long_option \<Rightarrow> bool" where
  "partial_match cur len short_too opt \<longleftrightarrow>
     strict_prefix (take len cur) (name opt) \<and> \<not> (short_too \<and> len = 1)"

text \<open>
  The specification: the table is cut at the first entry with exactly the given name; two
  abbreviated names in the part before it are ambiguous, else the exact entry is chosen, else
  the only abbreviated one.
\<close>

definition match_spec :: "cstring \<Rightarrow> nat \<Rightarrow> bool \<Rightarrow> long_option list \<Rightarrow> match_result" where
  "match_spec cur len short_too opts =
     (let before = takeWhile (\<lambda>opt. \<not> exact_match cur len opt) opts;
          partial = filter (\<lambda>i. partial_match cur len short_too (before ! i)) [0..<length before]
      in if 2 \<le> length partial then Ambiguous
         else if length before < length opts then Match (int (length before))
         else (case partial of [] \<Rightarrow> Match (-1) | i # _ \<Rightarrow> Match (int i)))"

lemma strncmp_match:
  assumes "len \<le> length cur"
  shows "exact_match cur len opt \<longleftrightarrow> strncmp_eq cur (name opt) len \<and> length (name opt) = len"
    and "partial_match cur len short opt \<longleftrightarrow>
      strncmp_eq cur (name opt) len \<and> length (name opt) \<noteq> len \<and> \<not> (short \<and> len = 1)"
proof -
  have t: "length (take len cur) = len" using assms by simp
  show "exact_match cur len opt \<longleftrightarrow> strncmp_eq cur (name opt) len \<and> length (name opt) = len"
    using t by (auto simp: exact_match_def strncmp_eq_def)
  show "partial_match cur len short opt \<longleftrightarrow>
      strncmp_eq cur (name opt) len \<and> length (name opt) \<noteq> len \<and> \<not> (short \<and> len = 1)"
    using t by (auto simp: partial_match_def strncmp_eq_def strict_prefix_take)
qed

text \<open>The outcome, given the candidates so far, the index of the cut and the table length.\<close>

definition match_outcome :: "int list \<Rightarrow> int \<Rightarrow> bool \<Rightarrow> match_result" where
  "match_outcome ps i found =
     (if 2 \<le> length ps then Ambiguous else if found then Match i
      else (case ps of [] \<Rightarrow> Match (-1) | p # _ \<Rightarrow> Match p))"

lemma match_long_spec_gen:
  assumes len: "len \<le> length cur"
  shows "0 \<le> i \<Longrightarrow> before = takeWhile (\<lambda>opt. \<not> exact_match cur len opt) opts \<Longrightarrow>
    match_long cur len short opts i m =
      match_outcome ((if m = -1 then [] else [m]) @ map (\<lambda>k. i + int k)
          (filter (\<lambda>k. partial_match cur len short (before ! k)) [0..<length before]))
        (i + int (length before)) (length before < length opts)"
proof (induction opts arbitrary: i m before)
  case Nil
  then show ?case by (simp add: match_outcome_def)
next
  case (Cons opt opts)
  note match = strncmp_match [OF len]
  show ?case
  proof (cases "exact_match cur len opt")
    case True
    then show ?thesis using Cons.prems by (simp add: match match_outcome_def)
  next
    case False
    define bf where "bf = takeWhile (\<lambda>opt. \<not> exact_match cur len opt) opts"
    let ?Q = "filter (\<lambda>k. partial_match cur len short (bf ! k)) [0..<length bf]"
    have bef: "before = opt # bf" using Cons.prems(2) False by (simp add: bf_def)
    have ps: "map (\<lambda>k. i + int k) (filter (\<lambda>k. partial_match cur len short (before ! k)) [0..<length before]) =
        (if partial_match cur len short opt then [i] else []) @ map (\<lambda>k. (i + 1) + int k) ?Q"
      unfolding bef filter_index_Cons by (simp add: o_def ac_simps)
    have ix: "i + int (length before) = (i + 1) + int (length bf)"
      "(length before < length (opt # opts)) = (length bf < length opts)" by (simp_all add: bef)
    note IH = Cons.IH [OF _ bf_def, of "i + 1"]
    show ?thesis
    proof (cases "partial_match cur len short opt")
      case True
      then have "match_long cur len short (opt # opts) i m =
          (if m = -1 then match_long cur len short opts (i + 1) i else Ambiguous)"
        using False by (auto simp: match)
      with True Cons.prems(1) show ?thesis
        unfolding ps ix by (simp add: IH) (simp add: match_outcome_def)
    next
      case no: False
      then have "match_long cur len short (opt # opts) i m = match_long cur len short opts (i + 1) m"
        using False by (auto simp: match)
      with no Cons.prems(1) show ?thesis unfolding ps ix by (simp add: IH)
    qed
  qed
qed

lemma match_long_eq:
  assumes "len \<le> length cur"
  shows "match_long cur len short opts 0 (-1) = match_spec cur len short opts"
  using match_long_spec_gen [OF assms, of 0 _ opts short "-1"]
  by (auto simp: match_spec_def match_outcome_def Let_def split: list.splits)

section \<open>Properties\<close>

text \<open>
  Claim C32.  The loop over the table of long options selects what the specification says:
  the first entry of exactly the given name unless two other names before it start with the
  given text, else the only name that starts with it; two such names are ambiguous.
\<close>

theorem match_long_selects:
  assumes "current_argv_len \<le> length current_argv"
  shows "match_long current_argv current_argv_len short_too opts 0 (-1) =
    match_spec current_argv current_argv_len short_too opts"
  using assms by (rule match_long_eq)

definition sample_opt :: "cstring \<Rightarrow> has_arg \<Rightarrow> int \<Rightarrow> long_option" where
  "sample_opt n h v = \<lparr>name = n, has_arg = h, flag = None, val = v, description = []\<rparr>"

theorem match_long_selects_witness:
  "match_long ''ver=3'' 3 False
     [sample_opt ''help'' no_argument 104, sample_opt ''verbosity'' required_argument 118] 0 (-1) =
   match_spec ''ver=3'' 3 False
     [sample_opt ''help'' no_argument 104, sample_opt ''verbosity'' required_argument 118]"
  by (rule match_long_selects) simp

text \<open>
  An option given by its full name can be rejected as ambiguous: the loop stops
  at the second name that the given text abbreviates, before it has seen the entry with
  exactly that name.  The comment on the loop reserves ambiguity for abbreviations.
\<close>

lemma exact_name_ambiguous:
  "match_long ''foo'' 3 False
     [sample_opt ''foobar'' no_argument 1, sample_opt ''foobaz'' no_argument 2,
      sample_opt ''foo'' no_argument 3] 0 (-1) = Ambiguous"
  by (simp add: sample_opt_def strncmp_eq_def)

text \<open>
  Claim C18.  Every call of \<open>getopt_internal\<close> in a parse is defined (no read outside
  \<open>argv[0..argc]\<close>, no remainder by zero), and either ends the parse or keeps the invariant
  and leaves strictly less of the vector to parse.
\<close>

theorem getopt_internal_safe_progress:
  assumes "plain_args a" "parse_inv a flags st"
  shows "\<exists>st' r. getopt_internal a (int (length (strs a))) flags st = Some (st', r) \<and>
    (if r = -1 then stable_partition st'
     else parse_inv a flags st' \<and> todo (call_args a) st' < todo (call_args a) st)"
  using getopt_internal_ok [OF assms] .

definition sample_args :: getopt_args where
  "sample_args = \<lparr>strs = [''gatedb'', ''db'', ''-v'', ''2'', ''--index''], options_null = False,
     options = ''cilv:h'', long_options = Some [sample_opt ''index'' no_argument 105],
     idx_given = True, env_posixly_correct = False\<rparr>"

lemma sample_args_plain: "plain_args sample_args" "1 \<le> length (strs sample_args)"
  by (simp_all add: plain_args_def sample_args_def sample_opt_def)

theorem getopt_internal_safe_progress_witness:
  "\<exists>st' r. getopt_internal sample_args 5 FLAG_PERMUTE (getopt_init 5) = Some (st', r) \<and>
    (if r = -1 then stable_partition st'
     else parse_inv sample_args FLAG_PERMUTE st' \<and>
       todo (call_args sample_args) st' < todo (call_args sample_args) (getopt_init 5))"
proof -
  have len: "length (strs sample_args) = 5" by (simp add: sample_args_def)
  show ?thesis
    using getopt_internal_safe_progress [OF sample_args_plain(1)
        parse_inv_init [OF sample_args_plain(2)], of FLAG_PERMUTE]
    by (simp only: len of_nat_numeral)
qed

end
