(* ===== verification/Getopt_Order.thy ===== *)
theory Getopt_Order
  imports Getopt_Correct
begin

text \<open>
  What a whole parse makes of the argument vector.  The relations \<open>reading\<close> and \<open>read_all\<close> describe,
  from left to right over the original vector, which elements are options, which are arguments of
  options and which are operands; the theorem at the end shows that the parser, with its
  permutations, leaves exactly that partition, and hands out exactly those arguments.
\<close>

section \<open>Reading the original vector\<close>

abbreviation nonopt :: "getopt_args \<Rightarrow> nat \<Rightarrow> bool" where
  "nonopt a i \<equiv> is_nonoption a (Some (i, 0))"

text \<open>
  \<open>reading a fl i P Q ds\<close>: the elements from 1 up to \<open>i\<close> have been read; \<open>P\<close> are the options and their
  arguments, \<open>Q\<close> the operands put aside, \<open>ds\<close> the elements handed to the caller as an argument.  With
  the flag \<open>FLAG_ALLARGS\<close> an operand is handed out in its place; without \<open>FLAG_PERMUTE\<close> none is passed.
\<close>

inductive reading :: "getopt_args \<Rightarrow> 32 word \<Rightarrow> nat \<Rightarrow> nat list \<Rightarrow> nat list \<Rightarrow> nat list \<Rightarrow> bool"
  for a :: getopt_args and fl :: "32 word" where
  start: "reading a fl 1 [] [] []"
| option_alone: "reading a fl i P Q ds \<Longrightarrow> i < length (strs a) \<Longrightarrow> \<not> nonopt a i \<Longrightarrow> strs a ! i \<noteq> ''--'' \<Longrightarrow>
    reading a fl (i + 1) (P @ [i]) Q ds"
| option_argument: "reading a fl i P Q ds \<Longrightarrow> i + 1 < length (strs a) \<Longrightarrow> \<not> nonopt a i \<Longrightarrow> strs a ! i \<noteq> ''--'' \<Longrightarrow>
    reading a fl (i + 2) (P @ [i, i + 1]) Q (ds @ [i + 1])"
| operand_in_order: "reading a fl i P Q ds \<Longrightarrow> i < length (strs a) \<Longrightarrow> nonopt a i \<Longrightarrow> fl AND FLAG_ALLARGS \<noteq> 0 \<Longrightarrow>
    reading a fl (i + 1) (P @ [i]) Q (ds @ [i])"
| operand_skipped: "reading a fl i P Q ds \<Longrightarrow> i < length (strs a) \<Longrightarrow> nonopt a i \<Longrightarrow> fl AND FLAG_ALLARGS = 0 \<Longrightarrow>
    fl AND FLAG_PERMUTE \<noteq> 0 \<Longrightarrow> reading a fl (i + 1) P (Q @ [i]) ds"

text \<open>The reading ends at the end of the vector, at \<open>--\<close>, or at the first operand when none may be passed.\<close>

inductive read_all :: "getopt_args \<Rightarrow> 32 word \<Rightarrow> nat list \<Rightarrow> nat list \<Rightarrow> nat list \<Rightarrow> bool"
  for a :: getopt_args and fl :: "32 word" where
  at_end: "reading a fl (length (strs a)) P Q ds \<Longrightarrow> read_all a fl P Q ds"
| at_dashes: "reading a fl i P Q ds \<Longrightarrow> i < length (strs a) \<Longrightarrow> strs a ! i = ''--'' \<Longrightarrow>
    read_all a fl (P @ [i]) (Q @ [i + 1..<length (strs a)]) ds"
| at_operand: "reading a fl i P Q ds \<Longrightarrow> i < length (strs a) \<Longrightarrow> nonopt a i \<Longrightarrow> fl AND FLAG_ALLARGS = 0 \<Longrightarrow>
    fl AND FLAG_PERMUTE = 0 \<Longrightarrow> read_all a fl P (Q @ [i..<length (strs a)]) ds"

text \<open>The state of the parser that corresponds to a reading, during the parse and after it.\<close>

definition walk_inv :: "getopt_args \<Rightarrow> 32 word \<Rightarrow> nat list \<Rightarrow> getopt_state \<Rightarrow> bool" where
  "walk_inv a fl ds st \<longleftrightarrow> (\<exists>A N O' P. at_arg a fl st A N O' \<and> A @ O' = 0 # P \<and>
     reading a fl (nat (optind st)) P N ds)"

definition finished :: "getopt_args \<Rightarrow> 32 word \<Rightarrow> nat list \<Rightarrow> getopt_state \<Rightarrow> bool" where
  "finished a fl ds st \<longleftrightarrow> (\<exists>P Q. read_all a fl P Q ds \<and> laid_out st (0 # P) Q)"

text \<open>The element of the vector that a call has handed out whole as an argument.\<close>

definition delivered :: "cptr option \<Rightarrow> nat list" where
  "delivered p = (case p of Some (x, 0) \<Rightarrow> [x] | _ \<Rightarrow> [])"

lemma delivered_simps [simp]:
  "delivered None = []" "delivered (Some (x, 0)) = [x]" "delivered (Some (x, Suc k)) = []"
  by (simp_all add: delivered_def)

lemma delivered_advance [simp]: "delivered (advance p (Suc k)) = []"
  by (cases p) (auto simp: advance_def delivered_def)

lemma walk_base: "walk_inv a fl ds st \<Longrightarrow> base_inv a fl st"
  unfolding walk_inv_def base_inv_at_arg by blast

lemma base_ids:
  assumes "base_inv a fl st" "optind st \<le> int i" "i < length (strs a)"
  shows "nargv st ! i = i"
proof -
  obtain A N O' where r: "regions st (length (strs a)) A N O'"
    using assms(1) unfolding base_inv_at_arg at_arg_def by blast
  have v: "nargv st = (A @ N @ O') @ [nat (optind st)..<length (strs a)]"
    using r by (simp add: regions_def)
  have l: "nat (optind st) = length (A @ N @ O')" using regionsD(1) [OF r] by simp
  moreover have "length (A @ N @ O') \<le> i" using assms(2) l by linarith
  ultimately have "nargv st ! i = [nat (optind st)..<length (strs a)] ! (i - nat (optind st))"
    unfolding v nth_append by simp
  then show ?thesis using assms(2,3) by (simp add: nat_le_iff)
qed

section \<open>What an option takes\<close>

text \<open>
  An option leaves the parser at most one element further on, with no other element handed out; or
  two, with the element behind the option handed out.
\<close>

definition arg_step :: "getopt_state \<Rightarrow> getopt_state \<Rightarrow> bool" where
  "arg_step st st' \<longleftrightarrow> delivered (optarg st') = [] \<and> optind st' \<le> optind st + 1 \<or>
     optind st' = optind st + 2 \<and> optind st + 1 < int (length (nargv st)) \<and>
     optarg st' = Some (nargv st ! nat (optind st + 1), 0)"

lemma optarg_fields [simp]:
  "optarg (warnx a w st) = optarg st" "optarg (set_optopt opt st) = optarg st"
  by (simp_all add: warnx_def set_optopt_def)

lemma long_found_step:
  assumes "long_found a cur len eq m opt (st\<lparr>optind := optind st + 1\<rparr>) = Some (st', r)"
    and "optarg st = None" "delivered eq = []" "0 \<le> optind st"
  shows "arg_step st st'"
  using assms
  by (auto simp: long_found_def take_long_arg_def arg_step_def argv_at_def Let_def bind_eq_Some_conv
      split: if_splits option.splits)

lemma parse_long_step:
  assumes "parse_long_options a opts short st = Some (st', r)" "optarg st = None" "0 \<le> optind st"
  shows "arg_step st st'"
proof (cases "match_long (str_at a (place st)) (case strchr (str_at a (place st)) (CHR ''='') of
    Some k \<Rightarrow> k | None \<Rightarrow> length (str_at a (place st))) short opts 0 (-1)")
  case Ambiguous
  with assms show ?thesis by (auto simp: parse_long_options_def Let_def arg_step_def)
next
  case (Match m)
  show ?thesis
  proof (cases "m = -1")
    case True
    with Match assms show ?thesis by (auto simp: parse_long_options_def Let_def arg_step_def split: if_splits)
  next
    case False
    with Match assms(1) have "long_found a (str_at a (place st)) (case strchr (str_at a (place st)) (CHR ''='') of
        Some k \<Rightarrow> k | None \<Rightarrow> length (str_at a (place st)))
      (case strchr (str_at a (place st)) (CHR ''='') of Some k \<Rightarrow> advance (place st) (k + 1) | None \<Rightarrow> None)
      m (opts ! nat m) (st\<lparr>optind := optind st + 1\<rparr>) = Some (st', r)"
      by (simp add: parse_long_options_def Let_def)
    then show ?thesis
      by (rule long_found_step) (use assms in \<open>simp_all split: option.splits\<close>)
  qed
qed

lemma try_long_step:
  assumes "try_long a fl st = Some (Inl (st', r))" "optarg st = None" "0 \<le> optind st"
  shows "arg_step st st'"
  using assms
  by (auto simp: try_long_def Let_def bind_eq_Some_conv arg_step_def split: option.splits if_splits
      dest!: parse_long_step)

lemma short_found_step:
  assumes "short_found a n c oli st = Some (st', r)" "place st = advance p 1" "optarg st = None"
    and "0 \<le> optind st" "n = int (length (nargv st))"
  shows "arg_step st st'"
  using assms
  by (auto simp: short_found_def arg_step_def argv_at_def Let_def bind_eq_Some_conv split: if_splits)

lemma cchar_in_set: "cchar s k = c \<Longrightarrow> c \<noteq> NUL \<Longrightarrow> c \<in> set s"
  by (auto simp: cchar_def split: if_splits)

lemma short_option_step:
  assumes "short_option a n st = Some (st', r)" "optarg st = None" "0 \<le> optind st"
    and "n = int (length (nargv st))" "CHR '';'' \<notin> set (options a)"
  shows "arg_step st st'"
proof -
  let ?st = "st\<lparr>place := advance (place st) 1\<rparr>"
  have no_W: "cchar (options a) k \<noteq> CHR '';''" for k
    using assms(5) cchar_in_set by fastforce
  have "arg_step ?st st' \<Longrightarrow> arg_step st st'" by (simp add: arg_step_def)
  moreover have "arg_step ?st st'"
  proof (cases "deref a (place st) 0 = CHR '':'' \<or> (deref a (place st) 0 = CHR ''-'' \<and> deref a (place ?st) 0 \<noteq> NUL) \<or>
      strchr (options a) (deref a (place st) 0) = None")
    case True
    with assms show ?thesis by (auto simp: short_option_def Let_def arg_step_def split: if_splits)
  next
    case False
    with assms(1) no_W have "short_found a n (deref a (place st) 0) (the (strchr (options a) (deref a (place st) 0))) ?st = Some (st', r)"
      unfolding short_option_def Let_def by (auto split: option.splits if_splits)
    then show ?thesis by (rule short_found_step) (use assms in simp_all)
  qed
  ultimately show ?thesis by blast
qed

lemma parse_option_step:
  assumes pl: "plain_args a" and i: "base_inv a fl st" "in_option a st"
    and p: "parse_option a (int (length (strs a))) fl' st = Some (st', r)"
    and "optarg st = None" "CHR '';'' \<notin> set (options a)"
  shows "arg_step st st'"
proof -
  note b = in_option_bounds [OF i]
  obtain res where t: "try_long a fl' st = Some res" "\<And>s. res = Inr s \<Longrightarrow> s = st"
    using try_long_ok [OF pl i, of fl'] by fastforce
  show ?thesis
  proof (cases res)
    case (Inl x)
    with t p assms(5) b(1) show ?thesis
      using try_long_step [of a fl' st st' r] by (simp add: parse_option_def)
  next
    case (Inr s)
    with t p have "short_option a (int (length (strs a))) st = Some (st', r)" by (simp add: parse_option_def)
    then show ?thesis using short_option_step assms(5,6) b by metis
  qed
qed

section \<open>One call\<close>

lemma two_dashes:
  assumes "cchar s 0 = CHR ''-''" "cchar s 1 = CHR ''-''" "cchar s 2 = NUL" "NUL \<notin> set s"
  shows "s = ''--''"
proof -
  have "length s \<le> 2"
    using assms(3,4) by (auto simp: cchar_def in_set_conv_nth split: if_splits)
  moreover have "2 \<le> length s" using cchar_neq_NUL [of s 1] assms(2) by simp
  ultimately have "length s = 2" by simp
  then obtain x y where "s = [x, y]" by (auto simp: length_Suc_conv numeral_2_eq_2)
  with assms(1,2) show ?thesis by (simp add: cchar_def)
qed

lemma at_arg_upd [simp]:
  "at_arg a fl (st\<lparr>optarg := x\<rparr>) A N O' = at_arg a fl st A N O'"
  "at_arg a fl (st\<lparr>optreset := b\<rparr>) A N O' = at_arg a fl st A N O'"
  "at_arg a fl (st\<lparr>place := p\<rparr>) A N O' = at_arg a fl st A N O'"
  by (simp_all add: at_arg_def flags_ok_def at_option_def)

lemma walk_inv_upd [simp]:
  "walk_inv a fl ds (st\<lparr>optarg := x\<rparr>) = walk_inv a fl ds st"
  "walk_inv a fl ds (st\<lparr>optreset := b\<rparr>) = walk_inv a fl ds st"
  "walk_inv a fl ds (st\<lparr>place := p\<rparr>) = walk_inv a fl ds st"
  by (simp_all add: walk_inv_def)

text \<open>Moving past elements that belong to an option, or past an operand that is handed out.\<close>

lemma walk_moved:
  assumes "at_arg a fl st A N O'" "A @ O' = 0 # P" "nonopt_start st \<noteq> -1 \<Longrightarrow> nonopt_end st \<noteq> -1" "moved st st'"
    and "reading a fl (nat (optind st')) (P @ [nat (optind st)..<nat (optind st')]) N ds"
  shows "walk_inv a fl ds st'"
proof -
  have r: "regions st (length (strs a)) A N O'" using assms(1) by (simp add: at_arg_def)
  obtain A' O'' where *: "regions st' (length (strs a)) A' N O''" "nonopt_end st' \<noteq> -1 \<longrightarrow> O'' \<noteq> []"
      "A' @ O'' = 0 # P @ [nat (optind st)..<nat (optind st')]"
    using moved_regions [OF r assms(3,4)] assms(2) by (metis append_Cons append_assoc)
  then have "at_arg a fl st' A' N O''"
    using assms(1,4) by (auto simp: at_arg_def flags_ok_def moved_def)
  with * assms(5) show ?thesis unfolding walk_inv_def by blast
qed

lemma in_option_elem:
  assumes "base_inv a fl st" "in_option a st"
  shows "nat (optind st) < length (strs a)" "\<not> nonopt a (nat (optind st))" "strs a ! nat (optind st) \<noteq> ''--''"
  using in_option_bounds [OF assms] assms(2)
  by (auto simp: in_option_def at_option_def nat_less_iff split: if_splits)

lemma walk_option:
  assumes w: "walk_inv a fl ds st" and i: "in_option a st" and e: "call_end a st st'" and s: "arg_step st st'"
  shows "walk_inv a fl (ds @ delivered (optarg st')) st'"
proof -
  note b = in_option_bounds [OF walk_base [OF w] i] and el = in_option_elem [OF walk_base [OF w] i]
  obtain A N O' P where at: "at_arg a fl st A N O'" "A @ O' = 0 # P" and rd: "reading a fl (nat (optind st)) P N ds"
    using w by (auto simp: walk_inv_def)
  from s consider (none) "optind st' = optind st" "delivered (optarg st') = []"
    | (one) "moved st st'" "optind st' = optind st + 1" "delivered (optarg st') = []"
    | (two) "moved st st'" "optind st' = optind st + 2" "optind st + 1 < int (length (strs a))"
        "optarg st' = Some (nat (optind st + 1), 0)"
    using e b base_ids [OF walk_base [OF w], of "nat (optind st + 1)"]
    by (auto simp: arg_step_def call_end_def moved_def nat_less_iff)
  then show ?thesis
  proof cases
    case none
    then have "at_arg a fl st' A N O'"
      using at e regions_cong [of st' st] by (auto simp: at_arg_def flags_ok_def at_option_def call_end_def same_but_optind_def moved_def)
    with none at rd show ?thesis by (auto simp: walk_inv_def)
  next
    case one
    have "reading a fl (nat (optind st) + 1) (P @ [nat (optind st)]) N ds"
      using rd el by (rule option_alone)
    with one b(1) show ?thesis
      by (intro walk_moved [OF at in_option_closed [OF i]]) (simp_all add: nat_add_distrib)
  next
    case two
    have "reading a fl (nat (optind st) + 2) (P @ [nat (optind st), nat (optind st) + 1]) N (ds @ [nat (optind st) + 1])"
      using rd _ el(2,3) by (rule option_argument) (use two b(1) in linarith)
    with two b(1) show ?thesis
      by (intro walk_moved [OF at in_option_closed [OF i]]) (simp_all add: nat_add_distrib numeral_2_eq_2 upt_rec)
  qed
qed

text \<open>The search for the next option.\<close>

definition scan_walk :: "getopt_args \<Rightarrow> 32 word \<Rightarrow> nat list \<Rightarrow> getopt_state \<Rightarrow> scan_result \<Rightarrow> bool" where
  "scan_walk a fl ds st0 res \<longleftrightarrow> (case res of
       Return st v \<Rightarrow> (if v = -1 then finished a fl ds st else walk_inv a fl (ds @ delivered (optarg st)) st)
     | Go st \<Rightarrow> walk_inv a fl ds st \<and> optarg st = optarg st0)"

lemma skip_nonopt_optarg: "skip_nonopt st = Some st' \<Longrightarrow> optarg st' = optarg st"
  by (auto simp: skip_nonopt_def bind_eq_Some_conv split: if_splits)

lemma walk_nonoption:
  assumes at: "at_arg a fl st A N O'" "A @ O' = 0 # P" and rd: "reading a fl (nat (optind st)) P N ds"
    and o: "optind st < int (length (strs a))" and non: "nonopt a (nat (optind st))"
  shows "(\<exists>res. scan_args a (int (length (strs a))) fl st = Some res \<and> scan_walk a fl ds st res) \<or>
    (\<exists>st'. scan_args a (int (length (strs a))) fl st = scan_args a (int (length (strs a))) fl st' \<and>
       walk_inv a fl ds st' \<and> optind st' = optind st + 1 \<and> optarg st' = optarg st)"
proof -
  let ?n = "length (strs a)" and ?st = "st\<lparr>optreset := False, place := EMSG\<rparr>" and ?i = "nat (optind st)"
  have base: "base_inv a fl st" using at(1) unfolding base_inv_at_arg by blast
  have r: "regions ?st ?n A N O'" and fl: "flags_ok fl st" and len: "length (nargv st) = ?n"
    using at regions_length [of st ?n A N O'] by (auto simp: at_arg_def)
  have b: "1 \<le> optind st" "?i < ?n" using regions_bounds [OF r] o by auto
  have id: "nargv st ! ?i = ?i" using base_ids [OF base, of ?i] b by simp
  have ne: "nonopt_end ?st \<noteq> -1 \<Longrightarrow> O' \<noteq> []" using at(1) non id by (auto simp: at_arg_def at_option_def)
  have scan: "scan_args a (int ?n) fl st =
    (if fl AND FLAG_ALLARGS \<noteq> 0 then Some (Return (?st\<lparr>optarg := Some (?i, 0), optind := optind st + 1\<rparr>) INORDER)
     else if fl AND FLAG_PERMUTE = 0 then Some (Return ?st (-1)) else skip_nonopt ?st \<bind> scan_args a (int ?n) fl)"
    using scan_nonoption_eq [of st ?n a fl] b o len non id by (simp add: Let_def)
  consider (inorder) "fl AND FLAG_ALLARGS \<noteq> 0" | (stop) "fl AND FLAG_ALLARGS = 0" "fl AND FLAG_PERMUTE = 0"
    | (skip) "fl AND FLAG_ALLARGS = 0" "fl AND FLAG_PERMUTE \<noteq> 0" by blast
  then show ?thesis
  proof cases
    case inorder
    have "reading a fl (?i + 1) (P @ [?i]) N (ds @ [?i])"
      using rd b(2) non inorder by (rule operand_in_order)
    moreover have "nonopt_start st = -1" using fl inorder by (simp add: flags_ok_def)
    ultimately have "walk_inv a fl (ds @ [?i]) (?st\<lparr>optarg := Some (?i, 0), optind := optind st + 1\<rparr>)"
      using o len b by (intro walk_moved [OF at]) (simp_all add: moved_def nat_add_distrib)
    with inorder show ?thesis by (simp add: scan scan_walk_def)
  next
    case stop
    then have "nonopt_start st = -1" using fl by (simp add: flags_ok_def)
    then have "N = []" "O' = []" using r by (simp_all add: regions_def)
    then have "laid_out ?st A (N @ [?i..<?n])"
      using regions_open_stable(2) [of ?st ?n A N ?st] regionsD(1) [OF r] r b by simp
    then have "finished a fl ds ?st"
      using at_operand [OF rd b(2) non stop] at(2) \<open>O' = []\<close> by (auto simp: finished_def)
    with stop show ?thesis by (simp add: scan scan_walk_def)
  next
    case skip
    obtain st' where st': "skip_nonopt ?st = Some st'" "regions st' ?n (A @ O') (N @ [?i]) []" "nonopt_end st' = -1"
        "optind st' = optind st + 1"
      using skip_regions [OF r] o ne by auto
    then have "at_arg a fl st' (A @ O') (N @ [?i]) []" using skip by (simp add: at_arg_def flags_ok_def)
    moreover have "reading a fl (nat (optind st')) P (N @ [?i]) ds"
      using operand_skipped [OF rd b(2) non skip] st'(4) b by (simp add: nat_add_distrib)
    ultimately have "walk_inv a fl ds st'" using at(2) unfolding walk_inv_def by fastforce
    with skip st' skip_nonopt_optarg [OF st'(1)] show ?thesis by (auto simp: scan)
  qed
qed

lemma walk_scan_option:
  assumes at: "at_arg a fl st A N O'" "A @ O' = 0 # P" and rd: "reading a fl (nat (optind st)) P N ds"
    and o: "optind st < int (length (strs a))" and opt: "\<not> nonopt a (nat (optind st))"
    and pl: "plain_args a"
  shows "\<exists>res. scan_args a (int (length (strs a))) fl st = Some res \<and> scan_walk a fl ds st res"
proof -
  let ?n = "length (strs a)" and ?i = "nat (optind st)"
  let ?ne = "if nonopt_start st \<noteq> -1 \<and> nonopt_end st = -1 then optind st else nonopt_end st"
  let ?st = "st\<lparr>optreset := False, nonopt_end := ?ne\<rparr>" and ?p = "Some (?i, 0)"
  have base: "base_inv a fl st" using at(1) unfolding base_inv_at_arg by blast
  have r: "regions st ?n A N O'" and fl: "flags_ok fl st" and len: "length (nargv st) = ?n"
    using at regions_length [of st ?n A N O'] by (auto simp: at_arg_def)
  have b: "1 \<le> optind st" "?i < ?n" using regions_bounds [OF r] o by auto
  have id: "nargv st ! ?i = ?i" using base_ids [OF base, of ?i] b by simp
  have r': "regions (?st\<lparr>place := p\<rparr>) ?n A N O'" for p
    using r b regionsD(1) [OF r] unfolding regions_upd by (auto simp: regions_def split: if_splits)
  have "at_arg a fl (?st\<lparr>place := p\<rparr>) A N O'" for p
    using r' [of p] fl o opt len id by (simp add: at_arg_def flags_ok_def at_option_def)
  then have go: "scan_walk a fl ds st (Go (?st\<lparr>place := p\<rparr>))" for p
    using at(2) rd unfolding scan_walk_def walk_inv_def by fastforce
  have scan: "scan_args a (int ?n) fl st =
      (if deref a ?p 1 \<noteq> NUL then
         if deref a ?p 1 = CHR ''-'' \<and> deref a ?p 2 = NUL
         then map_option (\<lambda>(s, v). Return s v) (end_of_options (?st\<lparr>place := advance ?p 1\<rparr>))
         else Some (Go (?st\<lparr>place := advance ?p 1\<rparr>))
       else Some (Go (?st\<lparr>place := ?p\<rparr>)))"
    using scan_option_eq [of st ?n a fl] b o len opt id by (simp add: Let_def)
  show ?thesis
  proof (cases "deref a ?p 1 = CHR ''-'' \<and> deref a ?p 2 = NUL")
    case False
    then show ?thesis using go by (auto simp: scan)
  next
    case True
    have "strs a ! ?i = ''--''"
      using True opt plain_args_NUL [OF pl b(2)] by (intro two_dashes) (simp_all add: is_nonoption_def deref_def str_at_def)
    then have "read_all a fl (P @ [?i]) (N @ [?i + 1..<?n]) ds"
      using rd b(2) by (intro at_dashes)
    moreover obtain st' where "end_of_options (?st\<lparr>place := advance ?p 1\<rparr>) = Some (st', -1)"
        "laid_out st' (A @ O' @ [?i]) (N @ [nat (optind st + 1)..<?n])"
    proof -
      have "nonopt_start st \<noteq> -1 \<Longrightarrow> ?ne \<noteq> -1" using b by auto
      then show ?thesis using end_of_options_regions [OF r', of "advance ?p 1"] o that by auto
    qed
    moreover have "nat (optind st + 1) = ?i + 1" using b by simp
    moreover have "A @ O' @ [?i] = 0 # P @ [?i]" using at(2) by (metis append_Cons append_assoc)
    ultimately show ?thesis using True by (auto simp: scan scan_walk_def finished_def)
  qed
qed

lemma walk_scan:
  assumes "plain_args a" "walk_inv a fl ds st"
  shows "\<exists>res. scan_args a (int (length (strs a))) fl st = Some res \<and> scan_walk a fl ds st res"
  using assms(2)
proof (induction "nat (int (length (strs a)) - optind st)" arbitrary: st rule: less_induct)
  case less
  let ?n = "length (strs a)"
  obtain A N O' P where at: "at_arg a fl st A N O'" "A @ O' = 0 # P" and rd: "reading a fl (nat (optind st)) P N ds"
    using less.prems by (auto simp: walk_inv_def)
  then have r: "regions st ?n A N O'" by (simp add: at_arg_def)
  show ?case
  proof (cases "optind st = int ?n")
    case True
    then have "nonopt_end st \<noteq> -1 \<Longrightarrow> O' \<noteq> []"
      using at regions_length [OF r] by (auto simp: at_arg_def at_option_def)
    then obtain st' where "finish_args (st\<lparr>optreset := False\<rparr>) = Some (st', -1)" "laid_out st' (A @ O') N"
      using finish_regions [of "st\<lparr>optreset := False\<rparr>" ?n A N O'] True r by auto
    moreover have "read_all a fl P N ds" using rd True by (intro at_end) simp
    ultimately show ?thesis
      using True at(2) by (auto simp: scan_args.simps [of a _ _ st] scan_walk_def finished_def)
  next
    case False
    with regions_bounds [OF r] have o: "optind st < int ?n" by simp
    have hyp: "\<exists>res. scan_args a (int ?n) fl st' = Some res \<and> scan_walk a fl ds st' res"
      if "walk_inv a fl ds st'" "optind st' = optind st + 1" for st'
      using less.hyps that o by simp
    have same: "scan_walk a fl ds st' res \<Longrightarrow> optarg st' = optarg st \<Longrightarrow> scan_walk a fl ds st res" for st' res
      by (simp add: scan_walk_def split: scan_result.splits)
    show ?thesis
      using walk_nonoption [OF at rd o] walk_scan_option [OF at rd o _ assms(1)] hyp same by metis
  qed
qed

text \<open>A whole call of the parser.\<close>

lemma walk_call:
  assumes pl: "plain_args a" and inv: "parse_inv a flags st" and semi: "CHR '';'' \<notin> set (options a)"
    and w: "walk_inv (call_args a) (eff_flags a flags st) ds (note_posix a st)"
    and g: "getopt_internal a (int (length (strs a))) flags st = Some (st', r)"
  shows "if r = -1 then finished (call_args a) (eff_flags a flags st) ds st'
    else walk_inv (call_args a) (eff_flags a flags st) (ds @ delivered (optarg st')) st'"
proof -
  let ?a = "call_args a" and ?fl = "eff_flags a flags st" and ?st = "(note_posix a st)\<lparr>optarg := None\<rparr>"
  let ?n = "int (length (strs a))"
  have pl': "plain_args ?a" using pl by (rule plain_call_args)
  have semi': "CHR '';'' \<notin> set (options ?a)" using semi by (auto simp: call_args_def dest: in_set_dropD)
  have w': "walk_inv ?a ?fl ds ?st" using w by simp
  note call = getopt_internal_call [OF pl inv]
  have option_call: "r \<noteq> -1 \<and> walk_inv ?a ?fl (ds @ delivered (optarg st')) st'"
    if "walk_inv ?a ?fl ds st1" "in_option ?a st1" "optarg st1 = None" "parse_option ?a ?n ?fl st1 = Some (st', r)" for st1
  proof -
    have "arg_step st1 st'"
      using parse_option_step [OF pl' walk_base [OF that(1)] that(2)] that(3,4) semi' by simp
    moreover have "r \<noteq> -1 \<and> call_end ?a st1 st'"
      using parse_option_end [OF pl' walk_base [OF that(1)] that(2), of ?fl] that(4) by simp
    ultimately show ?thesis using walk_option [OF that(1,2)] by blast
  qed
  show ?thesis
  proof (cases "deref ?a (place ?st) 0 = NUL")
    case False
    then have "in_option ?a ?st" using inv by (simp add: parse_inv_def getopt_inv_def in_option_optarg)
    with option_call [OF w'] False g show ?thesis by (simp add: call)
  next
    case True
    obtain res where s: "scan_args ?a ?n ?fl ?st = Some res" "scan_walk ?a ?fl ds ?st res"
      using walk_scan [OF pl' w'] by auto
    moreover have "scan_ok ?a ?fl res"
      using scan_args_ok [OF pl' walk_base [OF w']] s(1) by auto
    ultimately show ?thesis
      using True g option_call
      by (cases res) (auto simp: call scan_walk_def scan_ok_def split: if_splits)
  qed
qed

section \<open>A whole parse\<close>

text \<open>
  A caller's loop: it calls \<open>getopt_internal\<close> until it returns \<open>-1\<close>.  The result lists
  the values that were returned, each with \<open>optarg\<close>.  The fuel bounds the number of calls.
\<close>

fun getopt_run ::
  "nat \<Rightarrow> getopt_args \<Rightarrow> int \<Rightarrow> 32 word \<Rightarrow> getopt_state \<Rightarrow> (getopt_state \<times> (int \<times> cptr option) list) option" where
  "getopt_run 0 a nargc flags st = None"
| "getopt_run (Suc fuel) a nargc flags st = do {
     (st', r) \<leftarrow> getopt_internal a nargc flags st;
     if r = -1 then Some (st', [])
     else map_option (\<lambda>(st'', rs). (st'', (r, optarg st') # rs)) (getopt_run fuel a nargc flags st')
   }"

text \<open>The elements that a parse hands out whole, in order.\<close>

definition handed_out :: "(int \<times> cptr option) list \<Rightarrow> nat list" where
  "handed_out rs = concat (map (delivered \<circ> snd) rs)"

lemma handed_out_simps [simp]:
  "handed_out [] = []" "handed_out ((r, p) # rs) = delivered p @ handed_out rs"
  by (simp_all add: handed_out_def)

lemma getopt_run_ok:
  assumes pl: "plain_args a" and semi: "CHR '';'' \<notin> set (options a)"
  shows "parse_inv a flags st \<Longrightarrow> todo (call_args a) st < fuel \<Longrightarrow>
    walk_inv (call_args a) (eff_flags a flags st) ds (note_posix a st) \<Longrightarrow>
    \<exists>st' rs. getopt_run fuel a (int (length (strs a))) flags st = Some (st', rs) \<and>
      finished (call_args a) (eff_flags a flags st) (ds @ handed_out rs) st' \<and> length rs \<le> todo (call_args a) st"
proof (induction fuel arbitrary: st ds)
  case (Suc fuel)
  obtain st1 r where c: "getopt_internal a (int (length (strs a))) flags st = Some (st1, r)"
    "r \<noteq> -1 \<Longrightarrow> parse_inv a flags st1 \<and> posixly_correct st1 = posixly_correct (note_posix a st) \<and>
       todo (call_args a) st1 < todo (call_args a) st"
    using getopt_internal_posix [OF pl Suc.prems(1)] by (auto split: if_splits)
  note w = walk_call [OF pl Suc.prems(1) semi Suc.prems(3) c(1)]
  show ?case
  proof (cases "r = -1")
    case True
    with c w show ?thesis by simp
  next
    case False
    have p: "posixly_correct st1 \<noteq> -1" using c(2) [OF False] by simp
    then have "eff_flags a flags st1 = eff_flags a flags st" "note_posix a st1 = st1"
      using c(2) [OF False] by (simp_all add: eff_flags_def call_flags_def note_posix_idem)
    then show ?thesis
      using c False w Suc.prems Suc.IH [of st1 "ds @ delivered (optarg st1)"] by fastforce
  qed
qed simp

lemma walk_inv_init:
  assumes "1 \<le> length (strs a)"
  shows "walk_inv (call_args a) fl [] (note_posix a (getopt_init (length (strs a))))"
proof -
  let ?st = "note_posix a (getopt_init (length (strs a)))"
  have "at_arg (call_args a) fl ?st [0] [] []" by (rule at_arg_init [OF assms])
  moreover have "reading (call_args a) fl (nat (optind ?st)) [] [] []"
    using reading.start by (simp add: getopt_init_def)
  ultimately show ?thesis unfolding walk_inv_def by fastforce
qed

text \<open>
  Claim C17.  A parse of a whole command line.  The caller's loop terminates, after at most as many
  calls as there are characters to parse, and what it finds agrees with the original vector read
  from left to right: behind the program's name, the vector holds first, up to \<open>optind\<close>, exactly
  the options and the arguments handed out to the caller, and from \<open>optind\<close> on exactly the operands, each in their original
  order.  An element is an operand if it is not an option and no option took it as its argument; all
  elements behind \<open>--\<close> are operands, and, where permutation is off, all from the first operand on.  Option
  strings with \<open>W;\<close> are left out.
\<close>

theorem getopt_run_stable_partition:
  assumes "plain_args a" "1 \<le> length (strs a)" "CHR '';'' \<notin> set (options a)"
    and "todo (call_args a) (getopt_init (length (strs a))) < fuel"
  shows "\<exists>st' rs P Q. getopt_run fuel a (int (length (strs a))) flags (getopt_init (length (strs a))) = Some (st', rs) \<and>
    length rs \<le> todo (call_args a) (getopt_init (length (strs a))) \<and>
    read_all (call_args a) (eff_flags a flags (getopt_init (length (strs a)))) P Q (handed_out rs) \<and>
    nargv st' = 0 # P @ Q \<and> optind st' = int (length P) + 1"
  using getopt_run_ok [OF assms(1,3) parse_inv_init [OF assms(2)] assms(4) walk_inv_init [OF assms(2)]]
  by (fastforce simp: finished_def laid_out_def)

theorem getopt_run_stable_partition_witness:
  "\<exists>st' rs P Q. getopt_run 100 sample_args 5 FLAG_PERMUTE (getopt_init 5) = Some (st', rs) \<and>
    length rs \<le> todo (call_args sample_args) (getopt_init 5) \<and>
    read_all (call_args sample_args) (eff_flags sample_args FLAG_PERMUTE (getopt_init 5)) P Q (handed_out rs) \<and>
    nargv st' = 0 # P @ Q \<and> optind st' = int (length P) + 1"
proof -
  have len: "length (strs sample_args) = 5" and semi: "CHR '';'' \<notin> set (options sample_args)"
    by (simp_all add: sample_args_def)
  have "todo (call_args sample_args) (getopt_init 5) < 100"
    by (simp add: todo_def offset_def call_args_def sample_args_def getopt_init_def
        sum.atLeast_Suc_lessThan eval_nat_numeral)
  then show ?thesis
    using getopt_run_stable_partition [OF sample_args_plain semi, of 100 FLAG_PERMUTE] by (simp add: len)
qed

end
