(* ===== verification/Apr.thy ===== *)
theory Apr
  imports Prelude "HOL-Library.AList"
begin

text \<open>
  The interfaces of the Apache Portable Runtime that mod\_gate calls: tables (\<open>apr_table_t\<close>,
  ordered, case-insensitive keys, duplicates possible) and hashes (\<open>apr_hash_t\<close>).  Their code
  is not part of the repository, so the operations are parameters: a record of functions that
  the models of mod\_gate take as an argument.  The locales \<open>apr_table\<close> and \<open>apr_hash\<close>
  state the documented behaviour the module relies on; both are interpreted on an
  association-list implementation of the whole interface.
\<close>

section \<open>Case-insensitive keys\<close>

definition tolower :: "char \<Rightarrow> char" where
  "tolower c = (let n = of_char c :: nat in if 65 \<le> n \<and> n \<le> 90 then char_of (n + 32) else c)"

text \<open>\<open>strcasecmp a b == 0\<close>\<close>

definition same_key :: "cstring \<Rightarrow> cstring \<Rightarrow> bool" where
  "same_key a b \<longleftrightarrow> map tolower a = map tolower b"

lemma same_key_refl [simp]: "same_key a a"
  by (simp add: same_key_def)

lemma same_key_sym: "same_key a b \<longleftrightarrow> same_key b a"
  by (auto simp: same_key_def)

lemma same_key_trans: "same_key a b \<Longrightarrow> same_key b c \<Longrightarrow> same_key a c"
  by (simp add: same_key_def)

lemma same_key_left: "same_key a b \<Longrightarrow> same_key a c \<longleftrightarrow> same_key b c"
  by (auto simp: same_key_def)

section \<open>Tables\<close>

type_synonym entry = "cstring \<times> cstring"

record 't table_api =
  tbl_make :: 't
  tbl_elts :: "'t \<Rightarrow> entry list"
  tbl_get :: "'t \<Rightarrow> cstring \<Rightarrow> cstring option"
  tbl_set :: "'t \<Rightarrow> cstring \<Rightarrow> cstring \<Rightarrow> 't"
  tbl_add :: "'t \<Rightarrow> cstring \<Rightarrow> cstring \<Rightarrow> 't"
  tbl_merge :: "'t \<Rightarrow> cstring \<Rightarrow> cstring \<Rightarrow> 't"
  tbl_unset :: "'t \<Rightarrow> cstring \<Rightarrow> 't"
  tbl_clear :: "'t \<Rightarrow> 't"
  tbl_overlay :: "'t \<Rightarrow> 't \<Rightarrow> 't"
  tbl_compress_set :: "'t \<Rightarrow> 't"

text \<open>The first and the last entry of a key.\<close>

fun first_entry :: "cstring \<Rightarrow> entry list \<Rightarrow> cstring option" where
  "first_entry k [] = None"
| "first_entry k ((k', v) # es) = (if same_key k k' then Some v else first_entry k es)"

fun last_entry :: "cstring \<Rightarrow> entry list \<Rightarrow> cstring option" where
  "last_entry k [] = None"
| "last_entry k ((k', v) # es) =
     (case last_entry k es of Some w \<Rightarrow> Some w | None \<Rightarrow> if same_key k k' then Some v else None)"

lemma first_entry_append:
  "first_entry k (xs @ ys) = (case first_entry k xs of Some v \<Rightarrow> Some v | None \<Rightarrow> first_entry k ys)"
  by (induction xs) auto

lemma last_entry_append:
  "last_entry k (xs @ ys) = (case last_entry k ys of Some v \<Rightarrow> Some v | None \<Rightarrow> last_entry k xs)"
  by (induction xs) (auto split: option.splits)

lemma last_entry_None_iff: "last_entry k es = None \<longleftrightarrow> (\<forall>e\<in>set es. \<not> same_key k (fst e))"
  by (induction es) (auto split: option.splits)

lemma first_entry_None_iff: "first_entry k es = None \<longleftrightarrow> (\<forall>e\<in>set es. \<not> same_key k (fst e))"
  by (induction es) (auto split: if_splits)

lemma first_entry_same: "same_key a b \<Longrightarrow> first_entry a es = first_entry b es"
  by (induction es) (auto simp: same_key_left)

lemma last_entry_same: "same_key a b \<Longrightarrow> last_entry a es = last_entry b es"
  by (induction es) (auto simp: same_key_left split: option.splits)

definition unique_keys :: "entry list \<Rightarrow> bool" where
  "unique_keys es \<longleftrightarrow> distinct (map (map tolower \<circ> fst) es)"

lemma last_entry_unique: "unique_keys es \<Longrightarrow> last_entry k es = first_entry k es"
proof (induction es)
  case (Cons e es)
  obtain k' v where e: "e = (k', v)" by (cases e)
  have u: "unique_keys es" and notin: "map tolower k' \<notin> (map tolower \<circ> fst) ` set es"
    using Cons.prems by (auto simp: unique_keys_def e)
  have "same_key k k' \<Longrightarrow> last_entry k es = None"
    using notin by (force simp: last_entry_None_iff same_key_def)
  then show ?case using Cons.IH [OF u] by (auto simp: e split: option.splits)
qed simp

text \<open>
  The documented behaviour: \<open>get\<close> finds the first entry, \<open>set\<close> overwrites, \<open>merge\<close> joins
  the values with a comma, \<open>overlay\<close> concatenates the two tables and \<open>compress\<close> with
  \<open>APR_OVERLAP_TABLES_SET\<close> lets later entries of a key overwrite earlier ones.
\<close>

locale apr_table =
  fixes T :: "'t table_api"
  assumes elts_make: "tbl_elts T (tbl_make T) = []"
    and get_elts: "tbl_get T t k = first_entry k (tbl_elts T t)"
    and get_set: "tbl_get T (tbl_set T t k v) k' = (if same_key k' k then Some v else tbl_get T t k')"
    and unique_set: "unique_keys (tbl_elts T t) \<Longrightarrow> unique_keys (tbl_elts T (tbl_set T t k v))"
    and elts_add: "tbl_elts T (tbl_add T t k v) = tbl_elts T t @ [(k, v)]"
    and get_merge: "tbl_get T (tbl_merge T t k v) k' =
      (if same_key k' k then Some (case tbl_get T t k of None \<Rightarrow> v | Some w \<Rightarrow> w @ '', '' @ v)
       else tbl_get T t k')"
    and get_unset: "tbl_get T (tbl_unset T t k) k' = (if same_key k' k then None else tbl_get T t k')"
    and elts_clear: "tbl_elts T (tbl_clear T t) = []"
    and elts_overlay: "tbl_elts T (tbl_overlay T a b) = tbl_elts T a @ tbl_elts T b"
    and get_compress: "tbl_get T (tbl_compress_set T t) k = last_entry k (tbl_elts T t)"
    and unique_compress: "unique_keys (tbl_elts T (tbl_compress_set T t))"
begin

lemma get_make [simp]: "tbl_get T (tbl_make T) k = None"
  by (simp add: get_elts elts_make)

lemma get_same: "same_key a b \<Longrightarrow> tbl_get T t a = tbl_get T t b"
  by (simp add: get_elts first_entry_same)

lemma unique_make [simp]: "unique_keys (tbl_elts T (tbl_make T))"
  by (simp add: elts_make unique_keys_def)

lemma get_overlay_compress:
  "tbl_get T (tbl_compress_set T (tbl_overlay T a b)) k =
     (case last_entry k (tbl_elts T b) of Some v \<Rightarrow> Some v | None \<Rightarrow> last_entry k (tbl_elts T a))"
  by (simp add: get_compress elts_overlay last_entry_append)

text \<open>Copying the entries of one table into another, in order.\<close>

lemma get_copy_entries:
  "tbl_get T (fold (\<lambda>e t. tbl_set T t (fst e) (snd e)) es t) k =
     (case last_entry k es of Some v \<Rightarrow> Some v | None \<Rightarrow> tbl_get T t k)"
proof (induction es arbitrary: t)
  case (Cons e es)
  then show ?case by (cases e) (auto simp: get_set split: option.splits)
qed simp

end

section \<open>Hashes\<close>

text \<open>\<open>h_set\<close> with a null value deletes the key; \<open>h_elts\<close> is the order of iteration.\<close>

record ('h, 'v) hash_api =
  h_make :: 'h
  h_get :: "'h \<Rightarrow> cstring \<Rightarrow> 'v option"
  h_set :: "'h \<Rightarrow> cstring \<Rightarrow> 'v option \<Rightarrow> 'h"
  h_elts :: "'h \<Rightarrow> (cstring \<times> 'v) list"

locale apr_hash =
  fixes H :: "('h, 'v) hash_api"
  assumes h_get_make: "h_get H (h_make H) k = None"
    and h_get_set: "h_get H (h_set H h k v) k' = (if k' = k then v else h_get H h k')"
    and h_elts_get: "map_of (h_elts H h) = h_get H h"
    and h_elts_distinct: "distinct (map fst (h_elts H h))"
begin

lemma h_get_set_fun: "h_get H (h_set H h k v) = (h_get H h)(k := v)"
  by (simp add: fun_eq_iff h_get_set)

lemma in_h_elts: "(k, v) \<in> set (h_elts H h) \<longleftrightarrow> h_get H h k = Some v"
  using map_of_eq_Some_iff [OF h_elts_distinct] by (simp add: h_elts_get)

end

section \<open>The whole interface on association lists\<close>

fun alist_set :: "entry list \<Rightarrow> cstring \<Rightarrow> cstring \<Rightarrow> entry list" where
  "alist_set [] k v = [(k, v)]"
| "alist_set ((k', v') # es) k v =
     (if same_key k k' then (k', v) # filter (\<lambda>e. \<not> same_key k (fst e)) es
      else (k', v') # alist_set es k v)"

fun alist_merge :: "entry list \<Rightarrow> cstring \<Rightarrow> cstring \<Rightarrow> entry list" where
  "alist_merge [] k v = [(k, v)]"
| "alist_merge ((k', v') # es) k v =
     (if same_key k k' then (k', v' @ '', '' @ v) # es else (k', v') # alist_merge es k v)"

definition alist_table :: "entry list table_api" where
  "alist_table = \<lparr>
     tbl_make = [],
     tbl_elts = (\<lambda>t. t),
     tbl_get = (\<lambda>t k. first_entry k t),
     tbl_set = alist_set,
     tbl_add = (\<lambda>t k v. t @ [(k, v)]),
     tbl_merge = alist_merge,
     tbl_unset = (\<lambda>t k. filter (\<lambda>e. \<not> same_key k (fst e)) t),
     tbl_clear = (\<lambda>t. []),
     tbl_overlay = (\<lambda>a b. a @ b),
     tbl_compress_set = (\<lambda>t. fold (\<lambda>e acc. alist_set acc (fst e) (snd e)) t []) \<rparr>"

lemma first_entry_filter:
  "first_entry k' (filter (\<lambda>e. \<not> same_key k (fst e)) es) =
     (if same_key k' k then None else first_entry k' es)"
  by (induction es) (auto simp: same_key_def)

lemma first_entry_alist_set:
  "first_entry k' (alist_set es k v) = (if same_key k' k then Some v else first_entry k' es)"
  by (induction es k v rule: alist_set.induct)
    (auto simp: first_entry_filter dest: same_key_trans simp: same_key_sym same_key_left)

lemma first_entry_alist_merge:
  "first_entry k' (alist_merge es k v) =
     (if same_key k' k then Some (case first_entry k es of None \<Rightarrow> v | Some w \<Rightarrow> w @ '', '' @ v)
      else first_entry k' es)"
  by (induction es k v rule: alist_merge.induct) (auto simp: same_key_def)

lemma keys_alist_set:
  "(map tolower \<circ> fst) ` set (alist_set es k v) \<subseteq> insert (map tolower k) ((map tolower \<circ> fst) ` set es)"
  by (induction es k v rule: alist_set.induct) (auto simp: same_key_def)

lemma unique_keys_Cons:
  "unique_keys (e # es) \<longleftrightarrow> map tolower (fst e) \<notin> (map tolower \<circ> fst) ` set es \<and> unique_keys es"
  by (simp add: unique_keys_def)

lemma unique_keys_filter: "unique_keys es \<Longrightarrow> unique_keys (filter P es)"
  by (simp add: unique_keys_def distinct_map_filter)

lemma unique_alist_set: "unique_keys es \<Longrightarrow> unique_keys (alist_set es k v)"
proof (induction es k v rule: alist_set.induct)
  case (1 k v)
  then show ?case by (simp add: unique_keys_def)
next
  case (2 k' v' es k v)
  show ?case
  proof (cases "same_key k k'")
    case True
    with 2 show ?thesis by (auto simp: unique_keys_Cons unique_keys_filter)
  next
    case False
    with 2 show ?thesis
      using keys_alist_set [of es k v] by (auto simp: unique_keys_Cons same_key_def)
  qed
qed

lemma fold_alist_set:
  "first_entry k (fold (\<lambda>e acc. alist_set acc (fst e) (snd e)) es acc) =
     (case last_entry k es of Some v \<Rightarrow> Some v | None \<Rightarrow> first_entry k acc)"
proof (induction es arbitrary: acc)
  case (Cons e es)
  then show ?case by (cases e) (auto simp: first_entry_alist_set split: option.splits)
qed simp

lemma unique_fold_alist_set:
  "unique_keys acc \<Longrightarrow> unique_keys (fold (\<lambda>e acc. alist_set acc (fst e) (snd e)) es acc)"
  by (induction es arbitrary: acc) (auto simp: unique_alist_set)

interpretation alist_tbl: apr_table alist_table
proof unfold_locales
  show "unique_keys (tbl_elts alist_table (tbl_compress_set alist_table t))" for t
    using unique_fold_alist_set [of "[]" t] by (simp add: alist_table_def unique_keys_def)
qed (simp_all add: alist_table_def first_entry_alist_set first_entry_alist_merge first_entry_filter
    unique_alist_set fold_alist_set option.case_eq_if)

definition alist_hash :: "((cstring \<times> 'v) list, 'v) hash_api" where
  "alist_hash = \<lparr>
     h_make = [],
     h_get = map_of,
     h_set = (\<lambda>h k v. case v of Some x \<Rightarrow> AList.update k x h | None \<Rightarrow> AList.delete k h),
     h_elts = AList.clearjunk \<rparr>"

interpretation alist_hsh: apr_hash alist_hash
  by unfold_locales
    (auto simp: alist_hash_def AList.update_conv AList.delete_conv map_of_clearjunk
      distinct_clearjunk split: option.splits)

end
