(* ===== verification/Gate_Config.thy ===== *)
theory Gate_Config
  imports Apr
begin

text \<open>
  The configuration phase of the module, \<open>src/src/mod_gate.c\<close> and \<open>src/src/common.c\<close>: the
  server and directory configuration records, one function per configuration directive, the
  creation and merging of configurations, and the lookup of a declared handler.

  Apache calls a directive with \<open>parms\<close>; of it the code uses the server configuration and the
  answer of \<open>ap_check_cmd_context(parms, NOT_IN_DIR_LOC_FILE)\<close>, here the argument \<open>ctx\<close>:
  \<open>None\<close> outside every directory section, else the error text.  A directive returns \<open>None\<close> (a
  null pointer) on success, else its error.
\<close>

section \<open>The runtime library, bundled\<close>

text \<open>
  \<open>apr_format\<close> is the formatter behind \<open>ap_log_perror\<close> for a format that comes with no arguments: the
  text it makes, or \<open>None\<close> when it reads an argument, which is undefined.  Of it the module relies on
  this: text without a percent sign is copied, and \<open>%s\<close> reads an argument.  Nothing is said of other
  characters after a percent sign.
\<close>

record ('t, 'h, 'hh) apr_api =
  apr_tables :: "'t table_api"
  apr_values :: "('h, cstring) hash_api"
  apr_handlers :: "('hh, 'h) hash_api"
  apr_format :: "cstring \<Rightarrow> cstring option"

locale apr_lib =
  fixes A :: "('t, 'h, 'hh) apr_api"
  assumes tables_ok: "apr_table (apr_tables A)"
    and values_ok: "apr_hash (apr_values A)"
    and handlers_ok: "apr_hash (apr_handlers A)"
    and format_nil: "apr_format A [] = Some []"
    and format_plain: "CHR ''%'' \<notin> set a \<Longrightarrow> apr_format A (a @ s) = map_option (\<lambda>t. a @ t) (apr_format A s)"
    and format_s: "apr_format A (CHR ''%'' # CHR ''s'' # s) = None"

sublocale apr_lib \<subseteq> tbl: apr_table "apr_tables A"
  by (rule tables_ok)

sublocale apr_lib \<subseteq> val: apr_hash "apr_values A"
  by (rule values_ok)

sublocale apr_lib \<subseteq> hnd: apr_hash "apr_handlers A"
  by (rule handlers_ok)

type_synonym value_alist = "(cstring \<times> cstring) list"

text \<open>An instance: a doubled percent sign stands for one, a last one is ignored, any other reads an argument.\<close>

fun plain_format :: "cstring \<Rightarrow> cstring option" where
  "plain_format [] = Some []"
| "plain_format [c] = Some (if c = CHR ''%'' then [] else [c])"
| "plain_format (c # d # s) =
     (if c \<noteq> CHR ''%'' then map_option ((#) c) (plain_format (d # s))
      else if d = CHR ''%'' then map_option ((#) c) (plain_format s) else None)"

lemma plain_format_Cons: "c \<noteq> CHR ''%'' \<Longrightarrow> plain_format (c # s) = map_option ((#) c) (plain_format s)"
  by (cases s) simp_all

lemma plain_format_append: "CHR ''%'' \<notin> set a \<Longrightarrow> plain_format (a @ s) = map_option (\<lambda>t. a @ t) (plain_format s)"
  by (cases "plain_format s"; induction a) (auto simp: plain_format_Cons)

definition alist_apr :: "(entry list, value_alist, (cstring \<times> value_alist) list) apr_api" where
  "alist_apr = \<lparr>apr_tables = alist_table, apr_values = alist_hash, apr_handlers = alist_hash, apr_format = plain_format\<rparr>"

interpretation alist_lib: apr_lib alist_apr
  by (rule apr_lib.intro)
    (simp_all add: alist_apr_def alist_tbl.apr_table_axioms alist_hsh.apr_hash_axioms plain_format_append)

lemma alist_apr_simps [simp]:
  "h_get (apr_values alist_apr) = map_of" "h_get (apr_handlers alist_apr) = map_of"
  "tbl_get (apr_tables alist_apr) t k = first_entry k t" "tbl_elts (apr_tables alist_apr) t = t"
  "apr_format alist_apr = plain_format"
  by (simp_all add: alist_apr_def alist_hash_def alist_table_def)

section \<open>Configuration records\<close>

record ('t, 'hh) gate_config =
  cfg_handler :: "cstring option"
  cfg_default_database :: "cstring option"
  cfg_options :: 't
  cfg_handlers :: 'hh

record 't gate_dir_config =
  dir_path :: "cstring option"
  dir_options :: 't

text \<open>What the directives can change: the two configurations and the process environment.\<close>

record ('t, 'hh) conf_state =
  server_conf :: "('t, 'hh) gate_config"
  dir_conf :: "'t gate_dir_config"
  environ :: "cstring \<Rightarrow> cstring option"

datatype conf_error =
    Context_error cstring
  | Arguments_not_provided "cstring option" "cstring option"
  | Not_registered cstring

definition create_config :: "('t, 'h, 'hh) apr_api \<Rightarrow> ('t, 'hh) gate_config" where
  "create_config A = \<lparr>cfg_handler = None, cfg_default_database = None,
     cfg_options = tbl_make (apr_tables A), cfg_handlers = h_make (apr_handlers A)\<rparr>"

definition create_dir_conf :: "('t, 'h, 'hh) apr_api \<Rightarrow> cstring option \<Rightarrow> 't gate_dir_config" where
  "create_dir_conf A dir = \<lparr>dir_path = dir, dir_options = tbl_make (apr_tables A)\<rparr>"

definition merge_dir_conf ::
  "('t, 'h, 'hh) apr_api \<Rightarrow> 't gate_dir_config \<Rightarrow> 't gate_dir_config \<Rightarrow> 't gate_dir_config" where
  "merge_dir_conf A dir_current dir_new =
     \<lparr>dir_path = dir_path dir_new,
      dir_options = tbl_compress_set (apr_tables A)
        (tbl_overlay (apr_tables A) (dir_options dir_current) (dir_options dir_new))\<rparr>"

section \<open>Directives\<close>

definition set_server_option ::
  "('t, 'h, 'hh) apr_api \<Rightarrow> cstring \<Rightarrow> cstring \<Rightarrow> ('t, 'hh) conf_state \<Rightarrow> ('t, 'hh) conf_state" where
  "set_server_option A key val st =
     st\<lparr>server_conf := (server_conf st)\<lparr>cfg_options :=
       tbl_set (apr_tables A) (cfg_options (server_conf st)) key val\<rparr>\<rparr>"

definition set_dir_option ::
  "('t, 'h, 'hh) apr_api \<Rightarrow> cstring \<Rightarrow> cstring \<Rightarrow> ('t, 'hh) conf_state \<Rightarrow> ('t, 'hh) conf_state" where
  "set_dir_option A key val st =
     st\<lparr>dir_conf := (dir_conf st)\<lparr>dir_options :=
       tbl_set (apr_tables A) (dir_options (dir_conf st)) key val\<rparr>\<rparr>"

definition set_gate_default_database ::
  "('t, 'h, 'hh) apr_api \<Rightarrow> cstring option \<Rightarrow> cstring option \<Rightarrow> ('t, 'hh) conf_state
     \<Rightarrow> ('t, 'hh) conf_state \<times> conf_error option" where
  "set_gate_default_database A ctx arg st =
     (case arg of
        None \<Rightarrow> (st, None)
      | Some a \<Rightarrow>
          if ctx = None then
            (st\<lparr>server_conf := (server_conf st)\<lparr>cfg_default_database := Some a\<rparr>\<rparr>, None)
          else (set_dir_option A ''GateDatabase'' a st, None))"

definition set_gate_config_var ::
  "('t, 'h, 'hh) apr_api \<Rightarrow> cstring option \<Rightarrow> cstring option \<Rightarrow> cstring \<Rightarrow> ('t, 'hh) conf_state
     \<Rightarrow> ('t, 'hh) conf_state \<times> conf_error option" where
  "set_gate_config_var A ctx arg1 arg2 st =
     (case arg1 of
        None \<Rightarrow> (st, None)
      | Some k \<Rightarrow>
          if ctx = None then (set_server_option A k arg2 st, None)
          else (set_dir_option A k arg2 st, None))"

text \<open>\<open>setenv(name, value, 1)\<close> fails, without effect, on an empty name or one with an equals sign.\<close>

definition c_setenv ::
  "cstring \<Rightarrow> cstring \<Rightarrow> (cstring \<Rightarrow> cstring option) \<Rightarrow> cstring \<Rightarrow> cstring option" where
  "c_setenv nam val e = (if nam = '''' \<or> CHR ''='' \<in> set nam then e else e(nam \<mapsto> val))"

definition set_gate_env_var ::
  "cstring option \<Rightarrow> cstring option \<Rightarrow> ('t, 'hh) conf_state \<Rightarrow> ('t, 'hh) conf_state \<times> conf_error option" where
  "set_gate_env_var arg1 arg2 st =
     (case arg1 of
        None \<Rightarrow> (st, None)
      | Some a1 \<Rightarrow>
          (case arg2 of
             None \<Rightarrow> (st, None)
           | Some a2 \<Rightarrow> (st\<lparr>environ := c_setenv a1 a2 (environ st)\<rparr>, None)))"

definition set_gate_filter ::
  "('t, 'h, 'hh) apr_api \<Rightarrow> cstring option \<Rightarrow> cstring option \<Rightarrow> ('t, 'hh) conf_state
     \<Rightarrow> ('t, 'hh) conf_state \<times> conf_error option" where
  "set_gate_filter A ctx arg st =
     (case arg of
        None \<Rightarrow> (st, None)
      | Some a \<Rightarrow>
          if ctx = None then
            (st\<lparr>server_conf := (server_conf st)\<lparr>cfg_handler := Some a\<rparr>\<rparr>, None)
          else (set_dir_option A ''Gate'' a st, None))"

definition set_gate_filter_declare ::
  "('t, 'h, 'hh) apr_api \<Rightarrow> cstring option \<Rightarrow> cstring option \<Rightarrow> ('t, 'hh) conf_state
     \<Rightarrow> ('t, 'hh) conf_state \<times> conf_error option" where
  "set_gate_filter_declare A ctx arg st =
     (case arg of
        None \<Rightarrow> (st, None)
      | Some a \<Rightarrow>
          (case ctx of
             Some errmsg \<Rightarrow> (st, Some (Context_error errmsg))
           | None \<Rightarrow>
               let cfg = server_conf st in
               if h_get (apr_handlers A) (cfg_handlers cfg) a = None then
                 (st\<lparr>server_conf := cfg\<lparr>cfg_handlers :=
                    h_set (apr_handlers A) (cfg_handlers cfg) a (Some (h_make (apr_values A)))\<rparr>\<rparr>, None)
               else (st, None)))"

text \<open>
  A handler's parameters are changed in place through the pointer in the table of handlers,
  which is the only reference to them.
\<close>

definition gate_filter_set_params ::
  "('t, 'h, 'hh) apr_api \<Rightarrow> cstring option \<Rightarrow> cstring \<Rightarrow> cstring option \<Rightarrow> cstring option
     \<Rightarrow> ('t, 'hh) conf_state \<Rightarrow> ('t, 'hh) conf_state \<times> conf_error option" where
  "gate_filter_set_params A ctx key handler val st =
     (case (handler, val) of
        (Some hn, Some v) \<Rightarrow>
          (case ctx of
             Some errmsg \<Rightarrow> (st, Some (Context_error errmsg))
           | None \<Rightarrow>
               let cfg = server_conf st in
               (case h_get (apr_handlers A) (cfg_handlers cfg) hn of
                  None \<Rightarrow> (st, Some (Not_registered hn))
                | Some h_config \<Rightarrow>
                    (st\<lparr>server_conf := cfg\<lparr>cfg_handlers :=
                       h_set (apr_handlers A) (cfg_handlers cfg) hn
                         (Some (h_set (apr_values A) h_config key (Some v)))\<rparr>\<rparr>, None)))
      | _ \<Rightarrow> (st, Some (Arguments_not_provided handler val)))"

definition set_gate_filter_config ::
  "('t, 'h, 'hh) apr_api \<Rightarrow> cstring option \<Rightarrow> cstring option \<Rightarrow> cstring \<Rightarrow> cstring option
     \<Rightarrow> ('t, 'hh) conf_state \<Rightarrow> ('t, 'hh) conf_state \<times> conf_error option" where
  "set_gate_filter_config A ctx handler key val st = gate_filter_set_params A ctx key handler val st"

definition set_gate_filter_database ::
  "('t, 'h, 'hh) apr_api \<Rightarrow> cstring option \<Rightarrow> cstring option \<Rightarrow> cstring option
     \<Rightarrow> ('t, 'hh) conf_state \<Rightarrow> ('t, 'hh) conf_state \<times> conf_error option" where
  "set_gate_filter_database A ctx arg1 arg2 st =
     gate_filter_set_params A ctx ''GateDatabase'' arg1 arg2 st"

text \<open>\<open>gate_handler_config\<close> of \<open>common.c\<close>\<close>

definition gate_handler_config ::
  "('t, 'h, 'hh) apr_api \<Rightarrow> ('t, 'hh) gate_config \<Rightarrow> cstring \<Rightarrow> 'h option" where
  "gate_handler_config A cfg nam = h_get (apr_handlers A) (cfg_handlers cfg) nam"

section \<open>The command table\<close>

text \<open>
  A call of one of the functions that the table names, with the arguments it gets (they are not
  null for the arities of the table).
\<close>

datatype directive_call =
    Set_gate_default_database cstring
  | Set_gate_filter cstring
  | Set_gate_config_var cstring cstring
  | Set_gate_env_var cstring cstring
  | Set_gate_filter_declare cstring
  | Set_gate_filter_database cstring cstring
  | Set_gate_filter_config cstring cstring cstring

definition call_directive ::
  "('t, 'h, 'hh) apr_api \<Rightarrow> cstring option \<Rightarrow> directive_call \<Rightarrow> ('t, 'hh) conf_state
     \<Rightarrow> ('t, 'hh) conf_state \<times> conf_error option" where
  "call_directive A ctx d st =
     (case d of
        Set_gate_default_database a \<Rightarrow> set_gate_default_database A ctx (Some a) st
      | Set_gate_filter a \<Rightarrow> set_gate_filter A ctx (Some a) st
      | Set_gate_config_var k v \<Rightarrow> set_gate_config_var A ctx (Some k) v st
      | Set_gate_env_var k v \<Rightarrow> set_gate_env_var (Some k) (Some v) st
      | Set_gate_filter_declare a \<Rightarrow> set_gate_filter_declare A ctx (Some a) st
      | Set_gate_filter_database hn p \<Rightarrow> set_gate_filter_database A ctx (Some hn) (Some p) st
      | Set_gate_filter_config hn k v \<Rightarrow> set_gate_filter_config A ctx (Some hn) k (Some v) st)"

text \<open>
  A row of the table: the name of the directive and the function that is called with its
  arguments.  \<open>AP_INIT_TAKE1\<close>, \<open>AP_INIT_TAKE2\<close> and \<open>AP_INIT_TAKE3\<close> demand exactly that many arguments; with
  any other number the function is not called and the line is an error.
\<close>

record command_rec =
  cmd_name :: cstring
  cmd_func :: "cstring list \<Rightarrow> directive_call option"

definition AP_INIT_TAKE1 :: "cstring \<Rightarrow> (cstring \<Rightarrow> directive_call) \<Rightarrow> command_rec" where
  "AP_INIT_TAKE1 nam f = \<lparr>cmd_name = nam, cmd_func = (\<lambda>args. case args of [a] \<Rightarrow> Some (f a) | _ \<Rightarrow> None)\<rparr>"

definition AP_INIT_TAKE2 :: "cstring \<Rightarrow> (cstring \<Rightarrow> cstring \<Rightarrow> directive_call) \<Rightarrow> command_rec" where
  "AP_INIT_TAKE2 nam f = \<lparr>cmd_name = nam, cmd_func = (\<lambda>args. case args of [a, b] \<Rightarrow> Some (f a b) | _ \<Rightarrow> None)\<rparr>"

definition AP_INIT_TAKE3 :: "cstring \<Rightarrow> (cstring \<Rightarrow> cstring \<Rightarrow> cstring \<Rightarrow> directive_call) \<Rightarrow> command_rec" where
  "AP_INIT_TAKE3 nam f = \<lparr>cmd_name = nam, cmd_func = (\<lambda>args. case args of [a, b, c] \<Rightarrow> Some (f a b c) | _ \<Rightarrow> None)\<rparr>"

definition mod_gate_cmds :: "command_rec list" where
  "mod_gate_cmds = [
     AP_INIT_TAKE1 ''GateDefaultDatabase'' Set_gate_default_database,
     AP_INIT_TAKE1 ''Gate'' Set_gate_filter,
     AP_INIT_TAKE2 ''GateConfig'' Set_gate_config_var,
     AP_INIT_TAKE2 ''GateEnv'' Set_gate_env_var,
     AP_INIT_TAKE1 ''GateDeclare'' Set_gate_filter_declare,
     AP_INIT_TAKE2 ''GateDatabase'' Set_gate_filter_database,
     AP_INIT_TAKE3 ''GateConfig'' Set_gate_filter_config]"

lemmas command_rows = AP_INIT_TAKE1_def AP_INIT_TAKE2_def AP_INIT_TAKE3_def

text \<open>
  The rows of a name (names are compared without regard to case), and whether each of some rows takes
  the arguments of a line.
\<close>

definition rows_named :: "cstring \<Rightarrow> command_rec list" where
  "rows_named nam = filter (\<lambda>c. same_key (cmd_name c) nam) mod_gate_cmds"

definition row_takes :: "command_rec list \<Rightarrow> cstring list \<Rightarrow> bool" where
  "row_takes rows args = list_all (\<lambda>c. cmd_func c args \<noteq> None) rows"

text \<open>
  How Apache walks over the table is not code of the module.  What the properties need is a sequence
  of calls, each in a section or outside; it ends at the first call that returns an error.
\<close>

fun run_calls ::
  "('t, 'h, 'hh) apr_api \<Rightarrow> (cstring option \<times> directive_call) list \<Rightarrow> ('t, 'hh) conf_state
     \<Rightarrow> conf_error + ('t, 'hh) conf_state" where
  "run_calls A [] st = Inr st"
| "run_calls A ((ctx, d) # ds) st =
     (case call_directive A ctx d st of
        (st', None) \<Rightarrow> run_calls A ds st'
      | (st', Some err) \<Rightarrow> Inl err)"

definition initial_conf ::
  "('t, 'h, 'hh) apr_api \<Rightarrow> cstring option \<Rightarrow> (cstring \<Rightarrow> cstring option) \<Rightarrow> ('t, 'hh) conf_state" where
  "initial_conf A dir e = \<lparr>server_conf = create_config A, dir_conf = create_dir_conf A dir, environ = e\<rparr>"

section \<open>What the declared handlers are\<close>

text \<open>
  The abstract content of the table of handlers: each declared name with its parameters; and
  what each directive outside a directory section means for it, \<open>None\<close> for an error.
\<close>

type_synonym handler_map = "cstring \<Rightarrow> (cstring \<Rightarrow> cstring option) option"

definition handlers_abs :: "('t, 'h, 'hh) apr_api \<Rightarrow> ('t, 'hh) conf_state \<Rightarrow> handler_map" where
  "handlers_abs A st nam =
     map_option (h_get (apr_values A)) (gate_handler_config A (server_conf st) nam)"

definition spec_param :: "cstring \<Rightarrow> cstring \<Rightarrow> cstring \<Rightarrow> handler_map \<Rightarrow> handler_map option" where
  "spec_param hn k v m = (case m hn of None \<Rightarrow> None | Some p \<Rightarrow> Some (m(hn \<mapsto> p(k \<mapsto> v))))"

definition spec_cmd :: "directive_call \<Rightarrow> handler_map \<Rightarrow> handler_map option" where
  "spec_cmd d m =
     (case d of
        Set_gate_filter_declare hn \<Rightarrow> Some (if m hn = None then m(hn \<mapsto> Map.empty) else m)
      | Set_gate_filter_database hn p \<Rightarrow> spec_param hn ''GateDatabase'' p m
      | Set_gate_filter_config hn k v \<Rightarrow> spec_param hn k v m
      | _ \<Rightarrow> Some m)"

fun spec_run :: "directive_call list \<Rightarrow> handler_map \<Rightarrow> handler_map option" where
  "spec_run [] m = Some m"
| "spec_run (d # ds) m = (case spec_cmd d m of None \<Rightarrow> None | Some m' \<Rightarrow> spec_run ds m')"

lemmas directive_defs = call_directive_def set_gate_default_database_def set_gate_config_var_def
  set_gate_env_var_def set_gate_filter_def set_gate_filter_declare_def set_gate_filter_config_def
  set_gate_filter_database_def gate_filter_set_params_def set_server_option_def set_dir_option_def

context apr_lib
begin

lemma handlers_abs_initial: "handlers_abs A (initial_conf A dir e) = Map.empty"
  by (simp add: fun_eq_iff handlers_abs_def gate_handler_config_def initial_conf_def create_config_def
      hnd.h_get_make)

lemma handlers_abs_declare:
  "call_directive A None (Set_gate_filter_declare hn) st = (st', err) \<Longrightarrow>
     err = None \<and> Some (handlers_abs A st') = spec_cmd (Set_gate_filter_declare hn) (handlers_abs A st)"
  by (auto simp: directive_defs spec_cmd_def Let_def handlers_abs_def gate_handler_config_def fun_eq_iff
      hnd.h_get_set val.h_get_make split: if_splits)

lemma handlers_abs_param:
  "gate_filter_set_params A None k (Some hn) (Some v) st = (st', err) \<Longrightarrow>
     (case spec_param hn k v (handlers_abs A st) of
        None \<Rightarrow> err = Some (Not_registered hn)
      | Some m \<Rightarrow> err = None \<and> handlers_abs A st' = m)"
  by (auto simp: gate_filter_set_params_def spec_param_def Let_def handlers_abs_def
      gate_handler_config_def fun_eq_iff [where 'a = cstring and 'b = "(cstring \<Rightarrow> cstring option) option"]
      hnd.h_get_set val.h_get_set_fun split: option.splits)

text \<open>Each directive does to the table of handlers what its specification says.\<close>

lemma call_directive_refines:
  assumes "call_directive A None d st = (st', err)"
  shows "case spec_cmd d (handlers_abs A st) of
      None \<Rightarrow> (\<exists>hn. err = Some (Not_registered hn))
    | Some m \<Rightarrow> err = None \<and> handlers_abs A st' = m"
proof (cases d)
  case (Set_gate_filter_declare hn)
  then show ?thesis using handlers_abs_declare [of hn st st' err] assms by (auto simp: spec_cmd_def)
next
  case (Set_gate_filter_database hn p)
  then show ?thesis
    using handlers_abs_param [of "''GateDatabase''" hn p st st' err] assms
    by (auto simp: spec_cmd_def call_directive_def set_gate_filter_database_def split: option.splits)
next
  case (Set_gate_filter_config hn k v)
  then show ?thesis
    using handlers_abs_param [of k hn v st st' err] assms
    by (auto simp: spec_cmd_def call_directive_def set_gate_filter_config_def split: option.splits)
qed (use assms in \<open>auto simp: directive_defs spec_cmd_def handlers_abs_def gate_handler_config_def fun_eq_iff\<close>)

lemma run_calls_refines:
  "case run_calls A (map (Pair None) ds) st of
     Inl err \<Rightarrow> spec_run ds (handlers_abs A st) = None \<and> (\<exists>hn. err = Not_registered hn)
   | Inr st' \<Rightarrow> spec_run ds (handlers_abs A st) = Some (handlers_abs A st')"
proof (induction ds arbitrary: st)
  case (Cons d ds)
  obtain st' err where c: "call_directive A None d st = (st', err)" by fastforce
  show ?case
    using call_directive_refines [OF c] Cons.IH [of st'] by (auto simp: c split: option.splits sum.splits)
qed simp

end

text \<open>The handlers declared by a list of directives, and the last value a parameter is given.\<close>

definition declares :: "directive_call \<Rightarrow> cstring set" where
  "declares d = (case d of Set_gate_filter_declare hn \<Rightarrow> {hn} | _ \<Rightarrow> {})"

definition names_handler :: "directive_call \<Rightarrow> cstring option" where
  "names_handler d = (case d of Set_gate_filter_database hn p \<Rightarrow> Some hn | Set_gate_filter_config hn k v \<Rightarrow> Some hn | _ \<Rightarrow> None)"

fun declared_first :: "cstring set \<Rightarrow> directive_call list \<Rightarrow> bool" where
  "declared_first D [] = True"
| "declared_first D (d # ds) =
     ((case names_handler d of None \<Rightarrow> True | Some hn \<Rightarrow> hn \<in> D) \<and> declared_first (D \<union> declares d) ds)"

definition sets_param :: "cstring \<Rightarrow> cstring \<Rightarrow> directive_call \<Rightarrow> cstring option" where
  "sets_param hn k d =
     (case d of
        Set_gate_filter_database hn' p \<Rightarrow> if hn' = hn \<and> k = ''GateDatabase'' then Some p else None
      | Set_gate_filter_config hn' k' v \<Rightarrow> if hn' = hn \<and> k' = k then Some v else None
      | _ \<Rightarrow> None)"

fun last_param :: "cstring \<Rightarrow> cstring \<Rightarrow> directive_call list \<Rightarrow> cstring option" where
  "last_param hn k [] = None"
| "last_param hn k (d # ds) =
     (case last_param hn k ds of Some v \<Rightarrow> Some v | None \<Rightarrow> sets_param hn k d)"

lemmas directive_specs = spec_cmd_def spec_param_def declares_def names_handler_def sets_param_def

lemma spec_cmd_defined:
  "spec_cmd d m = None \<longleftrightarrow> (\<exists>hn. names_handler d = Some hn \<and> hn \<notin> dom m)"
  by (cases d) (auto simp: directive_specs split: option.splits)

lemma spec_cmd_dom: "spec_cmd d m = Some m' \<Longrightarrow> dom m' = dom m \<union> declares d"
  by (cases d) (auto simp: directive_specs split: option.splits if_splits)

lemma spec_run_defined: "spec_run ds m = None \<longleftrightarrow> \<not> declared_first (dom m) ds"
proof (induction ds arbitrary: m)
  case (Cons d ds)
  show ?case
  proof (cases "spec_cmd d m")
    case None
    then obtain hn where "names_handler d = Some hn" "hn \<notin> dom m" by (auto simp: spec_cmd_defined)
    with None show ?thesis by auto
  next
    case (Some m')
    then have "\<And>hn. names_handler d = Some hn \<Longrightarrow> hn \<in> dom m" using spec_cmd_defined [of d m] by auto
    with Some show ?thesis using Cons.IH [of m'] by (auto simp: spec_cmd_dom [OF Some] split: option.splits)
  qed
qed simp

lemma spec_run_dom: "spec_run ds m = Some m' \<Longrightarrow> dom m' = dom m \<union> \<Union> (declares ` set ds)"
proof (induction ds arbitrary: m)
  case (Cons d ds)
  then obtain m1 where 1: "spec_cmd d m = Some m1" "spec_run ds m1 = Some m'"
    by (auto split: option.splits)
  then show ?case using Cons.IH [OF 1(2)] spec_cmd_dom [OF 1(1)] by auto
qed simp

definition param_of :: "handler_map \<Rightarrow> cstring \<Rightarrow> cstring \<Rightarrow> cstring option" where
  "param_of m hn k = (case m hn of None \<Rightarrow> None | Some p \<Rightarrow> p k)"

lemma spec_cmd_param:
  "spec_cmd d m = Some m' \<Longrightarrow>
     param_of m' hn k = (case sets_param hn k d of Some v \<Rightarrow> Some v | None \<Rightarrow> param_of m hn k)"
  by (cases d) (auto simp: directive_specs param_of_def split: option.splits if_splits)

lemma spec_run_param:
  "spec_run ds m = Some m' \<Longrightarrow>
     param_of m' hn k = (case last_param hn k ds of Some v \<Rightarrow> Some v | None \<Rightarrow> param_of m hn k)"
proof (induction ds arbitrary: m)
  case (Cons d ds)
  then obtain m1 where 1: "spec_cmd d m = Some m1" "spec_run ds m1 = Some m'"
    by (auto split: option.splits)
  then show ?case
    using Cons.IH [OF 1(2)] spec_cmd_param [OF 1(1), of hn k] by (auto split: option.splits)
qed simp

section \<open>Directory configurations\<close>

text \<open>
  How directory configurations come about: Apache creates one per section, directives set
  options in it, and sections are merged from the outermost to the innermost.
\<close>

inductive built_dir :: "('t, 'h, 'hh) apr_api \<Rightarrow> 't gate_dir_config \<Rightarrow> bool" for A where
  built_create: "built_dir A (create_dir_conf A dir)"
| built_cmd: "built_dir A (dir_conf st) \<Longrightarrow> built_dir A (dir_conf (fst (call_directive A ctx d st)))"
| built_merge: "built_dir A cur \<Longrightarrow> built_dir A new \<Longrightarrow> built_dir A (merge_dir_conf A cur new)"

lemma call_directive_dir_conf:
  "dir_conf (fst (call_directive A ctx d st)) = dir_conf st \<or>
     (\<exists>k v. dir_conf (fst (call_directive A ctx d st)) = dir_conf (set_dir_option A k v st))"
  by (cases d; cases ctx) (auto simp: directive_defs Let_def split: option.splits)

context apr_lib
begin

lemma built_dir_unique: "built_dir A d \<Longrightarrow> unique_keys (tbl_elts (apr_tables A) (dir_options d))"
proof (induction rule: built_dir.induct)
  case (built_create dir)
  then show ?case by (simp add: create_dir_conf_def)
next
  case (built_cmd st ctx d)
  then show ?case
    using call_directive_dir_conf [of A ctx d st] by (auto simp: set_dir_option_def tbl.unique_set)
next
  case (built_merge cur new)
  then show ?case by (simp add: merge_dir_conf_def tbl.unique_compress)
qed

lemma merge_lookup:
  assumes "built_dir A cur" "built_dir A new"
  shows "tbl_get (apr_tables A) (dir_options (merge_dir_conf A cur new)) k =
    (case tbl_get (apr_tables A) (dir_options new) k of
       Some v \<Rightarrow> Some v | None \<Rightarrow> tbl_get (apr_tables A) (dir_options cur) k)"
proof -
  have "last_entry k (tbl_elts (apr_tables A) (dir_options d)) = tbl_get (apr_tables A) (dir_options d) k"
    if "built_dir A d" for d
    using built_dir_unique [OF that] by (simp add: last_entry_unique tbl.get_elts)
  then show ?thesis using assms
    by (simp add: merge_dir_conf_def tbl.get_overlay_compress split: option.split)
qed

text \<open>The handlers after directives that start from none: the declared ones, with their last parameters.\<close>

lemma spec_run_handlers:
  assumes "spec_run ds Map.empty = Some (handlers_abs A st)"
  shows "case gate_handler_config A (server_conf st) hn of
      None \<Rightarrow> Set_gate_filter_declare hn \<notin> set ds
    | Some h \<Rightarrow> Set_gate_filter_declare hn \<in> set ds \<and> h_get (apr_values A) h k = last_param hn k ds"
proof -
  have dom: "dom (handlers_abs A st) = {hn. Set_gate_filter_declare hn \<in> set ds}"
    using spec_run_dom [OF assms] by (fastforce simp: declares_def split: directive_call.splits)
  show ?thesis
  proof (cases "gate_handler_config A (server_conf st) hn")
    case None
    then have "hn \<notin> dom (handlers_abs A st)" by (simp add: handlers_abs_def domIff)
    with None dom show ?thesis by simp
  next
    case (Some h)
    then have "hn \<in> dom (handlers_abs A st)" by (simp add: handlers_abs_def domIff)
    with Some dom show ?thesis
      using spec_run_param [OF assms, of hn k]
      by (simp add: handlers_abs_def param_of_def option.case_eq_if split: if_splits)
  qed
qed

lemma run_calls_initial:
  "case run_calls A (map (Pair None) ds) (initial_conf A dir e) of
     Inl err \<Rightarrow> \<not> declared_first {} ds \<and> (\<exists>hn. err = Not_registered hn)
   | Inr st \<Rightarrow> declared_first {} ds \<and>
       (\<forall>hn k. case gate_handler_config A (server_conf st) hn of
          None \<Rightarrow> Set_gate_filter_declare hn \<notin> set ds
        | Some h \<Rightarrow> Set_gate_filter_declare hn \<in> set ds \<and> h_get (apr_values A) h k = last_param hn k ds)"
proof (cases "run_calls A (map (Pair None) ds) (initial_conf A dir e)")
  case (Inl err)
  then show ?thesis
    using run_calls_refines [of ds "initial_conf A dir e"] spec_run_defined [of ds Map.empty]
    by (auto simp: handlers_abs_initial)
next
  case (Inr st)
  then have run: "spec_run ds Map.empty = Some (handlers_abs A st)"
    using run_calls_refines [of ds "initial_conf A dir e"] by (simp add: handlers_abs_initial)
  show ?thesis using Inr run spec_run_defined [of ds Map.empty] spec_run_handlers [OF run] by auto
qed

end

section \<open>Properties\<close>

text \<open>
  Claim C8.  Start from the configuration that \<open>create_config\<close> makes and call the directive functions
  for directives outside every section, in any sequence.  No call returns an error exactly when
  every call of \<open>set_gate_filter_database\<close> and of \<open>set_gate_filter_config\<close> for a handler comes after a
  call of \<open>set_gate_filter_declare\<close> for it; the error is that the handler is not registered.
  Without an error, exactly the declared handlers exist and each of their parameters has the
  value it was given last (declaring a handler again keeps its parameters).
\<close>

theorem run_calls_accepts:
  assumes "apr_lib A"
  shows "case run_calls A (map (Pair None) ds) (initial_conf A dir e) of
     Inl err \<Rightarrow> \<not> declared_first {} ds \<and> (\<exists>hn. err = Not_registered hn)
   | Inr st \<Rightarrow> declared_first {} ds \<and>
       (\<forall>hn k. case gate_handler_config A (server_conf st) hn of
          None \<Rightarrow> Set_gate_filter_declare hn \<notin> set ds
        | Some h \<Rightarrow> Set_gate_filter_declare hn \<in> set ds \<and> h_get (apr_values A) h k = last_param hn k ds)"
  using apr_lib.run_calls_initial [OF assms] .

definition sample_conf :: "directive_call list" where
  "sample_conf = [Set_gate_filter_declare ''MYGATE'', Set_gate_filter_database ''MYGATE'' ''/etc/gate.db'', Set_gate_filter ''MYGATE'']"

theorem run_calls_accepts_witness:
  "apr_lib alist_apr \<and>
   (case run_calls alist_apr (map (Pair None) sample_conf) (initial_conf alist_apr None Map.empty) of
     Inl err \<Rightarrow> \<not> declared_first {} sample_conf \<and> (\<exists>hn. err = Not_registered hn)
   | Inr st \<Rightarrow> declared_first {} sample_conf \<and>
       (\<forall>hn k. case gate_handler_config alist_apr (server_conf st) hn of
          None \<Rightarrow> Set_gate_filter_declare hn \<notin> set sample_conf
        | Some h \<Rightarrow> Set_gate_filter_declare hn \<in> set sample_conf \<and>
            h_get (apr_values alist_apr) h k = last_param hn k sample_conf))"
  by (intro conjI run_calls_accepts alist_lib.apr_lib_axioms)

text \<open>
  The name of a line in the configuration file does not say which function of the
  module handles \<open>GateConfig\<close>.  Every other name has at most one row in the command table.  For
  \<open>GateConfig\<close>, whichever rows of that name the server tries for a line, it cannot accept both the
  form with two arguments (a setting of the server or of a directory) and the form with three (a
  setting of a handler): a row that takes one refuses the other.
\<close>

lemma config_forms_exclusive:
  assumes "rows \<noteq> []" "list_all (\<lambda>c. c \<in> set (rows_named ''GateConfig'')) rows"
  shows "(\<not> same_key ''GateConfig'' nam \<longrightarrow> length (rows_named nam) \<le> 1) \<and>
    \<not> (row_takes rows [k, v] \<and> row_takes rows [hn, k', v'])"
proof (intro conjI impI)
  assume "\<not> same_key ''GateConfig'' nam"
  then show "length (rows_named nam) \<le> 1"
    by (auto simp: rows_named_def mod_gate_cmds_def command_rows same_key_def)
next
  obtain c where "c \<in> set rows" using assms(1) by (cases rows) auto
  then have "c \<in> set (rows_named ''GateConfig'')" using assms(2) by (simp add: list_all_iff)
  then have "cmd_func c [k, v] = None \<or> cmd_func c [hn, k', v'] = None"
    by (auto simp: rows_named_def mod_gate_cmds_def command_rows same_key_def)
  with \<open>c \<in> set rows\<close> show "\<not> (row_takes rows [k, v] \<and> row_takes rows [hn, k', v'])"
    by (auto simp: row_takes_def list_all_iff)
qed

text \<open>
  A directive in a directory section never touches the server configuration, one
  outside never touches the directory configuration, and a directive that reports an error
  changes nothing.
\<close>

lemma call_directive_frame:
  "(if ctx = None then dir_conf (fst (call_directive A ctx d st)) = dir_conf st
    else server_conf (fst (call_directive A ctx d st)) = server_conf st) \<and>
   (snd (call_directive A ctx d st) = None \<or> fst (call_directive A ctx d st) = st)"
  by (cases d; cases ctx) (auto simp: directive_defs Let_def split: option.splits)

text \<open>
  Claim C20.  Merging an outer and an inner directory configuration, however they were built
  from directives and merges, gives every option its value in the inner one if it has one,
  else its value in the outer one.
\<close>

theorem merge_dir_conf_overrides:
  assumes "apr_lib A" "built_dir A cur" "built_dir A new"
  shows "tbl_get (apr_tables A) (dir_options (merge_dir_conf A cur new)) k =
    (case tbl_get (apr_tables A) (dir_options new) k of
       Some v \<Rightarrow> Some v | None \<Rightarrow> tbl_get (apr_tables A) (dir_options cur) k)"
  using apr_lib.merge_lookup [OF assms] .

definition sample_dir :: "cstring \<Rightarrow> entry list gate_dir_config" where
  "sample_dir v = dir_conf (fst (call_directive alist_apr (Some ''in section'') (Set_gate_filter v)
     (initial_conf alist_apr None Map.empty)))"

lemma sample_dir_built: "built_dir alist_apr (sample_dir v)"
proof -
  have "built_dir alist_apr (dir_conf (initial_conf alist_apr None Map.empty))"
    by (simp add: initial_conf_def built_create)
  then show ?thesis unfolding sample_dir_def by (rule built_cmd)
qed

theorem merge_dir_conf_overrides_witness:
  "tbl_get (apr_tables alist_apr) (dir_options (merge_dir_conf alist_apr (sample_dir ''A'') (sample_dir ''B''))) ''Gate'' =
    (case tbl_get (apr_tables alist_apr) (dir_options (sample_dir ''B'')) ''Gate'' of
       Some v \<Rightarrow> Some v | None \<Rightarrow> tbl_get (apr_tables alist_apr) (dir_options (sample_dir ''A'')) ''Gate'')"
  by (rule merge_dir_conf_overrides [OF alist_lib.apr_lib_axioms sample_dir_built sample_dir_built])

end
