(* ===== verification/Table_Wrapper.thy ===== *)
theory Table_Wrapper
  imports Apr
begin

text \<open>
  The C++ wrapper of APR tables, \<open>src/src/apr_table.cpp\<close>: the forwarding operations of
  \<open>modgate::apr::table\<close>, its iterator (a position in the array of entries, \<open>-1\<close> before the
  first one) and \<open>join\<close>.  A read through the iterator outside the array is \<open>None\<close>; the null
  pointer that \<open>key\<close> and \<open>data\<close> return before the first entry is \<open>Some None\<close>.
\<close>

section \<open>The table\<close>

definition table_new :: "'t table_api \<Rightarrow> 't" where
  "table_new T = tbl_make T"

definition table_size :: "'t table_api \<Rightarrow> 't \<Rightarrow> nat" where
  "table_size T t = length (tbl_elts T t)"

definition table_clear :: "'t table_api \<Rightarrow> 't \<Rightarrow> 't" where
  "table_clear T t = tbl_clear T t"

definition table_get :: "'t table_api \<Rightarrow> 't \<Rightarrow> cstring \<Rightarrow> cstring option" where
  "table_get T t key = tbl_get T t key"

definition table_set :: "'t table_api \<Rightarrow> 't \<Rightarrow> cstring \<Rightarrow> cstring \<Rightarrow> 't" where
  "table_set T t key val = tbl_set T t key val"

definition table_add :: "'t table_api \<Rightarrow> 't \<Rightarrow> cstring \<Rightarrow> cstring \<Rightarrow> 't" where
  "table_add T t key val = tbl_add T t key val"

definition table_merge :: "'t table_api \<Rightarrow> 't \<Rightarrow> cstring \<Rightarrow> cstring \<Rightarrow> 't" where
  "table_merge T t key val = tbl_merge T t key val"

definition table_unset :: "'t table_api \<Rightarrow> 't \<Rightarrow> cstring \<Rightarrow> 't" where
  "table_unset T t key = tbl_unset T t key"

definition table_begin :: "'t table_api \<Rightarrow> 't \<Rightarrow> entry list" where
  "table_begin T t = tbl_elts T t"

section \<open>The iterator\<close>

record iterator =
  it_h :: "entry list"
  it_i :: int

abbreviation nelts :: "iterator \<Rightarrow> int" where
  "nelts it \<equiv> int (length (it_h it))"

definition iter_assign :: "entry list \<Rightarrow> iterator" where
  "iter_assign h = \<lparr>it_h = h, it_i = -1\<rparr>"

definition iter_of :: "'t table_api \<Rightarrow> 't \<Rightarrow> iterator" where
  "iter_of T t = iter_assign (tbl_elts T t)"

definition iter_index :: "iterator \<Rightarrow> int" where
  "iter_index it = it_i it"

definition iter_seek :: "iterator \<Rightarrow> int \<Rightarrow> iterator \<times> bool" where
  "iter_seek it idx = (if idx < nelts it then (it\<lparr>it_i := idx\<rparr>, True) else (it, False))"

text \<open>\<open>table::operator[]\<close> on a position\<close>

definition table_at :: "'t table_api \<Rightarrow> 't \<Rightarrow> int \<Rightarrow> iterator" where
  "table_at T t idx = fst (iter_seek (iter_of T t) idx)"

definition iter_entry :: "iterator \<Rightarrow> entry option" where
  "iter_entry it = (if 0 \<le> it_i it \<and> it_i it < nelts it then Some (it_h it ! nat (it_i it)) else None)"

definition iter_key :: "iterator \<Rightarrow> cstring option option" where
  "iter_key it = (if it_i it \<noteq> -1 then map_option (\<lambda>e. Some (fst e)) (iter_entry it) else Some None)"

definition iter_data :: "iterator \<Rightarrow> cstring option option" where
  "iter_data it = (if it_i it \<noteq> -1 then map_option (\<lambda>e. Some (snd e)) (iter_entry it) else Some None)"

definition iter_rewind :: "iterator \<Rightarrow> iterator \<times> bool" where
  "iter_rewind it = (it\<lparr>it_i := -1\<rparr>, True)"

definition iter_first :: "iterator \<Rightarrow> iterator \<times> bool" where
  "iter_first it = (if nelts it > 0 then it\<lparr>it_i := 0\<rparr> else it, True)"

definition iter_last :: "iterator \<Rightarrow> iterator \<times> bool" where
  "iter_last it = (if nelts it > 0 then (it\<lparr>it_i := nelts it - 1\<rparr>, True) else (it, False))"

definition iter_next :: "iterator \<Rightarrow> iterator \<times> bool" where
  "iter_next it =
     (if it_i it = nelts it - 1 then (it, False)
      else if nelts it > 0 then (it\<lparr>it_i := it_i it + 1\<rparr>, True)
      else (it, False))"

definition iter_prev :: "iterator \<Rightarrow> iterator \<times> bool" where
  "iter_prev it =
     (if it_i it \<noteq> -1 then
        let it' = it\<lparr>it_i := it_i it - 1\<rparr>
        in if it_i it' < 0 then (it', False) else (it', True)
      else (it, False))"

text \<open>
  A loop \<open>while (i.next()) body\<close>, with the variables of the body in \<open>x\<close>.  It may not end on an
  iterator outside its array, hence the partial function; \<open>None\<close> is also undefined
  behaviour of the body.
\<close>

partial_function (option) while_next ::
  "(iterator \<Rightarrow> 'x \<Rightarrow> 'x option) \<Rightarrow> iterator \<Rightarrow> 'x \<Rightarrow> 'x option" where
  "while_next body it x =
     (case iter_next it of (it', ok) \<Rightarrow>
        if ok then do { x' \<leftarrow> body it' x; while_next body it' x' } else Some x)"

text \<open>The text \<open>key=data\<close>, undefined for null pointers and outside the array.\<close>

definition iter_pair :: "iterator \<Rightarrow> (cstring \<times> cstring) option" where
  "iter_pair it = do {
     k \<leftarrow> iter_key it; d \<leftarrow> iter_data it;
     ks \<leftarrow> k; ds \<leftarrow> d;
     Some (ks, ds)
   }"

text \<open>The body of the loop of \<open>join\<close>; \<open>len\<close> is the size of the table.\<close>

definition join_body :: "cstring \<Rightarrow> int \<Rightarrow> iterator \<Rightarrow> cstring \<Rightarrow> cstring option" where
  "join_body sep len it strm = do {
     (k, d) \<leftarrow> iter_pair it;
     let strm1 = strm @ k @ ''='' @ d;
     Some (if iter_index it < len - 1 then strm1 @ sep else strm1)
   }"

definition table_join :: "'t table_api \<Rightarrow> 't \<Rightarrow> cstring \<Rightarrow> cstring option" where
  "table_join T t sep = while_next (join_body sep (int (table_size T t))) (iter_of T t) ''''"

section \<open>The invariant of the iterator\<close>

definition iter_ok :: "iterator \<Rightarrow> bool" where
  "iter_ok it \<longleftrightarrow> it_i it = -1 \<or> 0 \<le> it_i it \<and> it_i it < nelts it"

lemmas iter_defs = iter_ok_def iter_assign_def iter_of_def iter_seek_def iter_rewind_def
  iter_first_def iter_last_def iter_next_def iter_prev_def iter_entry_def

lemma iter_ok_of [simp]: "iter_ok (iter_of T t)"
  by (simp add: iter_defs)

lemma iter_ok_next: "iter_ok it \<Longrightarrow> iter_ok (fst (iter_next it))"
  by (auto simp: iter_defs)

lemma iter_ok_steps:
  assumes "iter_ok it"
  shows "iter_ok (fst (iter_rewind it))" "iter_ok (fst (iter_first it))" "iter_ok (fst (iter_last it))"
    "iter_ok (fst (iter_prev it))" "-1 \<le> idx \<Longrightarrow> iter_ok (fst (iter_seek it idx))"
  using assms by (auto simp: iter_defs Let_def)

lemma iter_next_cases:
  assumes "iter_ok it"
  shows "(iter_next it = (it, False) \<and> drop (nat (it_i it + 1)) (it_h it) = []) \<or>
    (iter_next it = (it\<lparr>it_i := it_i it + 1\<rparr>, True) \<and> 0 \<le> it_i it + 1 \<and> it_i it + 1 < nelts it)"
  using assms by (auto simp: iter_defs)

section \<open>Iteration\<close>

definition pair_text :: "entry \<Rightarrow> cstring" where
  "pair_text e = fst e @ ''='' @ snd e"

fun separated :: "cstring \<Rightarrow> cstring list \<Rightarrow> cstring" where
  "separated sep [] = ''''"
| "separated sep [x] = x"
| "separated sep (x # y # xs) = x @ sep @ separated sep (y # xs)"

lemma iter_pair_at: "k < length h \<Longrightarrow> iter_pair \<lparr>it_h = h, it_i = int k\<rparr> = Some (h ! k)"
  by (simp add: iter_pair_def iter_key_def iter_data_def iter_entry_def)

lemma next_entry:
  "j < length h \<Longrightarrow> iter_next \<lparr>it_h = h, it_i = int j - 1\<rparr> = (\<lparr>it_h = h, it_i = int j\<rparr>, True)"
  by (cases "h = []") (auto simp: iter_next_def)

text \<open>
  The loop visits the entries behind the iterator, in order, once each: if the body is
  defined on every entry then so is the loop.
\<close>

lemma while_next_fold:
  assumes body: "\<And>k x. k < length h \<Longrightarrow> body \<lparr>it_h = h, it_i = int k\<rparr> x = Some (f k (h ! k) x)"
    and j: "j \<le> length h"
  shows "while_next body \<lparr>it_h = h, it_i = int j - 1\<rparr> x = Some (fold (\<lambda>k. f k (h ! k)) [j..<length h] x)"
  using j
proof (induction "length h - j" arbitrary: j x)
  case 0
  then show ?case by (subst while_next.simps) (simp add: iter_next_def)
next
  case (Suc n)
  then have less: "j < length h" by simp
  have up: "[j..<length h] = j # [Suc j..<length h]" using less by (rule upt_conv_Cons)
  show ?case
    using Suc.hyps(1) [of "Suc j" "f j (h ! j) x"] Suc.hyps(2) less
    by (subst while_next.simps) (simp add: next_entry body up)
qed

corollary while_next_all:
  assumes "\<And>k x. k < length (tbl_elts T t) \<Longrightarrow>
    body \<lparr>it_h = tbl_elts T t, it_i = int k\<rparr> x = Some (f k (tbl_elts T t ! k) x)"
  shows "while_next body (iter_of T t) x =
    Some (fold (\<lambda>k. f k (tbl_elts T t ! k)) [0..<length (tbl_elts T t)] x)"
  using while_next_fold [of "tbl_elts T t" body f 0 x] assms
  by (simp add: iter_of_def iter_assign_def)

lemma fold_nth: "fold (\<lambda>k. f (h ! k)) [0..<length h] x = fold f h x"
  using fold_map [of f "(!) h" "[0..<length h]"] by (simp add: map_nth o_def)

lemma separated_Cons: "xs \<noteq> [] \<Longrightarrow> separated sep (x # xs) = x @ sep @ separated sep xs"
  by (cases xs) auto

lemma fold_join:
  assumes "j \<le> length h"
  shows "fold (\<lambda>k strm. if k + 1 < length h then (strm @ pair_text (h ! k)) @ sep else strm @ pair_text (h ! k))
      [j..<length h] strm = strm @ separated sep (map pair_text (drop j h))"
  using assms
proof (induction "length h - j" arbitrary: j strm)
  case (Suc n)
  then have less: "j < length h" by simp
  then have up: "[j..<length h] = j # [Suc j..<length h]" and d: "drop j h = h ! j # drop (Suc j) h"
    by (simp_all add: upt_conv_Cons Cons_nth_drop_Suc)
  have ne: "Suc j < length h \<longleftrightarrow> map pair_text (drop (Suc j) h) \<noteq> []" by auto
  show ?case
    using Suc.hyps(1) [of "Suc j"] Suc.hyps(2) less ne by (auto simp: up d separated_Cons)
qed simp

text \<open>
  Claim C35.  \<open>table::join\<close> visits every entry of the table once, in order: it terminates, reads
  only inside the array, and its result is the list of \<open>key=value\<close> texts with the separator
  between each two and none at the ends.
\<close>

theorem table_join_separated:
  "table_join T t sep = Some (separated sep (map pair_text (tbl_elts T t)))"
proof -
  let ?h = "tbl_elts T t"
  let ?f = "\<lambda>k e strm. if k + 1 < length ?h then (strm @ pair_text e) @ sep else strm @ pair_text e"
  have body: "join_body sep (int (length ?h)) \<lparr>it_h = ?h, it_i = int k\<rparr> x =
      Some (?f k (?h ! k) x)"
    if "k < length ?h" for k x
    using that by (auto simp: join_body_def iter_pair_at iter_index_def pair_text_def split: prod.splits)
  show ?thesis
    using while_next_all [where f = ?f, OF body] fold_join [of 0 ?h sep "''''"] by (simp add: table_join_def table_size_def)
qed

text \<open>
  On an iterator in its array, \<open>next\<close> refuses exactly at the last entry and then
  leaves the position alone; otherwise it stands on the next entry of the array, and \<open>prev\<close>
  leads back from there.
\<close>

lemma iter_next_prev:
  assumes "iter_ok it"
  shows "case iter_next it of (it', more_left) \<Rightarrow>
    more_left = (it_i it + 1 < nelts it) \<and> iter_ok it' \<and>
    (if more_left then iter_entry it' = Some (it_h it ! nat (it_i it + 1)) \<and> fst (iter_prev it') = it
     else it' = it)"
  using assms by (auto simp: iter_defs Let_def)

end
