(* ===== verification/Text_Numbers.thy ===== *)
theory Text_Numbers
  imports Prelude
begin

text \<open>
  Decimal text: what a C++ stream writes for an integer, what \<open>atoi\<close> reads back, and the
  fields of a separated text.  Used by the models that build SQL statements and parse
  addresses.
\<close>

definition is_digit :: "char \<Rightarrow> bool" where
  "is_digit c \<longleftrightarrow> 48 \<le> (of_char c :: nat) \<and> (of_char c :: nat) \<le> 57"

definition digit_char :: "nat \<Rightarrow> char" where
  "digit_char d = char_of (48 + d)"

definition digit_val :: "char \<Rightarrow> nat" where
  "digit_val c = of_char c - 48"

lemma of_char_digit_char: "d < 10 \<Longrightarrow> (of_char (digit_char d) :: nat) = 48 + d"
  by (simp add: digit_char_def)

lemma is_digit_digit_char [simp]: "d < 10 \<Longrightarrow> is_digit (digit_char d)"
  by (simp add: is_digit_def of_char_digit_char)

lemma digit_val_digit_char [simp]: "d < 10 \<Longrightarrow> digit_val (digit_char d) = d"
  by (simp add: digit_val_def of_char_digit_char)

function dec_nat :: "nat \<Rightarrow> cstring" where
  "dec_nat n = (if n < 10 then [digit_char n] else dec_nat (n div 10) @ [digit_char (n mod 10)])"
  by pat_completeness auto
termination by (relation "measure id") auto

declare dec_nat.simps [simp del]

definition dec_int :: "int \<Rightarrow> cstring" where
  "dec_int i = (if i < 0 then CHR ''-'' # dec_nat (nat (- i)) else dec_nat (nat i))"

definition nat_of_digits :: "cstring \<Rightarrow> nat" where
  "nat_of_digits s = foldl (\<lambda>v c. 10 * v + digit_val c) 0 s"

lemma dec_nat_digits: "\<forall>c\<in>set (dec_nat n). is_digit c"
proof (induction n rule: dec_nat.induct)
  case (1 n)
  then show ?case by (cases "n < 10") (auto simp: dec_nat.simps [of n])
qed

lemma nat_of_dec_nat [simp]: "nat_of_digits (dec_nat n) = n"
proof (induction n rule: dec_nat.induct)
  case (1 n)
  then show ?case
    by (cases "n < 10") (simp_all add: dec_nat.simps [of n] nat_of_digits_def)
qed

lemma dec_nat_neq_Nil [simp]: "dec_nat n \<noteq> []"
  by (simp add: dec_nat.simps [of n])

lemma dec_nat_inject [simp]: "dec_nat m = dec_nat n \<longleftrightarrow> m = n"
  by (metis nat_of_dec_nat)

lemma not_digit_chars [simp]:
  "\<not> is_digit (CHR '' '')" "\<not> is_digit (CHR '','')" "\<not> is_digit (CHR ''-'')" "\<not> is_digit (CHR ''.'')"
  "\<not> is_digit (CHR ''%'')"
  by (simp_all add: is_digit_def)

lemma dec_nat_no [simp]: "\<not> is_digit c \<Longrightarrow> c \<notin> set (dec_nat n)"
  using dec_nat_digits by blast

lemma dec_int_no_percent [simp]: "CHR ''%'' \<notin> set (dec_int i)"
  by (simp add: dec_int_def)

lemma takeWhile_dec_nat:
  "\<not> is_digit c \<Longrightarrow> takeWhile is_digit (dec_nat n @ c # s) = dec_nat n"
  using dec_nat_digits by (simp add: takeWhile_append)

lemma dropWhile_dec_nat:
  "\<not> is_digit c \<Longrightarrow> dropWhile is_digit (dec_nat n @ c # s) = c # s"
  using dec_nat_digits by (simp add: dropWhile_append)

lemma takeWhile_dec_nat_end [simp]: "takeWhile is_digit (dec_nat n) = dec_nat n"
  using dec_nat_digits by (simp add: takeWhile_eq_all_conv)

section \<open>Reading numbers\<close>

text \<open>\<open>atoi\<close>, for results in the range of \<open>int\<close>: blanks, an optional sign, digits.\<close>

definition is_space :: "char \<Rightarrow> bool" where
  "is_space c \<longleftrightarrow> c = CHR '' '' \<or> (9 \<le> (of_char c :: nat) \<and> (of_char c :: nat) \<le> 13)"

definition atoi :: "cstring \<Rightarrow> int" where
  "atoi s =
     (let t = dropWhile is_space s;
          neg = (t \<noteq> [] \<and> hd t = CHR ''-'');
          u = (if t \<noteq> [] \<and> (hd t = CHR ''-'' \<or> hd t = CHR ''+'') then tl t else t);
          v = int (nat_of_digits (takeWhile is_digit u))
      in if neg then - v else v)"

lemma digit_not_other: "is_digit c \<Longrightarrow> \<not> is_space c \<and> c \<noteq> CHR ''-'' \<and> c \<noteq> CHR ''+''"
  by (auto simp: is_digit_def is_space_def)

lemma dec_nat_Cons: obtains d ds where "dec_nat n = d # ds" "is_digit d"
  using dec_nat_digits [of n] dec_nat_neq_Nil [of n] by (cases "dec_nat n") auto

lemma atoi_dec_int: "atoi (dec_int i) = i"
proof -
  have nat: "atoi (dec_nat n) = int n" for n
  proof -
    obtain d ds where d: "dec_nat n = d # ds" "is_digit d" by (rule dec_nat_Cons)
    have "takeWhile is_digit ds = ds" using dec_nat_digits [of n] d(1) by (simp add: takeWhile_eq_all_conv)
    with d show ?thesis
      using digit_not_other [OF d(2)] nat_of_dec_nat [of n] by (simp add: atoi_def takeWhile_eq_all_conv [THEN iffD2])
  qed
  have "\<not> is_space (CHR ''-'')" by (simp add: is_space_def)
  then have "atoi (CHR ''-'' # dec_nat n) = - int n" for n
    by (simp add: atoi_def)
  with nat show ?thesis by (simp add: dec_int_def)
qed

section \<open>Fields\<close>

text \<open>The pieces of a text between separators; there is one more of them than separators.\<close>

fun text_fields :: "char \<Rightarrow> cstring \<Rightarrow> cstring list" where
  "text_fields c [] = [[]]"
| "text_fields c (x # xs) =
     (if x = c then [] # text_fields c xs
      else case text_fields c xs of [] \<Rightarrow> [[x]] | f # fs \<Rightarrow> (x # f) # fs)"

lemma text_fields_neq_Nil [simp]: "text_fields c s \<noteq> []"
  by (induction s) (auto split: list.splits)

lemma text_fields_append_sep: "c \<notin> set a \<Longrightarrow> text_fields c (a @ c # s) = a # text_fields c s"
  by (induction a) auto

lemma text_fields_none: "c \<notin> set a \<Longrightarrow> text_fields c a = [a]"
  by (induction a) auto

end
