(* ===== verification/Sqlite.thy ===== *)
theory Sqlite
  imports Text_Numbers
begin

text \<open>
  The SQLite wrapper \<open>src/src/sqlite.cpp\<close>: the classes \<open>Database\<close> and \<open>Query\<close>.  SQLite itself is
  a parameter, the record \<open>sqlite_api\<close>; a database handle is a value \<open>'db\<close> that the calls
  thread through, a statement handle a value \<open>'stmt\<close>, null pointers are \<open>None\<close>.  The
  variadic arguments of the wrapper are never used by its callers, so \<open>sqlite3_vmprintf\<close>
  takes the format alone.

  The world records what the wrapper owes to SQLite: the number of statements not yet
  finalized, the statements executed, and what was printed on the standard error stream.
\<close>

abbreviation (input) "SQLITE_OK \<equiv> (0 :: int)"
abbreviation (input) "SQLITE_ROW \<equiv> (100 :: int)"
abbreviation (input) "SQLITE_DONE \<equiv> (101 :: int)"

record ('db, 'stmt) sqlite_api =
  sq_open :: "cstring option \<Rightarrow> int \<times> 'db"
  sq_vmprintf :: "cstring \<Rightarrow> cstring"
  sq_exec :: "'db \<Rightarrow> cstring \<Rightarrow> 'db \<times> int \<times> cstring option"
  sq_prepare :: "'db \<Rightarrow> cstring \<Rightarrow> int \<times> 'stmt option"
  sq_step :: "'db \<Rightarrow> 'stmt option \<Rightarrow> 'db \<times> 'stmt option \<times> int"
  sq_column_int :: "'stmt option \<Rightarrow> nat \<Rightarrow> 32 word"
  sq_column_text :: "'stmt option \<Rightarrow> nat \<Rightarrow> cstring option"
  sq_errmsg :: "'db \<Rightarrow> cstring"

record 'db world =
  w_db :: 'db
  w_live :: int
  w_executed :: "cstring list"
  w_stderr :: "cstring list"

definition eprint :: "cstring \<Rightarrow> 'db world \<Rightarrow> 'db world" where
  "eprint s w = w\<lparr>w_stderr := w_stderr w @ [s]\<rparr>"

section \<open>Query\<close>

record 'stmt query =
  q_error_code :: int
  q_stmt :: "'stmt option"

definition query_new :: "'stmt query" where
  "query_new = \<lparr>q_error_code = 0, q_stmt = None\<rparr>"

definition query_finalize :: "'stmt query \<Rightarrow> 'db world \<Rightarrow> 'stmt query \<times> 'db world" where
  "query_finalize q w =
     (if q_stmt q \<noteq> None then (q\<lparr>q_stmt := None\<rparr>, w\<lparr>w_live := w_live w - 1\<rparr>) else (q, w))"

text \<open>The common beginning of \<open>prepare\<close> and \<open>exists\<close>: an old statement is finalized first.\<close>

definition query_load ::
  "('db, 'stmt) sqlite_api \<Rightarrow> cstring \<Rightarrow> 'stmt query \<Rightarrow> 'db world \<Rightarrow> 'stmt query \<times> 'db world" where
  "query_load S sql q w =
     (let tmp = sq_vmprintf S sql;
          (q1, w1) = query_finalize q w;
          (rc, stmt) = sq_prepare S (w_db w1) tmp
      in (q1\<lparr>q_error_code := rc, q_stmt := stmt\<rparr>,
          w1\<lparr>w_live := w_live w1 + (if stmt \<noteq> None then 1 else 0)\<rparr>))"

text \<open>\<open>prepare\<close> throws a \<open>runtime_error\<close> with its text, the third component.\<close>

definition query_prepare ::
  "('db, 'stmt) sqlite_api \<Rightarrow> cstring \<Rightarrow> 'stmt query \<Rightarrow> 'db world
     \<Rightarrow> 'stmt query \<times> 'db world \<times> cstring option" where
  "query_prepare S sql q w =
     (let (q1, w1) = query_load S sql q w in
      if q_error_code q1 \<noteq> SQLITE_OK then
        (q1, w1, Some ('' ['' @ dec_int (q_error_code q1) @ ''] '' @ ''Query::prepare() failed --'' @
           sq_errmsg S (w_db w1) @ '' SQL: '' @ sql))
      else (q1, w1, None))"

definition query_step ::
  "('db, 'stmt) sqlite_api \<Rightarrow> 'stmt query \<Rightarrow> 'db world \<Rightarrow> 'stmt query \<times> 'db world \<times> int" where
  "query_step S q w =
     (let (db, stmt, rc) = sq_step S (w_db w) (q_stmt q)
      in (q\<lparr>q_error_code := rc, q_stmt := stmt\<rparr>, w\<lparr>w_db := db\<rparr>, rc))"

definition query_execute ::
  "('db, 'stmt) sqlite_api \<Rightarrow> cstring \<Rightarrow> 'stmt query \<Rightarrow> 'db world \<Rightarrow> 'stmt query \<times> 'db world \<times> int" where
  "query_execute S sql q w =
     (let tmp = sq_vmprintf S sql;
          (db, rc, err) = sq_exec S (w_db w) tmp;
          w1 = w\<lparr>w_db := db, w_executed := w_executed w @ [tmp]\<rparr>;
          w2 = (case err of
                  Some e \<Rightarrow> if rc \<noteq> SQLITE_OK then eprint (''execute() Error: '' @ e) w1 else w1
                | None \<Rightarrow> w1)
      in (q\<lparr>q_error_code := rc\<rparr>, w2, rc))"

text \<open>The error code of the preparation is overwritten by the step before it is looked at.\<close>

definition query_exists ::
  "('db, 'stmt) sqlite_api \<Rightarrow> cstring \<Rightarrow> 'stmt query \<Rightarrow> 'db world \<Rightarrow> 'stmt query \<times> 'db world \<times> bool" where
  "query_exists S sql q w =
     (let (q1, w1) = query_load S sql q w;
          (q2, w2, rc) = query_step S q1 w1;
          (q3, w3) = query_finalize q2 w2
      in (q3, w3, rc = SQLITE_ROW))"

definition query_error :: "('db, 'stmt) sqlite_api \<Rightarrow> cstring option \<Rightarrow> 'db world \<Rightarrow> cstring" where
  "query_error S msg w =
     (case msg of Some m \<Rightarrow> sq_vmprintf S m | None \<Rightarrow> '''') @ sq_errmsg S (w_db w)"

section \<open>Database\<close>

definition database_execute ::
  "('db, 'stmt) sqlite_api \<Rightarrow> cstring \<Rightarrow> 'db world \<Rightarrow> 'db world \<times> int" where
  "database_execute S sql w =
     (let tmp = sq_vmprintf S sql;
          (db, rc, err) = sq_exec S (w_db w) tmp;
          w1 = w\<lparr>w_db := db, w_executed := w_executed w @ [tmp]\<rparr>
      in if rc \<noteq> SQLITE_OK then
           (case err of
              Some e \<Rightarrow> (eprint (''execute() Error: '' @ e) w1, rc)
            | None \<Rightarrow> (w1, rc))
         else (w1, rc))"

definition database_error :: "('db, 'stmt) sqlite_api \<Rightarrow> 'db \<Rightarrow> cstring option \<Rightarrow> cstring" where
  "database_error S sdb msg =
     (case msg of Some m \<Rightarrow> sq_vmprintf S m | None \<Rightarrow> '''') @ sq_errmsg S sdb"

text \<open>
  \<open>count\<close> and \<open>value\<close> read the first column after one step; the local \<open>Query\<close> is finalized by its
  destructor, also when \<open>prepare\<close> throws.
\<close>

definition database_count ::
  "('db, 'stmt) sqlite_api \<Rightarrow> cstring \<Rightarrow> 'db world \<Rightarrow> 'db world \<times> (cstring + 32 word)" where
  "database_count S sql w =
     (case query_prepare S (sq_vmprintf S sql) query_new w of
        (q1, w1, Some e) \<Rightarrow> (snd (query_finalize q1 w1), Inl e)
      | (q1, w1, None) \<Rightarrow>
          let (q2, w2, rc) = query_step S q1 w1
          in (snd (query_finalize q2 w2), Inr (sq_column_int S (q_stmt q2) 0)))"

definition database_value ::
  "('db, 'stmt) sqlite_api \<Rightarrow> cstring \<Rightarrow> 'db world \<Rightarrow> 'db world \<times> (cstring + cstring)" where
  "database_value S sql w =
     (case query_prepare S (sq_vmprintf S sql) query_new w of
        (q1, w1, Some e) \<Rightarrow> (snd (query_finalize q1 w1), Inl e)
      | (q1, w1, None) \<Rightarrow>
          let (q2, w2, rc) = query_step S q1 w1;
              res = (case sq_column_text S (q_stmt q2) 0 of Some f \<Rightarrow> f | None \<Rightarrow> '''')
          in (snd (query_finalize q2 w2), Inr res))"

text \<open>Statements are balanced: the world counts exactly those that the query still holds.\<close>

definition owns :: "int \<Rightarrow> 'stmt query \<Rightarrow> 'db world \<Rightarrow> bool" where
  "owns base q w \<longleftrightarrow> w_live w = base + (if q_stmt q \<noteq> None then 1 else 0)"

section \<open>The behaviour of SQLite that the wrapper relies on\<close>

text \<open>
  A format without a percent sign is printed as it is; a statement handle stays valid over
  its steps, and stepping a null handle (\<open>SQLITE_MISUSE\<close>) gives no handle and no row.
\<close>

locale sqlite_lib =
  fixes S :: "('db, 'stmt) sqlite_api"
  assumes vmprintf_plain: "CHR ''%'' \<notin> set fmt \<Longrightarrow> sq_vmprintf S fmt = fmt"
    and step_handle: "sq_step S d s = (d', s', rc) \<Longrightarrow> s' = None \<longleftrightarrow> s = None"
    and step_null: "sq_step S d None = (d', s', rc) \<Longrightarrow> d' = d \<and> rc \<noteq> SQLITE_ROW"
begin

lemma owns_finalize: "owns b q w \<Longrightarrow> query_finalize q w = (q', w') \<Longrightarrow> owns b q' w' \<and> q_stmt q' = None"
  by (auto simp: owns_def query_finalize_def split: if_splits)

lemma owns_load: "owns b q w \<Longrightarrow> query_load S sql q w = (q', w') \<Longrightarrow> owns b q' w'"
  by (auto simp: owns_def query_load_def query_finalize_def Let_def split: prod.splits if_splits)

lemma owns_prepare: "owns b q w \<Longrightarrow> query_prepare S sql q w = (q', w', e) \<Longrightarrow> owns b q' w'"
  using owns_load by (auto simp: query_prepare_def Let_def split: prod.splits if_splits)

lemma owns_step:
  assumes "owns b q w" "query_step S q w = (q', w', rc)"
  shows "owns b q' w'"
proof -
  obtain d s where s: "sq_step S (w_db w) (q_stmt q) = (d, s, rc)"
      and q': "q' = q\<lparr>q_error_code := rc, q_stmt := s\<rparr>" and w': "w' = w\<lparr>w_db := d\<rparr>"
    using assms(2) by (auto simp: query_step_def Let_def split: prod.splits)
  from s have "s = None \<longleftrightarrow> q_stmt q = None" by (rule step_handle)
  with assms(1) show ?thesis by (simp add: owns_def q' w')
qed

lemma live_finalize: "owns b q w \<Longrightarrow> w_live (snd (query_finalize q w)) = b"
  by (auto simp: owns_def query_finalize_def)

lemma owns_new: "owns (w_live w) query_new w"
  by (simp add: owns_def query_new_def)

lemma live_exists: "query_exists S sql query_new w = (q', w', r) \<Longrightarrow> w_live w' = w_live w \<and> q_stmt q' = None"
proof -
  assume e: "query_exists S sql query_new w = (q', w', r)"
  obtain q1 w1 where l: "query_load S sql query_new w = (q1, w1)" by fastforce
  obtain q2 w2 rc where s: "query_step S q1 w1 = (q2, w2, rc)" by (cases "query_step S q1 w1") auto
  have "owns (w_live w) q2 w2" using owns_step [OF owns_load [OF owns_new l] s] .
  then show ?thesis using e l s live_finalize [of "w_live w" q2 w2] owns_finalize [of "w_live w" q2 w2 q' w']
    by (auto simp: query_exists_def Let_def split: prod.splits)
qed

lemma live_query:
  assumes "query_prepare S sql query_new w = (q1, w1, e)"
  shows "w_live (snd (query_finalize q1 w1)) = w_live w"
    and "query_step S q1 w1 = (q2, w2, rc) \<Longrightarrow> w_live (snd (query_finalize q2 w2)) = w_live w"
proof -
  have o1: "owns (w_live w) q1 w1" using owns_prepare [OF owns_new assms] .
  show "w_live (snd (query_finalize q1 w1)) = w_live w" using o1 by (rule live_finalize)
  show "w_live (snd (query_finalize q2 w2)) = w_live w" if "query_step S q1 w1 = (q2, w2, rc)"
    using owns_step [OF o1 that] by (rule live_finalize)
qed

lemma live_count: "w_live (fst (database_count S sql w)) = w_live w"
  using live_query [of "sq_vmprintf S sql" w]
  by (auto simp: database_count_def split: prod.splits option.splits)

lemma live_value: "w_live (fst (database_value S sql w)) = w_live w"
  using live_query [of "sq_vmprintf S sql" w]
  by (auto simp: database_value_def Let_def split: prod.splits option.splits)

end

end
