(* ===== verification/Endian.thy ===== *)
theory Endian
  imports Text_Numbers
begin

text \<open>
  Byte order: \<open>swap_endian\<close> of \<open>src/src/endian.cpp\<close> with its static buffer, and the conversion of
  a textual IPv4 address into the number that the databases hold, as \<open>module.cpp\<close> and
  \<open>gatedb.cpp\<close> do it with \<open>inet_pton\<close> and \<open>htonl\<close>.
\<close>

section \<open>swap-endian\<close>

text \<open>
  The static buffer, of 16 bytes, is part of the state; the result of the C function is a pointer to
  it.  The object at \<open>addr\<close> is another one than the buffer.  \<open>None\<close> is a read outside that object.
\<close>

definition swap_endian :: "byte list \<Rightarrow> int \<Rightarrow> byte list \<Rightarrow> byte list option" where
  "swap_endian addr sz buf =
     (if sz \<in> {2, 4, 8, 16} \<and> int (length addr) < sz then None
      else if sz = 2 then Some (buf[0 := addr ! 1, 1 := addr ! 0])
      else if sz = 4 then Some (buf[0 := addr ! 3, 1 := addr ! 2, 2 := addr ! 1, 3 := addr ! 0])
      else if sz = 8 then Some (buf[0 := addr ! 7, 1 := addr ! 6, 2 := addr ! 5, 3 := addr ! 4, 4 := addr ! 3, 5 := addr ! 2, 6 := addr ! 1, 7 := addr ! 0])
      else if sz = 16 then Some (buf[0 := addr ! 15, 1 := addr ! 14, 2 := addr ! 13, 3 := addr ! 12, 4 := addr ! 11, 5 := addr ! 10, 6 := addr ! 9, 7 := addr ! 8,
                  8 := addr ! 7, 9 := addr ! 6, 10 := addr ! 5, 11 := addr ! 4, 12 := addr ! 3, 13 := addr ! 2, 14 := addr ! 1, 15 := addr ! 0])
      else Some buf)"

section \<open>Addresses\<close>

text \<open>A 32-bit value from its bytes, the first byte the most significant, and back.\<close>

definition word_of_bytes :: "byte list \<Rightarrow> 32 word" where
  "word_of_bytes bs = foldl (\<lambda>w b. w * 256 + ucast b) 0 bs"

definition bytes_of_word :: "32 word \<Rightarrow> byte list" where
  "bytes_of_word w = map (\<lambda>k. ucast (drop_bit k w)) [24, 16, 8, 0]"

text \<open>Reading a \<open>uint32_t\<close> from memory and \<open>htonl\<close>, on a host of either byte order.\<close>

definition load32 :: "bool \<Rightarrow> byte list \<Rightarrow> 32 word" where
  "load32 big_endian bs = word_of_bytes (if big_endian then bs else rev bs)"

definition htonl :: "bool \<Rightarrow> 32 word \<Rightarrow> 32 word" where
  "htonl big_endian w = (if big_endian then w else word_of_bytes (rev (bytes_of_word w)))"

text \<open>\<open>inet_pton(AF_INET, s, &a)\<close>: four decimal numbers of one to three digits, at most 255.\<close>

definition octet :: "cstring \<Rightarrow> byte option" where
  "octet s =
     (if s \<noteq> [] \<and> length s \<le> 3 \<and> list_all is_digit s \<and> (length s = 1 \<or> hd s \<noteq> CHR ''0'') \<and>
         nat_of_digits s \<le> 255
      then Some (of_nat (nat_of_digits s)) else None)"

definition inet_pton :: "cstring \<Rightarrow> byte list option" where
  "inet_pton s =
     (case text_fields (CHR ''.'') s of
        [a, b, c, d] \<Rightarrow> do {
          a' \<leftarrow> octet a; b' \<leftarrow> octet b; c' \<leftarrow> octet c; d' \<leftarrow> octet d;
          Some [a', b', c', d']
        }
      | _ \<Rightarrow> None)"

text \<open>
  \<open>htonl(ipvalue.s_addr)\<close> after a successful \<open>inet_pton\<close>, which stores the bytes in network
  order.
\<close>

definition ip_number :: "bool \<Rightarrow> cstring \<Rightarrow> 32 word option" where
  "ip_number big_endian s = map_option (\<lambda>bs. htonl big_endian (load32 big_endian bs)) (inet_pton s)"

definition dotted :: "byte \<Rightarrow> byte \<Rightarrow> byte \<Rightarrow> byte \<Rightarrow> cstring" where
  "dotted a b c d = dec_nat (unat a) @ ''.'' @ dec_nat (unat b) @ ''.'' @ dec_nat (unat c) @ ''.'' @ dec_nat (unat d)"

section \<open>Lemmas\<close>

lemma unat_word_of_bytes:
  "unat (word_of_bytes [a, b, c, d]) = unat a * 2 ^ 24 + unat b * 2 ^ 16 + unat c * 2 ^ 8 + unat d"
proof -
  let ?n = "unat a * 2 ^ 24 + unat b * 2 ^ 16 + unat c * 2 ^ 8 + unat d"
  have u: "(ucast x :: 32 word) = of_nat (unat x)" for x :: byte by simp
  have "word_of_bytes [a, b, c, d] = of_nat ?n"
    by (simp add: word_of_bytes_def u algebra_simps del: of_nat_unat)
  moreover have "unat x < 256" for x :: byte using unsigned_less [of x, where ?'a = nat] by simp
  from this [of a] this [of b] this [of c] this [of d] have "?n < 2 ^ 32" by simp
  ultimately show ?thesis by (simp only: unsigned_of_nat) (simp add: take_bit_nat_eq_self)
qed

lemma byte_digits:
  fixes a b c d :: nat
  assumes "a < 256" "b < 256" "c < 256" "d < 256"
  defines "n \<equiv> a * 2 ^ 24 + b * 2 ^ 16 + c * 2 ^ 8 + d"
  shows "n div 2 ^ 24 mod 256 = a" "n div 2 ^ 16 mod 256 = b" "n div 2 ^ 8 mod 256 = c" "n mod 256 = d"
proof -
  have n: "n = d + 256 * (c + 256 * (b + 256 * a))" by (simp add: n_def)
  have step: "(x + 256 * y) div 256 = y" "(x + 256 * y) mod 256 = x" if "x < 256" for x y :: nat
    using that by simp_all
  have q: "n div 2 ^ 8 = c + 256 * (b + 256 * a)" "n div 2 ^ 16 = b + 256 * a" "n div 2 ^ 24 = a"
    using assms step by (simp_all add: n div_mult2_eq [of _ 256 256, simplified]
        div_mult2_eq [of _ 256 65536, simplified])
  show "n div 2 ^ 24 mod 256 = a" "n div 2 ^ 16 mod 256 = b" "n div 2 ^ 8 mod 256 = c"
    using assms(1-4) step by (simp_all only: q mod_less)
  show "n mod 256 = d" unfolding n using assms(4) by (rule step(2))
qed

lemma bytes_word_of_bytes: "bytes_of_word (word_of_bytes [a, b, c, d]) = [a, b, c, d]"
proof -
  have lt: "unat x < 256" for x :: byte using unsigned_less [of x, where ?'a = nat] by simp
  have byte: "(ucast (drop_bit k w) :: byte) = x" if "unat w div 2 ^ k mod 256 = unat x" for k and w :: "32 word" and x
    using that by (simp only: word_unat_eq_iff unsigned_ucast_eq unat_drop_bit_eq) (simp add: take_bit_eq_mod drop_bit_eq_div)
  show ?thesis
    unfolding bytes_of_word_def using lt [of a] lt [of b] lt [of c] lt [of d]
    byte_digits [OF lt lt lt lt, of a b c d]
    by (simp add: byte unat_word_of_bytes del: drop_bit_0) 
qed

lemma ip_number_bytes:
  "inet_pton s = Some [a, b, c, d] \<Longrightarrow> ip_number big s = Some (word_of_bytes [a, b, c, d])"
  using bytes_word_of_bytes [of d c b a] by (simp add: ip_number_def load32_def htonl_def)

lemma inet_pton_length: "inet_pton s = Some bs \<Longrightarrow> \<exists>a b c d. bs = [a, b, c, d]"
  by (auto simp: inet_pton_def bind_eq_Some_conv split: list.splits)

lemma dec_nat_small:
  "n < 10 \<Longrightarrow> dec_nat n = [digit_char n]"
  "10 \<le> n \<Longrightarrow> n < 100 \<Longrightarrow> dec_nat n = [digit_char (n div 10), digit_char (n mod 10)]"
  "100 \<le> n \<Longrightarrow> n < 1000 \<Longrightarrow>
     dec_nat n = [digit_char (n div 100), digit_char (n div 10 mod 10), digit_char (n mod 10)]"
proof -
  have step: "10 \<le> m \<Longrightarrow> dec_nat m = dec_nat (m div 10) @ [digit_char (m mod 10)]" for m
    by (simp add: dec_nat.simps [of m])
  show one: "n < 10 \<Longrightarrow> dec_nat n = [digit_char n]" for n by (simp add: dec_nat.simps [of n])
  show two: "10 \<le> n \<Longrightarrow> n < 100 \<Longrightarrow> dec_nat n = [digit_char (n div 10), digit_char (n mod 10)]" for n
    using step [of n] one [of "n div 10"] by (simp add: less_mult_imp_div_less)
  show "100 \<le> n \<Longrightarrow> n < 1000 \<Longrightarrow>
     dec_nat n = [digit_char (n div 100), digit_char (n div 10 mod 10), digit_char (n mod 10)]"
    using step [of n] two [of "n div 10"]
    by (simp add: less_mult_imp_div_less div_mult2_eq [of n 10 10, simplified])
qed

lemma digit_char_zero: "digit_char 0 = CHR ''0''"
  by code_simp

lemma digit_char_0: "d < 10 \<Longrightarrow> digit_char d = CHR ''0'' \<longleftrightarrow> d = 0"
  using of_char_digit_char [of d] by (auto simp: digit_char_zero)

lemma octet_dec_nat: "octet (dec_nat (unat b)) = Some b"
proof -
  have lt: "unat b < 256" using unsigned_less [of b, where ?'a = nat] by simp
  have d: "list_all is_digit (dec_nat (unat b))" using dec_nat_digits by (simp add: list_all_iff)
  have "length (dec_nat (unat b)) \<le> 3 \<and>
    (length (dec_nat (unat b)) = 1 \<or> hd (dec_nat (unat b)) \<noteq> CHR ''0'')"
  proof -
    consider "unat b < 10" | "10 \<le> unat b" "unat b < 100" | "100 \<le> unat b" "unat b < 1000"
      using lt by linarith
    then show ?thesis
      by cases (use lt in \<open>auto simp: dec_nat_small digit_char_0 div_eq_0_iff\<close>)
  qed
  with d lt show ?thesis by (simp add: octet_def)
qed

lemma inet_pton_dotted: "inet_pton (dotted a b c d) = Some [a, b, c, d]"
  by (simp add: inet_pton_def dotted_def text_fields_append_sep text_fields_none octet_dec_nat)

section \<open>Properties\<close>

text \<open>
  Claim C21.  For every address \<open>a.b.c.d\<close>, the number computed from its text by \<open>inet_pton\<close> and
  \<open>htonl\<close> is \<open>a * 2 ^ 24 + b * 2 ^ 16 + c * 2 ^ 8 + d\<close>, whatever the byte order of the host: the
  value in host order, which is how the databases store ranges.
\<close>

theorem ip_number_dotted:
  "map_option unat (ip_number big_endian (dotted a b c d)) =
     Some (unat a * 2 ^ 24 + unat b * 2 ^ 16 + unat c * 2 ^ 8 + unat d)"
  using ip_number_bytes [OF inet_pton_dotted] unat_word_of_bytes [of a b c d] by simp

text \<open>
  Swapping the bytes of an object of 2, 4, 8 or 16 bytes reverses them; for every other size the
  function copies nothing and its result is whatever the static buffer held before.
\<close>

lemma length_16:
  "length xs = 16 \<Longrightarrow> \<exists>a b c d e f g h i j k l m n o' p. xs = [a, b, c, d, e, f, g, h, i, j, k, l, m, n, o', p]"
  by (auto simp: length_Suc_conv numeral_eq_Suc)

lemma swap_endian_rev:
  assumes "k \<in> {2, 4, 8, 16}" "length xs = k" "length buf = 16"
  shows "swap_endian xs (int k) buf = Some (rev xs @ drop k buf)"
proof -
  obtain a b c d e f g h i j k l m n p q where b: "buf = [a, b, c, d, e, f, g, h, i, j, k, l, m, n, p, q]"
    using length_16 [OF assms(3)] by metis
  have "length xs = 2 \<or> length xs = 4 \<or> length xs = 8 \<or> length xs = 16" using assms by auto
  then show ?thesis
    using assms(2) by (elim disjE) (auto simp: swap_endian_def b length_Suc_conv numeral_eq_Suc)
qed

lemma swap_endian_other: "sz \<notin> {2, 4, 8, 16} \<Longrightarrow> swap_endian xs sz buf = Some buf"
  by (simp add: swap_endian_def)

end
