(* ===== verification/Ip_Database.thy ===== *)
theory Ip_Database
  imports Sqlite Endian
begin

text \<open>
  The filter database: the \<open>ip\<close> table, the SQL texts that \<open>module.cpp\<close> and \<open>gatedb.cpp\<close> send, and
  what SQLite documents for them, as the locale \<open>sqlite_ip\<close>.  The locale is interpreted on an
  engine that parses exactly these texts and evaluates them on a list of rows.
\<close>

section \<open>Rows and SQL values\<close>

datatype sql_value = SqlNull | SqlInt int | SqlText cstring

record ip_row =
  row_id :: int
  row_start_text :: sql_value
  row_end_text :: sql_value
  row_start :: sql_value
  row_end :: sql_value
  row_http_code :: int
  row_http_message :: sql_value

text \<open>Comparison with an integer: nothing compares with null, and text is above every number.\<close>

fun sql_ge :: "sql_value \<Rightarrow> int \<Rightarrow> bool" where
  "sql_ge SqlNull n = False"
| "sql_ge (SqlInt i) n = (i \<ge> n)"
| "sql_ge (SqlText s) n = True"

fun sql_le :: "sql_value \<Rightarrow> int \<Rightarrow> bool" where
  "sql_le SqlNull n = False"
| "sql_le (SqlInt i) n = (i \<le> n)"
| "sql_le (SqlText s) n = False"

text \<open>\<open>length(v)=0\<close>: the length of a number is that of its text, never zero.\<close>

fun sql_empty :: "sql_value \<Rightarrow> bool" where
  "sql_empty (SqlText s) = (s = '''')"
| "sql_empty _ = False"

section \<open>The SQL texts\<close>

text \<open>\<open>gate_request_handler\<close>, lines 376-379\<close>

definition ip_lookup_sql :: "32 word \<Rightarrow> cstring" where
  "ip_lookup_sql addr =
     ''SELECT id, http_code, http_message FROM ip '' @
     ''WHERE start>='' @ dec_nat (unat addr) @ '' '' @
     ''AND end<='' @ dec_nat (unat addr) @ '' '' @
     ''LIMIT 1''"

text \<open>The condition of that text on a row.\<close>

definition lookup_matches :: "32 word \<Rightarrow> ip_row \<Rightarrow> bool" where
  "lookup_matches addr r \<longleftrightarrow> sql_ge (row_start r) (uint addr) \<and> sql_le (row_end r) (uint addr)"

text \<open>\<open>index_database\<close> and \<open>lint_database\<close>\<close>

definition unindexed_sql :: cstring where
  "unindexed_sql =
     ''SELECT id, start_text, end_text FROM ip '' @
     ''WHERE length(start)=0 OR length(end)=0 '' @
     ''  OR start IS NULL OR end IS NULL ''"

definition unindexed :: "ip_row \<Rightarrow> bool" where
  "unindexed r \<longleftrightarrow> sql_empty (row_start r) \<or> sql_empty (row_end r) \<or>
     row_start r = SqlNull \<or> row_end r = SqlNull"

definition lint_sql :: cstring where
  "lint_sql =
     ''SELECT id, start_text, end_text FROM ip '' @
     ''WHERE length(start)=0 OR length(end)=0''"

definition lint_matches :: "ip_row \<Rightarrow> bool" where
  "lint_matches r \<longleftrightarrow> sql_empty (row_start r) \<or> sql_empty (row_end r)"

definition update_sql :: "32 word \<Rightarrow> 32 word \<Rightarrow> 32 word \<Rightarrow> cstring" where
  "update_sql start_addr end_addr record_id =
     ''UPDATE ip set start='' @ dec_nat (unat start_addr) @ '','' @
     ''end='' @ dec_nat (unat end_addr) @ '' '' @
     ''WHERE id='' @ dec_int (sint record_id)"

definition update_row :: "32 word \<Rightarrow> 32 word \<Rightarrow> int \<Rightarrow> ip_row \<Rightarrow> ip_row" where
  "update_row a b i r =
     (if row_id r = i then r\<lparr>row_start := SqlInt (uint a), row_end := SqlInt (uint b)\<rparr> else r)"

lemma sql_texts_plain:
  "CHR ''%'' \<notin> set (ip_lookup_sql addr)" "CHR ''%'' \<notin> set unindexed_sql" "CHR ''%'' \<notin> set lint_sql"
  "CHR ''%'' \<notin> set (update_sql a b i)"
  by (simp_all add: ip_lookup_sql_def unindexed_sql_def lint_sql_def update_sql_def)

section \<open>The documented behaviour\<close>

text \<open>
  A \<open>SELECT\<close> delivers the rows that satisfy its condition and leaves the tables alone; \<open>LIMIT 1\<close>
  delivers one of them if there is one.  Columns of a row are read as 32-bit integers.
\<close>

definition shows_row :: "('db, 'stmt) sqlite_api \<Rightarrow> 'stmt \<Rightarrow> ip_row \<Rightarrow> bool" where
  "shows_row S s r \<longleftrightarrow>
     sq_column_int S (Some s) 0 = word_of_int (row_id r) \<and>
     sq_column_int S (Some s) 1 = word_of_int (row_http_code r)"

locale sqlite_ip = sqlite_lib S for S :: "('db, 'stmt) sqlite_api" +
  fixes ip_rows :: "'db \<Rightarrow> ip_row list option"
  assumes lookup_row: "ip_rows d = Some rows \<Longrightarrow> r \<in> set rows \<Longrightarrow> lookup_matches addr r \<Longrightarrow>
      \<exists>s d' s' r'. sq_prepare S d (ip_lookup_sql addr) = (SQLITE_OK, Some s) \<and>
        sq_step S d (Some s) = (d', Some s', SQLITE_ROW) \<and>
        r' \<in> set rows \<and> lookup_matches addr r' \<and> shows_row S s' r'"
    and lookup_none: "ip_rows d = Some rows \<Longrightarrow> \<forall>r\<in>set rows. \<not> lookup_matches addr r \<Longrightarrow>
      \<exists>s d' s'. sq_prepare S d (ip_lookup_sql addr) = (SQLITE_OK, Some s) \<and>
        sq_step S d (Some s) = (d', Some s', SQLITE_DONE)"

section \<open>An engine for these texts\<close>

datatype sql_command =
    Lookup "32 word"
  | SelectUnindexed
  | SelectLint

datatype engine_stmt = Fresh sql_command | OnRow "sql_value list" "sql_value list list" | Finished

definition strip :: "cstring \<Rightarrow> cstring \<Rightarrow> cstring option" where
  "strip p s = (if take (length p) s = p then Some (drop (length p) s) else None)"

lemma strip_append [simp]: "strip p (p @ s) = Some s"
  by (simp add: strip_def)

definition "lookup_prefix = ''SELECT id, http_code, http_message FROM ip WHERE start>=''"
definition "lookup_middle = '' AND end<=''"
definition "lookup_suffix = '' LIMIT 1''"

definition parse_lookup :: "cstring \<Rightarrow> sql_command option" where
  "parse_lookup s = do {
     t \<leftarrow> strip lookup_prefix s;
     let n = nat_of_digits (takeWhile is_digit t);
     u \<leftarrow> strip lookup_middle (dropWhile is_digit t);
     let m = nat_of_digits (takeWhile is_digit u);
     if n = m \<and> dropWhile is_digit u = lookup_suffix then Some (Lookup (of_nat n)) else None
   }"

definition parse_select :: "cstring \<Rightarrow> sql_command option" where
  "parse_select s =
     (if s = unindexed_sql then Some SelectUnindexed
      else if s = lint_sql then Some SelectLint
      else parse_lookup s)"

definition text_row :: "ip_row \<Rightarrow> sql_value list" where
  "text_row r = [SqlInt (row_id r), row_start_text r, row_end_text r]"

fun run_select :: "sql_command \<Rightarrow> ip_row list \<Rightarrow> sql_value list list" where
  "run_select (Lookup a) rows =
     take 1 (map (\<lambda>r. [SqlInt (row_id r), SqlInt (row_http_code r), row_http_message r])
       (filter (lookup_matches a) rows))"
| "run_select SelectUnindexed rows = map text_row (filter unindexed rows)"
| "run_select SelectLint rows = map text_row (filter lint_matches rows)"

fun next_row :: "sql_value list list \<Rightarrow> engine_stmt \<times> int" where
  "next_row [] = (Finished, SQLITE_DONE)"
| "next_row (r # rs) = (OnRow r rs, SQLITE_ROW)"

fun engine_step ::
  "ip_row list option \<Rightarrow> engine_stmt option \<Rightarrow> ip_row list option \<times> engine_stmt option \<times> int" where
  "engine_step d None = (d, None, 21)"
| "engine_step None (Some s) = (None, Some Finished, 1)"
| "engine_step (Some rows) (Some s) =
     (let (s', rc) = (case s of
            Fresh c \<Rightarrow> next_row (run_select c rows)
          | OnRow r rs \<Rightarrow> next_row rs
          | Finished \<Rightarrow> (Finished, SQLITE_DONE))
      in (Some rows, Some s', rc))"

definition engine_prepare :: "ip_row list option \<Rightarrow> cstring \<Rightarrow> int \<times> engine_stmt option" where
  "engine_prepare d s =
     (case d of
        None \<Rightarrow> (1, None)
      | Some rows \<Rightarrow>
          (case parse_select s of None \<Rightarrow> (1, None) | Some c \<Rightarrow> (SQLITE_OK, Some (Fresh c))))"

definition engine_column :: "engine_stmt option \<Rightarrow> nat \<Rightarrow> sql_value" where
  "engine_column s i =
     (case s of Some (OnRow r rs) \<Rightarrow> if i < length r then r ! i else SqlNull | _ \<Rightarrow> SqlNull)"

fun value_int :: "sql_value \<Rightarrow> 32 word" where
  "value_int SqlNull = 0"
| "value_int (SqlInt i) = word_of_int i"
| "value_int (SqlText s) = word_of_int (atoi s)"

fun value_text :: "sql_value \<Rightarrow> cstring option" where
  "value_text SqlNull = None"
| "value_text (SqlInt i) = Some (dec_int i)"
| "value_text (SqlText s) = Some s"

definition parse_update :: "cstring \<Rightarrow> (32 word \<times> 32 word \<times> int) option" where
  "parse_update s = do {
     t \<leftarrow> strip ''UPDATE ip set start='' s;
     u \<leftarrow> strip '',end='' (dropWhile is_digit t);
     v \<leftarrow> strip '' WHERE id='' (dropWhile is_digit u);
     Some (of_nat (nat_of_digits (takeWhile is_digit t)), of_nat (nat_of_digits (takeWhile is_digit u)), atoi v)
   }"

definition engine_exec :: "ip_row list option \<Rightarrow> cstring \<Rightarrow> ip_row list option \<times> int \<times> cstring option" where
  "engine_exec d s =
     (case (d, parse_update s) of
        (Some rows, Some (a, b, i)) \<Rightarrow> (Some (map (update_row a b i) rows), SQLITE_OK, None)
      | (None, _) \<Rightarrow> if take 12 s = ''CREATE TABLE'' then (Some [], SQLITE_OK, None) else (None, 1, Some ''no such table: ip'')
      | _ \<Rightarrow> (d, 1, Some ''SQL logic error''))"

definition engine :: "(cstring option \<Rightarrow> ip_row list option) \<Rightarrow> (ip_row list option, engine_stmt) sqlite_api" where
  "engine files = \<lparr>
     sq_open = (\<lambda>p. (SQLITE_OK, files p)),
     sq_vmprintf = (\<lambda>f. f),
     sq_exec = engine_exec,
     sq_prepare = engine_prepare,
     sq_step = engine_step,
     sq_column_int = (\<lambda>s i. value_int (engine_column s i)),
     sq_column_text = (\<lambda>s i. value_text (engine_column s i)),
     sq_errmsg = (\<lambda>d. ''SQL logic error'') \<rparr>"

lemma lookup_digits:
  "takeWhile is_digit (dec_nat n @ lookup_middle @ s) = dec_nat n"
  "dropWhile is_digit (dec_nat n @ lookup_middle @ s) = lookup_middle @ s"
  "takeWhile is_digit (dec_nat n @ lookup_suffix) = dec_nat n"
  "dropWhile is_digit (dec_nat n @ lookup_suffix) = lookup_suffix"
  by (simp_all add: lookup_middle_def lookup_suffix_def takeWhile_dec_nat dropWhile_dec_nat)

lemma parse_lookup_sql: "parse_select (ip_lookup_sql addr) = Some (Lookup addr)"
proof -
  have "ip_lookup_sql addr = lookup_prefix @ (dec_nat (unat addr) @ lookup_middle @
      dec_nat (unat addr) @ lookup_suffix)"
    by (simp add: ip_lookup_sql_def lookup_prefix_def lookup_middle_def lookup_suffix_def)
  then have "parse_lookup (ip_lookup_sql addr) = Some (Lookup addr)"
    by (simp add: parse_lookup_def lookup_digits)
  moreover have "ip_lookup_sql addr \<noteq> unindexed_sql" "ip_lookup_sql addr \<noteq> lint_sql"
    by (simp_all add: ip_lookup_sql_def unindexed_sql_def lint_sql_def)
  ultimately show ?thesis by (simp add: parse_select_def)
qed

lemma engine_lib: "sqlite_lib (engine files)"
proof
  show "sq_step (engine files) d s = (d', s', rc) \<Longrightarrow> (s' = None) = (s = None)" for d s d' s' rc
    by (cases "(d, s)" rule: engine_step.cases) (auto simp: engine_def split: prod.splits)
qed (simp_all add: engine_def)

lemma run_lookup_none: "\<forall>r\<in>set rows. \<not> lookup_matches a r \<Longrightarrow> run_select (Lookup a) rows = []"
  by (simp add: filter_False)

lemma run_lookup_row:
  assumes "r \<in> set rows" "lookup_matches a r"
  shows "\<exists>r'\<in>set rows. lookup_matches a r' \<and>
    run_select (Lookup a) rows = [[SqlInt (row_id r'), SqlInt (row_http_code r'), row_http_message r']]"
proof -
  from assms have "filter (lookup_matches a) rows \<noteq> []" by (auto simp: filter_empty_conv)
  then obtain r' rs where f: "filter (lookup_matches a) rows = r' # rs" by (cases "filter (lookup_matches a) rows") auto
  then have "r' \<in> set rows" "lookup_matches a r'" by (auto dest!: filter_eq_ConsD)
  with f show ?thesis by auto
qed

interpretation eng: sqlite_ip "engine files" "\<lambda>d. d" for files
proof (intro sqlite_ip.intro engine_lib sqlite_ip_axioms.intro)
  fix d rows r addr
  assume d: "d = Some rows" and r: "r \<in> set rows" "lookup_matches addr r"
  obtain r' where r': "r' \<in> set rows" "lookup_matches addr r'"
    and sel: "run_select (Lookup addr) rows = [[SqlInt (row_id r'), SqlInt (row_http_code r'), row_http_message r']]"
    using run_lookup_row [OF r] by blast
  have "sq_prepare (engine files) d (ip_lookup_sql addr) = (SQLITE_OK, Some (Fresh (Lookup addr)))"
    by (simp add: engine_def engine_prepare_def parse_lookup_sql d)
  moreover have "sq_step (engine files) d (Some (Fresh (Lookup addr))) =
      (d, Some (OnRow [SqlInt (row_id r'), SqlInt (row_http_code r'), row_http_message r'] []), SQLITE_ROW)"
    by (simp add: engine_def d sel del: run_select.simps)
  moreover have "shows_row (engine files)
      (OnRow [SqlInt (row_id r'), SqlInt (row_http_code r'), row_http_message r'] []) r'"
    by (simp add: shows_row_def engine_def engine_column_def)
  ultimately show "\<exists>s d' s' r'. sq_prepare (engine files) d (ip_lookup_sql addr) = (SQLITE_OK, Some s) \<and>
        sq_step (engine files) d (Some s) = (d', Some s', SQLITE_ROW) \<and>
        r' \<in> set rows \<and> lookup_matches addr r' \<and> shows_row (engine files) s' r'"
    using r' by blast
next
  fix d rows addr
  assume "d = Some rows" "\<forall>r\<in>set rows. \<not> lookup_matches addr r"
  then show "\<exists>s d' s'. sq_prepare (engine files) d (ip_lookup_sql addr) = (SQLITE_OK, Some s) \<and>
        sq_step (engine files) d (Some s) = (d', Some s', SQLITE_DONE)"
    using run_lookup_none [of rows addr]
    by (simp add: engine_def engine_prepare_def parse_lookup_sql del: run_select.simps)
qed

section \<open>Properties\<close>

text \<open>
  Claim C34.  Every operation of the wrapper that prepares a statement of its own finalizes it
  again, also when the preparation fails and the operation throws: the number of live
  statements is the same before and after \<open>count\<close>, \<open>value\<close>, \<open>exists\<close> and \<open>execute\<close>.
\<close>

theorem statements_balanced:
  assumes "sqlite_lib S"
  shows "w_live (fst (database_count S sql w)) = w_live w \<and> w_live (fst (database_value S sql w)) = w_live w \<and>
    w_live (fst (database_execute S sql w)) = w_live w \<and>
    (case query_exists S sql query_new w of (q', w', r) \<Rightarrow> w_live w' = w_live w \<and> q_stmt q' = None)"
proof -
  have "w_live (fst (database_execute S sql w)) = w_live w"
    by (auto simp: database_execute_def eprint_def Let_def split: prod.split option.split)
  moreover obtain q' w' r where "query_exists S sql query_new w = (q', w', r)" by (metis prod_cases3)
  ultimately show ?thesis
    using sqlite_lib.live_count [OF assms] sqlite_lib.live_value [OF assms] sqlite_lib.live_exists [OF assms] by simp
qed

theorem statements_balanced_witness:
  "sqlite_lib (engine (\<lambda>p. None)) \<and>
   (let w = \<lparr>w_db = Some [], w_live = 3, w_executed = [], w_stderr = []\<rparr>; S = engine (\<lambda>p. None); sql = ''SELECT 1'' in
    w_live (fst (database_count S sql w)) = w_live w \<and> w_live (fst (database_value S sql w)) = w_live w \<and>
    w_live (fst (database_execute S sql w)) = w_live w \<and>
    (case query_exists S sql query_new w of (q', w', r) \<Rightarrow> w_live w' = w_live w \<and> q_stmt q' = None))"
  unfolding Let_def by (intro conjI [OF engine_lib] statements_balanced [OF engine_lib])

end
