(* ===== verification/Gate_Module.thy ===== *)
theory Gate_Module
  imports Gate_Config Table_Wrapper Ip_Database
begin

text \<open>
  The request handler of the module, \<open>src/src/module.cpp\<close>: the merge of the configurations into
  the request notes, the choice of the filter database and the decision on the client's
  address.  Apache, the runtime library, SQLite and \<open>access\<close> are parameters.
\<close>

abbreviation (input) "OK \<equiv> (0 :: int)"
abbreviation (input) "DECLINED \<equiv> (-1 :: int)"

section \<open>State\<close>

datatype gate_log =
    Log_error cstring
  | Log_fatal cstring
  | Log_inet_failed cstring
  | Log_match cstring int int
  | Log_exception cstring

record ('t, 'hh) request =
  r_server :: "('t, 'hh) gate_config"
  r_dir :: "'t gate_dir_config"
  r_notes :: 't
  r_remote_ip :: cstring
  r_status :: int
  r_output :: "cstring list"
  r_log :: "gate_log list"

definition rputs :: "cstring \<Rightarrow> ('t, 'hh) request \<Rightarrow> ('t, 'hh) request" where
  "rputs s r = r\<lparr>r_output := r_output r @ [s]\<rparr>"

definition add_log :: "gate_log \<Rightarrow> ('t, 'hh) request \<Rightarrow> ('t, 'hh) request" where
  "add_log e r = r\<lparr>r_log := r_log r @ [e]\<rparr>"

definition gate_log_error :: "cstring \<Rightarrow> ('t, 'hh) request \<Rightarrow> ('t, 'hh) request" where
  "gate_log_error msg r =
     (let strm = ''ModGate: '' @ msg in add_log (Log_error strm) (rputs strm r))"

text \<open>\<open>log_error\<close> hands its text to \<open>ap_log_perror\<close> as the format, without arguments.\<close>

definition log_error :: "('t, 'h, 'hh) apr_api \<Rightarrow> cstring \<Rightarrow> ('t, 'hh) request \<Rightarrow> ('t, 'hh) request option" where
  "log_error A msg r = map_option (\<lambda>t. add_log (Log_fatal t) r) (apr_format A msg)"

definition fatal_text :: "cstring \<Rightarrow> cstring" where
  "fatal_text err = ''FATAL ERROR: '' @ err"

section \<open>Configuration of a request\<close>

definition merge_var ::
  "'t table_api \<Rightarrow> 't gate_dir_config \<Rightarrow> 't \<Rightarrow> cstring \<Rightarrow> cstring option \<Rightarrow> 't \<times> bool" where
  "merge_var T dir_cfg t var_name server_config =
     (let t1 = (case tbl_get T (dir_options dir_cfg) var_name of
                  Some v \<Rightarrow> table_set T t var_name v
                | None \<Rightarrow> (case server_config of Some v \<Rightarrow> table_set T t var_name v | None \<Rightarrow> t))
      in (t1, table_get T t1 var_name \<noteq> None))"

text \<open>\<open>while (ti.next()) notes.set(ti.key(), ti.data())\<close>\<close>

definition copy_body :: "'t table_api \<Rightarrow> iterator \<Rightarrow> 't \<Rightarrow> 't option" where
  "copy_body T it notes = do { (k, d) \<leftarrow> iter_pair it; Some (table_set T notes k d) }"

text \<open>The loop over the settings of the selected handler, in the order of the hash.\<close>

fun handler_settings ::
  "('t, 'h, 'hh) apr_api \<Rightarrow> (cstring \<Rightarrow> bool) \<Rightarrow> (cstring \<times> cstring) list \<Rightarrow> ('t, 'hh) request
     \<Rightarrow> ('t, 'hh) request \<times> int" where
  "handler_settings A readable [] r = (r, 0)"
| "handler_settings A readable ((key, data) # es) r =
     (let r1 = r\<lparr>r_notes := table_set (apr_tables A) (r_notes r) key data\<rparr>
      in if key = ''GateDatabase'' \<and> \<not> readable data
         then (gate_log_error ''GateDefaultDatabase unreadable or does not exists.'' r1, -1)
         else handler_settings A readable es r1)"

definition gate_request_init_configuration ::
  "('t, 'h, 'hh) apr_api \<Rightarrow> (cstring \<Rightarrow> bool) \<Rightarrow> ('t, 'hh) request \<Rightarrow> (('t, 'hh) request \<times> int) option" where
  "gate_request_init_configuration A readable r =
     (let T = apr_tables A; cfg = r_server r; dir_cfg = r_dir r in do {
        notes1 \<leftarrow> while_next (copy_body T) (iter_of T (cfg_options cfg)) (r_notes r);
        notes2 \<leftarrow> while_next (copy_body T) (iter_assign (table_begin T (dir_options dir_cfg))) notes1;
        let (notes3, db_set) = merge_var T dir_cfg notes2 ''GateDefaultDatabase'' (cfg_default_database cfg);
        let (notes4, gate_set) = merge_var T dir_cfg notes3 ''Gate'' (cfg_handler cfg);
        let r4 = r\<lparr>r_notes := notes4\<rparr>;
        Some (if gate_set then
            (case gate_handler_config A cfg (the (table_get T notes4 ''Gate'')) of
               Some h_config \<Rightarrow> handler_settings A readable (h_elts (apr_values A) h_config) r4
             | None \<Rightarrow> (r4, 0))
          else (r4, 0))
      })"

section \<open>The handler of a request\<close>

text \<open>The class \<open>Handler\<close>: a null path and the default both become the empty string.\<close>

definition handler_new :: "cstring option \<Rightarrow> cstring" where
  "handler_new database = (case database of Some p \<Rightarrow> p | None \<Rightarrow> '''')"

definition databaseFile :: "cstring \<Rightarrow> cstring option" where
  "databaseFile my_database_path = (if my_database_path = '''' then None else Some my_database_path)"

definition handler_connect ::
  "('db, 'stmt) sqlite_api \<Rightarrow> cstring \<Rightarrow> cstring + 'db" where
  "handler_connect S my_database_path =
     (case sq_open S (Some my_database_path) of
        (rc, db) \<Rightarrow>
          if rc \<noteq> 0 then Inl (database_error S db (Some ''Can't open database: '') @ my_database_path)
          else Inr db)"

definition gate_request_get_handler ::
  "('t, 'h, 'hh) apr_api \<Rightarrow> ('t, 'hh) request \<Rightarrow> ('t, 'hh) request \<times> cstring" where
  "gate_request_get_handler A r =
     (let T = apr_tables A; cfg = r_server r; database = cfg_default_database cfg in
      case table_get T (r_notes r) ''Gate'' of
        Some g \<Rightarrow>
          (case gate_handler_config A cfg g of
             Some h_config \<Rightarrow> (r, handler_new (h_get (apr_values A) h_config ''GateDatabase''))
           | None \<Rightarrow> (r, handler_new (Some '''')))
      | None \<Rightarrow>
          (let database' = (if table_get T (r_notes r) ''GateDatabase'' \<noteq> None
                            then table_get T (r_notes r) ''GateDefaultDatabase'' else database);
               r1 = (case database' of
                       Some d \<Rightarrow> r\<lparr>r_notes := table_set T (r_notes r) ''GateDatabase'' d\<rparr>
                     | None \<Rightarrow> r)
           in (r1, handler_new (Some ''''))))"

text \<open>
  The loop over the matching record (lines 384-404): its body always returns.  The query and
  the connection are closed by the destructors on every path; the world after that is
  returned for the accounting of statements.
\<close>

definition gate_query ::
  "('db, 'stmt) sqlite_api \<Rightarrow> 32 word \<Rightarrow> 'db \<Rightarrow> ('t, 'hh) request \<Rightarrow> ('t, 'hh) request \<times> 'db world \<times> int" where
  "gate_query S addr db r =
     (let w = \<lparr>w_db = db, w_live = 0, w_executed = [], w_stderr = []\<rparr> in
      case query_prepare S (ip_lookup_sql addr) query_new w of
        (q1, w1, Some e) \<Rightarrow>
          (add_log (Log_exception e) (rputs (''mod_gate Error: '' @ e) r), snd (query_finalize q1 w1), OK)
      | (q1, w1, None) \<Rightarrow>
          (case query_step S q1 w1 of (q2, w2, rc) \<Rightarrow>
             if rc = SQLITE_ROW then
               let record_id = sint (sq_column_int S (q_stmt q2) 0);
                   http_code = sint (sq_column_int S (q_stmt q2) 1);
                   r1 = add_log (Log_match (r_remote_ip r) record_id http_code) (r\<lparr>r_status := http_code\<rparr>)
               in (r1, snd (query_finalize q2 w2), if http_code = 200 then DECLINED else OK)
             else (r, snd (query_finalize q2 w2), DECLINED)))"

definition gate_request_handler ::
  "('t, 'h, 'hh) apr_api \<Rightarrow> ('db, 'stmt) sqlite_api \<Rightarrow> (cstring \<Rightarrow> bool) \<Rightarrow> bool \<Rightarrow> ('t, 'hh) request
     \<Rightarrow> (('t, 'hh) request \<times> 'db world option \<times> int) option" where
  "gate_request_handler A S readable big_endian r = do {
     (r1, rc) \<leftarrow> gate_request_init_configuration A readable r;
     if rc \<noteq> 0 then Some (r1, None, DECLINED) else
     let (r2, handler) = gate_request_get_handler A r1 in
     if databaseFile handler = None then Some (r2, None, DECLINED) else
     case handler_connect S handler of
       Inl err \<Rightarrow> map_option (\<lambda>r3. (r3, None, 1)) (log_error A (fatal_text err) r2)
     | Inr db \<Rightarrow>
         (case ip_number big_endian (r_remote_ip r2) of
            None \<Rightarrow> Some (add_log (Log_inet_failed (r_remote_ip r2)) r2, None, DECLINED)
          | Some addr \<Rightarrow>
              let (r3, w, res) = gate_query S addr db r2 in Some (r3, Some w, res))
   }"

text \<open>
  The connections that are open after a request, for \<open>n\<close> before it.  \<open>sqlite3_open\<close> allocates a
  connection also when it fails; \<open>Handler::connect\<close> closes that one, and the destructor of the handler,
  which runs after that of the query, closes the other.  \<open>sqlite3_close\<close> refuses to close a connection
  while it has live statements.
\<close>

definition database_delete :: "int \<Rightarrow> int \<Rightarrow> int" where
  "database_delete live n = (if live = 0 then n - 1 else n)"

definition handler_delete :: "'db option \<Rightarrow> int \<Rightarrow> int \<Rightarrow> int" where
  "handler_delete my_database live n = (case my_database of None \<Rightarrow> n | Some db \<Rightarrow> database_delete live n)"

definition handler_connections ::
  "('t, 'h, 'hh) apr_api \<Rightarrow> ('db, 'stmt) sqlite_api \<Rightarrow> (cstring \<Rightarrow> bool) \<Rightarrow> bool \<Rightarrow> ('t, 'hh) request \<Rightarrow> int
     \<Rightarrow> int option" where
  "handler_connections A S readable big_endian r n = do {
     (r1, rc) \<leftarrow> gate_request_init_configuration A readable r;
     if rc \<noteq> 0 then Some n else
     let (r2, handler) = gate_request_get_handler A r1 in
     if databaseFile handler = None then Some n else
     case handler_connect S handler of
       Inl err \<Rightarrow> map_option (\<lambda>r3. database_delete 0 (n + 1)) (log_error A (fatal_text err) r2)
     | Inr db \<Rightarrow>
         (case ip_number big_endian (r_remote_ip r2) of
            None \<Rightarrow> Some (handler_delete (Some db) 0 (n + 1))
          | Some addr \<Rightarrow>
              let (r3, w, res) = gate_query S addr db r2 in Some (handler_delete (Some db) (w_live w) (n + 1)))
   }"

section \<open>Specification\<close>

text \<open>
  The handler that applies to a request: the directory's \<open>Gate\<close>, else the server's, else a
  \<open>Gate\<close> option or note that was set otherwise; and its database.
\<close>

definition or_else :: "'a option \<Rightarrow> 'a option \<Rightarrow> 'a option" where
  "or_else a b = (case a of Some x \<Rightarrow> Some x | None \<Rightarrow> b)"

definition effective_gate :: "('t, 'h, 'hh) apr_api \<Rightarrow> ('t, 'hh) request \<Rightarrow> cstring option" where
  "effective_gate A r =
     or_else (tbl_get (apr_tables A) (dir_options (r_dir r)) ''Gate'')
       (or_else (cfg_handler (r_server r))
         (or_else (last_entry ''Gate'' (tbl_elts (apr_tables A) (cfg_options (r_server r))))
           (tbl_get (apr_tables A) (r_notes r) ''Gate'')))"

definition effective_settings :: "('t, 'h, 'hh) apr_api \<Rightarrow> ('t, 'hh) request \<Rightarrow> 'h option" where
  "effective_settings A r = do { g \<leftarrow> effective_gate A r; gate_handler_config A (r_server r) g }"

definition effective_database :: "('t, 'h, 'hh) apr_api \<Rightarrow> ('t, 'hh) request \<Rightarrow> cstring option" where
  "effective_database A r = do {
     h \<leftarrow> effective_settings A r;
     h_get (apr_values A) h ''GateDatabase''
   }"

text \<open>No setting of the selected handler is itself called \<open>Gate\<close>.\<close>

definition plain_settings :: "('t, 'h, 'hh) apr_api \<Rightarrow> ('t, 'hh) request \<Rightarrow> bool" where
  "plain_settings A r \<longleftrightarrow>
     (\<forall>h k v. effective_settings A r = Some h \<longrightarrow> h_get (apr_values A) h k = Some v \<longrightarrow> \<not> same_key ''Gate'' k)"

text \<open>The parts of a request that the handler never changes.\<close>

definition same_request :: "('t, 'hh) request \<Rightarrow> ('t, 'hh) request \<Rightarrow> bool" where
  "same_request r r' \<longleftrightarrow> r_server r' = r_server r \<and> r_dir r' = r_dir r \<and> r_remote_ip r' = r_remote_ip r"

definition notes_only :: "('t, 'hh) request \<Rightarrow> ('t, 'hh) request \<Rightarrow> bool" where
  "notes_only r r' \<longleftrightarrow> (\<exists>n. r' = r\<lparr>r_notes := n\<rparr>)"

lemma notes_only_simps [simp]:
  "notes_only r r" "notes_only r (r\<lparr>r_notes := n\<rparr>)" "notes_only r r' \<Longrightarrow> notes_only r (r'\<lparr>r_notes := n\<rparr>)"
  by (auto simp: notes_only_def intro: exI [of _ "r_notes r"])

lemma notes_only_trans: "notes_only r r' \<Longrightarrow> notes_only r' r'' \<Longrightarrow> notes_only r r''"
  by (auto simp: notes_only_def)

lemma notes_only_status: "notes_only r r' \<Longrightarrow> r_status r' = r_status r"
  by (auto simp: notes_only_def)

lemma same_request_simps [simp]:
  "same_request r r" "same_request r (rputs s r') = same_request r r'"
  "same_request r (add_log e r') = same_request r r'"
  "same_request r (gate_log_error msg r') = same_request r r'"
  "same_request r (r'\<lparr>r_notes := n\<rparr>) = same_request r r'"
  "same_request r (r'\<lparr>r_status := i\<rparr>) = same_request r r'"
  "r_status (rputs s r') = r_status r'" "r_status (add_log e r') = r_status r'"
  "r_status (gate_log_error msg r') = r_status r'"
  by (simp_all add: same_request_def rputs_def add_log_def gate_log_error_def Let_def)

lemma or_else_simps [simp]: "or_else (Some x) b = Some x" "or_else None b = b" "or_else a None = a"
  by (simp_all add: or_else_def split: option.split)

lemma gate_keys [simp]:
  "\<not> same_key ''Gate'' ''GateDefaultDatabase''" "\<not> same_key ''Gate'' ''GateDatabase''"
  by (simp_all add: same_key_def)

lemma copy_entries:
  "while_next (copy_body T) (iter_of T t) n = Some (fold (\<lambda>e n. tbl_set T n (fst e) (snd e)) (tbl_elts T t) n)"
proof -
  have "copy_body T \<lparr>it_h = tbl_elts T t, it_i = int k\<rparr> x =
      Some (tbl_set T x (fst (tbl_elts T t ! k)) (snd (tbl_elts T t ! k)))" if "k < length (tbl_elts T t)" for k x
    using that by (simp add: copy_body_def iter_pair_at table_set_def split: prod.splits)
  then show ?thesis
    using while_next_all [where f = "\<lambda>k e n. tbl_set T n (fst e) (snd e)" and T = T and t = t and body = "copy_body T"]
      fold_nth [of "\<lambda>e n. tbl_set T n (fst e) (snd e)" "tbl_elts T t" n] by simp
qed

lemma copy_entries_begin:
  "while_next (copy_body T) (iter_assign (table_begin T t)) n =
     Some (fold (\<lambda>e n. tbl_set T n (fst e) (snd e)) (tbl_elts T t) n)"
  using copy_entries [of T t n] by (simp add: iter_of_def table_begin_def)

lemma handler_settings_frame:
  "same_request r (fst (handler_settings A rd es r')) = same_request r r'"
  "r_status (fst (handler_settings A rd es r')) = r_status r'"
  by (induction A rd es r' rule: handler_settings.induct) (simp_all add: Let_def)

lemma handler_settings_notes_only:
  "notes_only r r' \<Longrightarrow> snd (handler_settings A rd es r') = 0 \<Longrightarrow> notes_only r (fst (handler_settings A rd es r'))"
  by (induction A rd es r' rule: handler_settings.induct) (auto simp: Let_def split: if_splits)

lemma handler_settings_rc:
  "snd (handler_settings A rd es r) = (if \<exists>v. (''GateDatabase'', v) \<in> set es \<and> \<not> rd v then -1 else 0)"
  by (induction es arbitrary: r) (auto simp: Let_def)

context apr_lib
begin

lemma merge_var_eq:
  "merge_var (apr_tables A) dc t v sc = (t', b) \<Longrightarrow>
     tbl_get (apr_tables A) t' k =
       (if same_key k v then or_else (tbl_get (apr_tables A) (dir_options dc) v)
          (or_else sc (tbl_get (apr_tables A) t v)) else tbl_get (apr_tables A) t k) \<and>
     b = (tbl_get (apr_tables A) t' v \<noteq> None)"
  by (auto simp: merge_var_def table_set_def table_get_def tbl.get_set Let_def tbl.get_same [of k v]
      split: option.splits)

lemma handler_settings_notes:
  "\<forall>e\<in>set es. \<not> same_key k (fst e) \<Longrightarrow>
     tbl_get (apr_tables A) (r_notes (fst (handler_settings A rd es r))) k = tbl_get (apr_tables A) (r_notes r) k"
proof (induction es arbitrary: r)
  case (Cons e es)
  then show ?case
    by (cases e) (auto simp: Let_def table_set_def tbl.get_set gate_log_error_def rputs_def add_log_def)
qed simp

lemma init_configuration:
  assumes plain: "plain_settings A r"
  obtains r' rc where "gate_request_init_configuration A rd r = Some (r', rc)"
    "same_request r r'" "r_status r' = r_status r"
    "rc = (if \<exists>p. effective_database A r = Some p \<and> \<not> rd p then -1 else 0)"
    "tbl_get (apr_tables A) (r_notes r') ''Gate'' = effective_gate A r" "rc = 0 \<Longrightarrow> notes_only r r'"
proof -
  let ?T = "apr_tables A" and ?cfg = "r_server r" and ?dc = "r_dir r"
  define notes1 where "notes1 = fold (\<lambda>e n. tbl_set ?T n (fst e) (snd e)) (tbl_elts ?T (cfg_options ?cfg)) (r_notes r)"
  define notes2 where "notes2 = fold (\<lambda>e n. tbl_set ?T n (fst e) (snd e)) (tbl_elts ?T (dir_options ?dc)) notes1"
  obtain notes3 b3 where m3: "merge_var ?T ?dc notes2 ''GateDefaultDatabase'' (cfg_default_database ?cfg) = (notes3, b3)"
    by fastforce
  obtain notes4 b4 where m4: "merge_var ?T ?dc notes3 ''Gate'' (cfg_handler ?cfg) = (notes4, b4)"
    by fastforce
  let ?r4 = "r\<lparr>r_notes := notes4\<rparr>"
  have none: "last_entry ''Gate'' (tbl_elts ?T (dir_options ?dc)) = None"
    if "tbl_get ?T (dir_options ?dc) ''Gate'' = None"
    using that by (simp add: tbl.get_elts first_entry_None_iff last_entry_None_iff)
  have gate: "tbl_get ?T notes4 ''Gate'' = effective_gate A r"
    using merge_var_eq [OF m4, of "''Gate''"] merge_var_eq [OF m3, of "''Gate''"] none
    by (cases "tbl_get ?T (dir_options ?dc) ''Gate''"; cases "cfg_handler ?cfg")
      (simp_all add: effective_gate_def notes1_def notes2_def tbl.get_copy_entries or_else_def)
  have b4: "b4 = (effective_gate A r \<noteq> None)" using merge_var_eq [OF m4] gate by auto
  define res where "res = (case effective_settings A r of
      Some h \<Rightarrow> handler_settings A rd (h_elts (apr_values A) h) ?r4 | None \<Rightarrow> (?r4, 0))"
  have "gate_request_init_configuration A rd r = Some res"
    by (auto simp: gate_request_init_configuration_def copy_entries copy_entries_begin Let_def m3 m4
        table_get_def b4 gate res_def effective_settings_def notes1_def [symmetric] notes2_def [symmetric]
        split: option.splits)
  moreover have "same_request r (fst res)" "r_status (fst res) = r_status r"
    by (auto simp: res_def handler_settings_frame split: option.split)
  moreover have "snd res = 0 \<Longrightarrow> notes_only r (fst res)"
    by (auto simp: res_def handler_settings_notes_only split: option.splits)
  moreover have "snd res = (if \<exists>p. effective_database A r = Some p \<and> \<not> rd p then -1 else 0)"
    by (auto simp: res_def handler_settings_rc effective_database_def val.in_h_elts split: option.split)
  moreover have "tbl_get ?T (r_notes (fst res)) ''Gate'' = effective_gate A r"
  proof (cases "effective_settings A r")
    case (Some h)
    then have "\<forall>e\<in>set (h_elts (apr_values A) h). \<not> same_key ''Gate'' (fst e)"
      using plain by (auto simp: plain_settings_def val.in_h_elts)
    from handler_settings_notes [OF this] Some gate show ?thesis by (simp add: res_def)
  qed (simp add: res_def gate)
  ultimately show thesis by (intro that [of "fst res" "snd res", unfolded prod.collapse])
qed

lemma get_handler:
  assumes "same_request r r'" "tbl_get (apr_tables A) (r_notes r') ''Gate'' = effective_gate A r"
  obtains r'' where "gate_request_get_handler A r' = (r'', handler_new (effective_database A r))"
    "same_request r r''" "r_status r'' = r_status r'" "notes_only r' r''"
proof -
  have "r_server r' = r_server r" using assms(1) by (simp add: same_request_def)
  then show thesis
    using assms that
    by (cases "effective_gate A r"; cases "gate_handler_config A (r_server r) (the (effective_gate A r))")
      (auto simp: gate_request_get_handler_def table_get_def effective_database_def effective_settings_def
        handler_new_def Let_def split: option.splits)
qed

text \<open>What the request handler does, but for the query itself.\<close>

lemma gate_request_handler_cases:
  assumes "plain_settings A r"
  obtains r' where "same_request r r'" "r_status r' = r_status r"
    "(\<And>p. effective_database A r = Some p \<Longrightarrow>
         rd p \<and> (\<exists>db. handler_connect S p = Inr db) \<and> ip_number big (r_remote_ip r) \<noteq> None) \<Longrightarrow> notes_only r r'"
    "gate_request_handler A S rd big r =
       (case effective_database A r of
          None \<Rightarrow> Some (r', None, DECLINED)
        | Some p \<Rightarrow>
            if \<not> rd p \<or> p = '''' then Some (r', None, DECLINED) else
            case handler_connect S p of
              Inl err \<Rightarrow> if apr_format A (fatal_text err) = None then None else Some (r', None, 1)
            | Inr db \<Rightarrow>
                (case ip_number big (r_remote_ip r) of
                   None \<Rightarrow> Some (r', None, DECLINED)
                 | Some addr \<Rightarrow> (case gate_query S addr db r' of (r3, w, res) \<Rightarrow> Some (r3, Some w, res))))"
proof -
  obtain r1 rc where init: "gate_request_init_configuration A rd r = Some (r1, rc)"
      "same_request r r1" "r_status r1 = r_status r"
      "rc = (if \<exists>p. effective_database A r = Some p \<and> \<not> rd p then -1 else 0)"
      "tbl_get (apr_tables A) (r_notes r1) ''Gate'' = effective_gate A r" "rc = 0 \<Longrightarrow> notes_only r r1"
    using init_configuration [OF assms] by metis
  obtain r2 where get: "gate_request_get_handler A r1 = (r2, handler_new (effective_database A r))"
      "same_request r r2" "r_status r2 = r_status r1" "notes_only r1 r2"
    using get_handler [OF init(2,5)] by metis
  have n2: "rc = 0 \<Longrightarrow> notes_only r r2" using init(6) get(4) by (blast intro: notes_only_trans)
  have ip: "r_remote_ip r2 = r_remote_ip r" using get(2) by (simp add: same_request_def)
  note defs = gate_request_handler_def init(1) init(4) get(1) ip databaseFile_def handler_new_def Let_def
  consider (bad) p where "effective_database A r = Some p" "\<not> rd p"
    | (none) "effective_database A r = None" | (empty) "effective_database A r = Some ''''" "rd ''''"
    | (path) p where "effective_database A r = Some p" "rd p" "p \<noteq> ''''"
    by (cases "effective_database A r") auto
  then show thesis
  proof cases
    case bad
    then show thesis using that [of r1] init(2,3) by (simp add: defs)
  next
    case none
    then show thesis using that [of r2] get(2,3) init(3,4) n2 by (simp add: defs)
  next
    case empty
    then show thesis using that [of r2] get(2,3) init(3,4) n2 by (simp add: defs)
  next
    case path
    show thesis
    proof (cases "handler_connect S p")
      case (Inl err)
      then show thesis
        using that [of "add_log (Log_fatal (the (apr_format A (fatal_text err)))) r2"] path get(2-4) init(3)
        by (cases "apr_format A (fatal_text err)") (simp_all add: defs log_error_def)
    next
      case (Inr db)
      show thesis
      proof (cases "ip_number big (r_remote_ip r)")
        case None
        then show thesis
          using that [of "add_log (Log_inet_failed (r_remote_ip r)) r2"] path Inr get(2,3) init(3)
          by (simp add: defs)
      next
        case (Some addr)
        then show thesis
          using that [of r2] path Inr get(2,3) init(3,4) n2 by (simp add: defs split: prod.split)
      qed
    qed
  qed
qed

end

section \<open>The query\<close>

text \<open>\<open>sqlite3_column_int\<close> reads the HTTP code as a 32-bit integer.\<close>

definition http_code :: "ip_row \<Rightarrow> int" where
  "http_code x = sint (word_of_int (row_http_code x) :: 32 word)"

context sqlite_lib
begin

lemma gate_query_total: "w_live (fst (snd (gate_query S addr db r))) = 0 \<and> snd (snd (gate_query S addr db r)) \<in> {OK, DECLINED}"
  using live_query [of "ip_lookup_sql addr" "\<lparr>w_db = db, w_live = 0, w_executed = [], w_stderr = []\<rparr>"]
  by (auto simp: gate_query_def Let_def split: prod.splits option.splits)

lemma prepare_lookup:
  assumes "sq_prepare S db (ip_lookup_sql addr) = (SQLITE_OK, Some s)" "w_db w = db"
  shows "query_prepare S (ip_lookup_sql addr) query_new w =
    (\<lparr>q_error_code = 0, q_stmt = Some s\<rparr>, w\<lparr>w_live := w_live w + 1\<rparr>, None)"
  using assms vmprintf_plain [OF sql_texts_plain(1)]
  by (simp add: query_prepare_def query_load_def query_finalize_def query_new_def)

end

context sqlite_ip
begin

lemma gate_query_match:
  assumes "ip_rows db = Some rows" "x \<in> set rows" "lookup_matches addr x"
  shows "\<exists>x'\<in>set rows. lookup_matches addr x' \<and>
    r_status (fst (gate_query S addr db r)) = http_code x' \<and>
    snd (snd (gate_query S addr db r)) = (if http_code x' = 200 then DECLINED else OK)"
proof -
  obtain s d' s' x' where p: "sq_prepare S db (ip_lookup_sql addr) = (SQLITE_OK, Some s)"
    and s: "sq_step S db (Some s) = (d', Some s', SQLITE_ROW)"
    and x': "x' \<in> set rows" "lookup_matches addr x'" "shows_row S s' x'"
    using lookup_row [OF assms] by blast
  have "gate_query S addr db r = (r3, w, res) \<Longrightarrow> r_status r3 = http_code x' \<and>
      res = (if http_code x' = 200 then DECLINED else OK)" for r3 w res
    using x'(3) prepare_lookup [OF p]
    by (auto simp: gate_query_def query_step_def s Let_def shows_row_def http_code_def add_log_def)
  then show ?thesis using x'(1,2) by (metis prod.collapse)
qed

lemma gate_query_none:
  assumes "ip_rows db = Some rows" "\<forall>x\<in>set rows. \<not> lookup_matches addr x"
  shows "fst (gate_query S addr db r) = r \<and> snd (snd (gate_query S addr db r)) = DECLINED"
proof -
  obtain s d' s' where p: "sq_prepare S db (ip_lookup_sql addr) = (SQLITE_OK, Some s)"
    and s: "sq_step S db (Some s) = (d', Some s', SQLITE_DONE)"
    using lookup_none [OF assms] by blast
  show ?thesis
    using prepare_lookup [OF p] by (simp add: gate_query_def query_step_def s Let_def)
qed

end

text \<open>The situation in which a request is checked against the rows of a database.\<close>

definition checked_against ::
  "('t, 'h, 'hh) apr_api \<Rightarrow> ('db, 'stmt) sqlite_api \<Rightarrow> ('db \<Rightarrow> ip_row list option) \<Rightarrow> (cstring \<Rightarrow> bool) \<Rightarrow>
     ('t, 'hh) request \<Rightarrow> ip_row list \<Rightarrow> bool" where
  "checked_against A S ip_rows readable r rows \<longleftrightarrow>
     apr_lib A \<and> sqlite_ip S ip_rows \<and> plain_settings A r \<and>
     (\<exists>p db. effective_database A r = Some p \<and> readable p \<and> p \<noteq> '''' \<and>
        sq_open S (Some p) = (SQLITE_OK, db) \<and> ip_rows db = Some rows)"

lemma checked_handler:
  assumes "checked_against A S ip_rows readable r rows" "ip_number big (r_remote_ip r) = Some addr"
  obtains r' db where "ip_rows db = Some rows" "notes_only r r'"
    "gate_request_handler A S readable big r =
       (case gate_query S addr db r' of (r3, w, res) \<Rightarrow> Some (r3, Some w, res))"
proof -
  obtain p db where a: "apr_lib A" "plain_settings A r" and p: "effective_database A r = Some p" "readable p"
      "p \<noteq> ''''" "sq_open S (Some p) = (SQLITE_OK, db)" "ip_rows db = Some rows"
    using assms(1) by (auto simp: checked_against_def)
  have c: "handler_connect S p = Inr db" by (simp add: handler_connect_def p)
  show thesis
  proof (rule apr_lib.gate_request_handler_cases [OF a, of readable S big])
    fix r'
    assume n: "(\<And>p. effective_database A r = Some p \<Longrightarrow>
         readable p \<and> (\<exists>db. handler_connect S p = Inr db) \<and> ip_number big (r_remote_ip r) \<noteq> None) \<Longrightarrow> notes_only r r'"
    assume "gate_request_handler A S readable big r =
       (case effective_database A r of
          None \<Rightarrow> Some (r', None, DECLINED)
        | Some p \<Rightarrow>
            if \<not> readable p \<or> p = '''' then Some (r', None, DECLINED) else
            case handler_connect S p of
              Inl err \<Rightarrow> if apr_format A (fatal_text err) = None then None else Some (r', None, 1)
            | Inr db \<Rightarrow>
                (case ip_number big (r_remote_ip r) of
                   None \<Rightarrow> Some (r', None, DECLINED)
                 | Some addr \<Rightarrow> (case gate_query S addr db r' of (r3, w, res) \<Rightarrow> Some (r3, Some w, res))))"
    moreover have "notes_only r r'" by (rule n) (use p c assms(2) in simp_all)
    ultimately show thesis using that [of db r'] p c assms(2) by simp
  qed
qed

lemma handler_outcome_frame:
  assumes "checked_against A S ip_rows readable r rows"
    and "ip_number big (r_remote_ip r) = Some addr"
  shows "\<exists>r' w res. gate_request_handler A S readable big r = Some (r', Some w, res) \<and> w_live w = 0 \<and>
    (if \<exists>x\<in>set rows. lookup_matches addr x
     then \<exists>x\<in>set rows. lookup_matches addr x \<and> r_status r' = http_code x \<and>
       res = (if http_code x = 200 then DECLINED else OK)
     else notes_only r r' \<and> res = DECLINED)"
proof -
  have S: "sqlite_ip S ip_rows" "sqlite_lib S"
    using assms(1) by (auto simp: checked_against_def sqlite_ip_def)
  obtain r0 db where db: "ip_rows db = Some rows" "notes_only r r0"
    and h: "gate_request_handler A S readable big r =
      (case gate_query S addr db r0 of (r3, w, res) \<Rightarrow> Some (r3, Some w, res))"
    using checked_handler [OF assms] by metis
  obtain r3 w res where q: "gate_query S addr db r0 = (r3, w, res)" by (metis prod_cases3)
  have "w_live w = 0" using sqlite_lib.gate_query_total [OF S(2), of addr db r0] by (simp add: q)
  moreover have "if \<exists>x\<in>set rows. lookup_matches addr x
     then \<exists>x\<in>set rows. lookup_matches addr x \<and> r_status r3 = http_code x \<and>
       res = (if http_code x = 200 then DECLINED else OK)
     else notes_only r r3 \<and> res = DECLINED"
  proof (cases "\<exists>x\<in>set rows. lookup_matches addr x")
    case True
    then show ?thesis
      using sqlite_ip.gate_query_match [OF S(1) db(1), of _ addr r0] by (simp only: q fst_conv snd_conv if_True) blast
  next
    case False
    then show ?thesis using sqlite_ip.gate_query_none [OF S(1) db(1), of addr r0] db(2) by (simp add: q)
  qed
  ultimately show ?thesis by (simp add: h q)
qed

lemma handler_outcome:
  assumes "checked_against A S ip_rows readable r rows"
    and "ip_number big (r_remote_ip r) = Some addr"
  shows "\<exists>r' w res. gate_request_handler A S readable big r = Some (r', Some w, res) \<and> w_live w = 0 \<and>
    (if \<exists>x\<in>set rows. lookup_matches addr x
     then \<exists>x\<in>set rows. lookup_matches addr x \<and> r_status r' = http_code x \<and>
       res = (if http_code x = 200 then DECLINED else OK)
     else r_status r' = r_status r \<and> res = DECLINED)"
  using handler_outcome_frame [OF assms] by (auto simp: notes_only_status split: if_splits)

text \<open>For rows of one address each, the condition of the query is equality.\<close>

definition single_address :: "ip_row \<Rightarrow> bool" where
  "single_address x \<longleftrightarrow> (\<exists>a. row_start x = SqlInt a \<and> row_end x = SqlInt a)"

definition proper_range :: "ip_row \<Rightarrow> bool" where
  "proper_range x \<longleftrightarrow> (\<exists>a b. row_start x = SqlInt a \<and> row_end x = SqlInt b \<and> a < b)"

lemma lookup_single: "single_address x \<Longrightarrow> lookup_matches addr x \<longleftrightarrow> row_start x = SqlInt (uint addr)"
  by (auto simp: single_address_def lookup_matches_def)

lemma lookup_proper: "proper_range x \<Longrightarrow> \<not> lookup_matches addr x"
  by (auto simp: proper_range_def lookup_matches_def)

lemma handler_total:
  assumes "sqlite_lib S" "\<forall>p err. handler_connect S p = Inl err \<longrightarrow> apr_format A (fatal_text err) \<noteq> None"
  shows "\<exists>r' w res. gate_request_handler A S readable big r = Some (r', w, res) \<and> res \<in> {OK, DECLINED, 1} \<and>
    (case w of None \<Rightarrow> True | Some w' \<Rightarrow> w_live w' = 0) \<and> handler_connections A S readable big r n = Some n"
proof -
  note defs = gate_request_handler_def handler_connections_def handler_delete_def database_delete_def
  have "gate_request_init_configuration A readable r \<noteq> None"
    by (simp add: gate_request_init_configuration_def copy_entries copy_entries_begin Let_def split: prod.split)
  then obtain r1 rc where i: "gate_request_init_configuration A readable r = Some (r1, rc)" by auto
  obtain r2 hnd where g: "gate_request_get_handler A r1 = (r2, hnd)" by fastforce
  have q: "\<exists>r3 w res. gate_query S addr db r2 = (r3, w, res) \<and> res \<in> {OK, DECLINED} \<and> w_live w = 0" for addr db
    using sqlite_lib.gate_query_total [OF assms(1), of addr db r2] by (metis prod.collapse)
  show ?thesis
  proof (cases "rc \<noteq> 0 \<or> databaseFile hnd = None")
    case True
    then show ?thesis by (auto simp: defs i g)
  next
    case False
    show ?thesis
    proof (cases "handler_connect S hnd")
      case (Inl err)
      with assms(2) obtain t where "apr_format A (fatal_text err) = Some t" by blast
      with False Inl show ?thesis by (simp add: defs i g log_error_def)
    next
      case (Inr db)
      show ?thesis
      proof (cases "ip_number big (r_remote_ip r2)")
        case None
        with False Inr show ?thesis by (simp add: defs i g)
      next
        case (Some addr)
        with False Inr q [of addr db] show ?thesis by (auto simp: defs i g)
      qed
    qed
  qed
qed

section \<open>Properties\<close>

text \<open>
  Claim C1.  The decision on a request: if some row of the \<open>ip\<close> table satisfies the condition of
  the query for the client's address, the handler takes one such row, sets the response
  status to its HTTP code and ends the request, except that code 200 lets the request
  proceed; if no row satisfies it, the request proceeds with its status unchanged.  In both
  cases every statement is finalized before the connection is closed.
\<close>

theorem gate_request_handler_decides:
  assumes "checked_against A S ip_rows readable r rows"
    and "ip_number big (r_remote_ip r) = Some addr"
  shows "\<exists>r' w res. gate_request_handler A S readable big r = Some (r', Some w, res) \<and> w_live w = 0 \<and>
    (if \<exists>x\<in>set rows. lookup_matches addr x
     then \<exists>x\<in>set rows. lookup_matches addr x \<and> r_status r' = http_code x \<and>
       res = (if http_code x = 200 then DECLINED else OK)
     else r_status r' = r_status r \<and> res = DECLINED)"
  using assms by (rule handler_outcome)

definition sample_row :: "int \<Rightarrow> int \<Rightarrow> int \<Rightarrow> ip_row" where
  "sample_row a b code = \<lparr>row_id = 1, row_start_text = SqlNull, row_end_text = SqlNull,
     row_start = SqlInt a, row_end = SqlInt b, row_http_code = code, row_http_message = SqlNull\<rparr>"

definition sample_request ::
  "cstring option \<Rightarrow> cstring \<Rightarrow> (entry list, (cstring \<times> value_alist) list) request" where
  "sample_request gate ip = \<lparr>
     r_server = \<lparr>cfg_handler = gate, cfg_default_database = Some ''/etc/gate.db'', cfg_options = [],
       cfg_handlers = [(''MYGATE'', [(''GateDatabase'', ''/etc/gate.db'')])]\<rparr>,
     r_dir = \<lparr>dir_path = None, dir_options = []\<rparr>, r_notes = [], r_remote_ip = ip,
     r_status = 200, r_output = [], r_log = []\<rparr>"

definition sample_files :: "ip_row list \<Rightarrow> cstring option \<Rightarrow> ip_row list option" where
  "sample_files rows p = (if p = Some ''/etc/gate.db'' then Some rows else None)"

lemma sample_gate: "effective_gate alist_apr (sample_request gate ip) = gate"
  by (simp add: effective_gate_def sample_request_def)

lemma sample_settings:
  "effective_settings alist_apr (sample_request (Some ''MYGATE'') ip) = Some [(''GateDatabase'', ''/etc/gate.db'')]"
  by (simp add: effective_settings_def sample_gate gate_handler_config_def) (simp add: sample_request_def)

lemma sample_checked:
  "checked_against alist_apr (engine (sample_files rows)) (\<lambda>d. d) (\<lambda>_. True)
     (sample_request (Some ''MYGATE'') ip) rows"
  unfolding checked_against_def
  by (intro conjI alist_lib.apr_lib_axioms eng.sqlite_ip_axioms exI [of _ "''/etc/gate.db''"] exI [of _ "Some rows"])
    (auto simp: plain_settings_def effective_database_def sample_settings engine_def sample_files_def
      split: if_splits)

lemma sample_ip: "ip_number big ''10.0.0.7'' = Some 0x0A000007"
  using ip_number_bytes [of "''10.0.0.7''" 10 0 0 7 big]
  by (simp add: inet_pton_def octet_def is_digit_def nat_of_digits_def digit_val_def word_of_bytes_def)

lemma sample_remote_ip: "r_remote_ip (sample_request gate ip) = ip"
  by (simp add: sample_request_def)


abbreviation "sample_api rows \<equiv> engine (sample_files rows)"
abbreviation "sample_req \<equiv> sample_request (Some ''MYGATE'') ''10.0.0.7''"

lemma sample_addr: "ip_number big (r_remote_ip sample_req) = Some 0x0A000007"
  by (simp add: sample_remote_ip sample_ip)

lemmas sample_hyps = sample_checked sample_addr

theorem gate_request_handler_decides_witness:
  "checked_against alist_apr (sample_api [sample_row 0x0A000007 0x0A000007 403]) (\<lambda>d. d) (\<lambda>_. True) sample_req
     [sample_row 0x0A000007 0x0A000007 403] \<and>
   ip_number False (r_remote_ip sample_req) = Some 0x0A000007 \<and>
   (\<exists>r' w res. gate_request_handler alist_apr (sample_api [sample_row 0x0A000007 0x0A000007 403]) (\<lambda>_. True)
        False sample_req = Some (r', Some w, res) \<and> w_live w = 0 \<and>
    (if \<exists>x\<in>set [sample_row 0x0A000007 0x0A000007 403]. lookup_matches 0x0A000007 x
     then \<exists>x\<in>set [sample_row 0x0A000007 0x0A000007 403]. lookup_matches 0x0A000007 x \<and>
       r_status r' = http_code x \<and> res = (if http_code x = 200 then DECLINED else OK)
     else r_status r' = r_status sample_req \<and> res = DECLINED))"
  by (intro conjI gate_request_handler_decides [OF sample_hyps] sample_hyps)

text \<open>
  Claim C2.  With a database whose rows each hold one address, the handler blocks exactly the
  listed addresses: a client whose address is that of a row gets the code of such a row and
  the request ends there (or proceeds, for code 200); every other client's request proceeds.
\<close>

theorem single_addresses_decided:
  assumes "checked_against A S ip_rows readable r rows"
    and "ip_number big (r_remote_ip r) = Some addr"
    and "\<forall>x\<in>set rows. single_address x"
  shows "\<exists>r' w res. gate_request_handler A S readable big r = Some (r', w, res) \<and>
    (if \<exists>x\<in>set rows. row_start x = SqlInt (uint addr)
     then \<exists>x\<in>set rows. row_start x = SqlInt (uint addr) \<and> r_status r' = http_code x \<and>
       res = (if http_code x = 200 then DECLINED else OK)
     else r_status r' = r_status r \<and> res = DECLINED)"
proof -
  have eq: "\<And>x. x \<in> set rows \<Longrightarrow> lookup_matches addr x = (row_start x = SqlInt (uint addr))"
    using assms(3) by (simp add: lookup_single)
  from handler_outcome [OF assms(1,2)] obtain r' w res where
    h: "gate_request_handler A S readable big r = Some (r', Some w, res)" and
    out: "if \<exists>x\<in>set rows. lookup_matches addr x
     then \<exists>x\<in>set rows. lookup_matches addr x \<and> r_status r' = http_code x \<and>
       res = (if http_code x = 200 then DECLINED else OK)
     else r_status r' = r_status r \<and> res = DECLINED" by blast
  have "(\<exists>x\<in>set rows. lookup_matches addr x \<and> P x) = (\<exists>x\<in>set rows. row_start x = SqlInt (uint addr) \<and> P x)" for P
    using eq by blast
  from this [of "\<lambda>_. True"] this show ?thesis
    using out by (intro exI [of _ r'] exI [of _ "Some w"] exI [of _ res] conjI h) (simp only: simp_thms)
qed

theorem single_addresses_decided_witness:
  "checked_against alist_apr (sample_api [sample_row 0x0A000007 0x0A000007 403]) (\<lambda>d. d) (\<lambda>_. True) sample_req
     [sample_row 0x0A000007 0x0A000007 403] \<and>
   ip_number True (r_remote_ip sample_req) = Some 0x0A000007 \<and>
   single_address (sample_row 0x0A000007 0x0A000007 403) \<and>
   (\<exists>r' w res. gate_request_handler alist_apr (sample_api [sample_row 0x0A000007 0x0A000007 403]) (\<lambda>_. True)
        True sample_req = Some (r', w, res) \<and>
    (if \<exists>x\<in>set [sample_row 0x0A000007 0x0A000007 403]. row_start x = SqlInt (uint (0x0A000007 :: 32 word))
     then \<exists>x\<in>set [sample_row 0x0A000007 0x0A000007 403]. row_start x = SqlInt (uint (0x0A000007 :: 32 word)) \<and>
       r_status r' = http_code x \<and> res = (if http_code x = 200 then DECLINED else OK)
     else r_status r' = r_status sample_req \<and> res = DECLINED))"
proof -
  have single: "single_address (sample_row 0x0A000007 0x0A000007 403)"
    by (simp add: sample_row_def single_address_def)
  then have "\<forall>x\<in>set [sample_row 0x0A000007 0x0A000007 403]. single_address x" by simp
  with single show ?thesis by (intro conjI single_addresses_decided [OF sample_hyps] sample_hyps)
qed

text \<open>
  Claim C3.  A database of address ranges (first address below the last one) blocks nobody: the
  query asks for rows that begin at or after the client's address and end at or before it, so
  the request of every client proceeds, also of one inside a range.
\<close>

theorem address_ranges_never_block:
  assumes "checked_against A S ip_rows readable r rows"
    and "ip_number big (r_remote_ip r) = Some addr"
    and "\<forall>x\<in>set rows. proper_range x"
  shows "\<exists>r' w. gate_request_handler A S readable big r = Some (r', w, DECLINED) \<and> r_status r' = r_status r"
proof -
  have "\<not> (\<exists>x\<in>set rows. lookup_matches addr x)" using assms(3) lookup_proper by blast
  with handler_outcome [OF assms(1,2)] show ?thesis by auto
qed

theorem address_ranges_never_block_witness:
  "checked_against alist_apr (sample_api [sample_row 0x0A000000 0x0A0000FF 403]) (\<lambda>d. d) (\<lambda>_. True) sample_req
     [sample_row 0x0A000000 0x0A0000FF 403] \<and>
   ip_number False (r_remote_ip sample_req) = Some 0x0A000007 \<and>
   proper_range (sample_row 0x0A000000 0x0A0000FF 403) \<and>
   (\<exists>r' w. gate_request_handler alist_apr (sample_api [sample_row 0x0A000000 0x0A0000FF 403]) (\<lambda>_. True)
      False sample_req = Some (r', w, DECLINED) \<and> r_status r' = r_status sample_req)"
proof -
  have range: "proper_range (sample_row 0x0A000000 0x0A0000FF 403)"
    by (simp add: sample_row_def proper_range_def)
  then have "\<forall>x\<in>set [sample_row 0x0A000000 0x0A0000FF 403]. proper_range x" by simp
  with range show ?thesis by (intro conjI address_ranges_never_block [OF sample_hyps] sample_hyps)
qed

text \<open>
  Claim C6.  A request for which no \<open>Gate\<close> is set is never filtered, whatever default database
  the server configuration names: the handler opens no database and declines.
\<close>

theorem default_database_unused:
  assumes "apr_lib A" "effective_gate A r = None"
  shows "\<exists>r'. gate_request_handler A S readable big r = Some (r', None, DECLINED) \<and> r_status r' = r_status r"
proof -
  have "plain_settings A r" "effective_database A r = None"
    using assms(2) by (simp_all add: plain_settings_def effective_settings_def effective_database_def)
  with apr_lib.gate_request_handler_cases [OF assms(1), of r readable S big] show ?thesis
    by (metis (no_types, lifting) option.simps(4))
qed

theorem default_database_unused_witness:
  "apr_lib alist_apr \<and> effective_gate alist_apr (sample_request None ''10.0.0.7'') = None \<and>
   (\<exists>r'. gate_request_handler alist_apr (sample_api [sample_row 0x0A000007 0x0A000007 403]) (\<lambda>_. True) False
        (sample_request None ''10.0.0.7'') = Some (r', None, DECLINED) \<and>
      r_status r' = r_status (sample_request None ''10.0.0.7''))"
  by (intro conjI default_database_unused alist_lib.apr_lib_axioms sample_gate)

text \<open>
  Claim C9.  The request handler always returns, with \<open>OK\<close>, \<open>DECLINED\<close> or the value 1 of a failed
  connection, reads its tables only inside their bounds, leaves no statement
  unfinalized when it closes the database, and leaves no connection open, for every request, configuration and database,
  provided that the errors of failed connections can be used as formats for the log.
\<close>

theorem gate_request_handler_total:
  assumes "sqlite_lib S" "\<forall>p err. handler_connect S p = Inl err \<longrightarrow> apr_format A (fatal_text err) \<noteq> None"
  shows "\<exists>r' w res. gate_request_handler A S readable big r = Some (r', w, res) \<and> res \<in> {OK, DECLINED, 1} \<and>
    (case w of None \<Rightarrow> True | Some w' \<Rightarrow> w_live w' = 0) \<and> handler_connections A S readable big r n = Some n"
  using assms by (rule handler_total)

theorem gate_request_handler_total_witness:
  "sqlite_lib (sample_api []) \<and>
   (\<exists>r' w res. gate_request_handler alist_apr (sample_api []) (\<lambda>_. True) False sample_req = Some (r', w, res) \<and>
      res \<in> {OK, DECLINED, 1} \<and> (case w of None \<Rightarrow> True | Some w' \<Rightarrow> w_live w' = 0) \<and>
      handler_connections alist_apr (sample_api []) (\<lambda>_. True) False sample_req 0 = Some 0)"
  by (intro conjI gate_request_handler_total engine_lib) (simp add: handler_connect_def engine_def)

text \<open>
  Claim C14.  Let the configured database be a file that can be read but not opened, and let its path hold
  \<open>%s\<close>, with no percent sign before it in the error text.  Then the handler has undefined behaviour:
  the error text, which ends with the path, is used as a format for the log, and the formatter reads an
  argument that was never passed.
\<close>

theorem connect_error_used_as_format:
  assumes "apr_lib A" "plain_settings A r" "effective_database A r = Some (a @ ''%s'' @ b)" "readable (a @ ''%s'' @ b)"
    and "sq_open S (Some (a @ ''%s'' @ b)) = (rc, db)" "rc \<noteq> 0"
    and "CHR ''%'' \<notin> set (database_error S db (Some ''Can't open database: ''))" "CHR ''%'' \<notin> set a"
  shows "gate_request_handler A S readable big r = None"
proof -
  let ?e = "database_error S db (Some ''Can't open database: '')" and ?p = "a @ ''%s'' @ b"
  have c: "handler_connect S ?p = Inl (?e @ ?p)" using assms(5,6) by (simp add: handler_connect_def)
  have "CHR ''%'' \<notin> set (''FATAL ERROR: '' @ ?e @ a)" using assms(7,8) by simp
  from apr_lib.format_plain [OF assms(1) this, of "''%s'' @ b"] apr_lib.format_s [OF assms(1), of b]
  have f: "apr_format A (fatal_text (?e @ ?p)) = None" by (simp add: fatal_text_def)
  show ?thesis
    by (rule apr_lib.gate_request_handler_cases [OF assms(1,2), of readable S big])
      (use assms(3,4) c f in simp)
qed

definition percent_request :: "(entry list, (cstring \<times> value_alist) list) request" where
  "percent_request = (sample_request (Some ''MYGATE'') ''10.0.0.7'')\<lparr>r_server :=
     \<lparr>cfg_handler = Some ''MYGATE'', cfg_default_database = None, cfg_options = [],
       cfg_handlers = [(''MYGATE'', [(''GateDatabase'', ''/etc/%s'')])]\<rparr>\<rparr>"

theorem connect_error_used_as_format_witness:
  "gate_request_handler alist_apr ((sample_api [])\<lparr>sq_open := \<lambda>p. (14, None)\<rparr>) (\<lambda>_. True) False percent_request = None"
proof (rule connect_error_used_as_format [OF alist_lib.apr_lib_axioms, where a = "''/etc/''" and b = "[]" and rc = 14])
  have "effective_settings alist_apr percent_request = Some [(''GateDatabase'', ''/etc/%s'')]"
    by (simp add: effective_settings_def effective_gate_def percent_request_def sample_request_def gate_handler_config_def)
  then show "effective_database alist_apr percent_request = Some (''/etc/'' @ ''%s'' @ [])" "plain_settings alist_apr percent_request"
    by (auto simp: effective_database_def plain_settings_def split: if_splits)
qed (simp_all add: database_error_def engine_def)

end
