(* ===== verification/Gate_Server.thy ===== *)
theory Gate_Server
  imports Gate_Module
begin

text \<open>
  From the directives to the decision on a request: the directive functions of \<open>mod_gate.c\<close> fill the
  configuration of a server and one per section, the sections that apply to a request are merged with
  \<open>merge_dir_conf\<close>, and the handler of \<open>module.cpp\<close> decides.  Which sections apply, in which order Apache
  merges them and how it brackets the merges is not code of the module: the properties hold for every
  list of sections in the order of their merging and for every bracketing.
\<close>

section \<open>Configurations as calls make them\<close>

text \<open>
  The configuration of a directory, from the calls of the directive functions in each of the merged
  sections.  In a section \<open>ap_check_cmd_context\<close> gives an error text, here \<open>ctx\<close>.  A configuration
  in which no directive stands is that of an empty list of calls.
\<close>

inductive merged_dir :: "('t, 'h, 'hh) apr_api \<Rightarrow> directive_call list list \<Rightarrow> 't gate_dir_config \<Rightarrow> bool" for A where
  merged_section: "dir_conf st = create_dir_conf A dir \<Longrightarrow> run_calls A (map (Pair (Some ctx)) ds) st = Inr st' \<Longrightarrow>
    merged_dir A [ds] (dir_conf st')"
| merged_pair: "merged_dir A xs cur \<Longrightarrow> merged_dir A ys new \<Longrightarrow> merged_dir A (xs @ ys) (merge_dir_conf A cur new)"

text \<open>
  A request whose server was configured by the calls \<open>ds\<close> outside sections, whose directory by the
  sections \<open>secs\<close>, and which has no note of the name \<open>Gate\<close> yet.
\<close>

definition configured ::
  "('t, 'h, 'hh) apr_api \<Rightarrow> directive_call list \<Rightarrow> directive_call list list \<Rightarrow> ('t, 'hh) request \<Rightarrow> bool" where
  "configured A ds secs r \<longleftrightarrow>
     (\<exists>dir e st. run_calls A (map (Pair None) ds) (initial_conf A dir e) = Inr st \<and> r_server r = server_conf st) \<and>
     merged_dir A secs (r_dir r) \<and> tbl_get (apr_tables A) (r_notes r) ''Gate'' = None"

section \<open>What the calls say\<close>

text \<open>The options a call sets in a section, and outside.\<close>

definition dir_settings :: "directive_call \<Rightarrow> entry list" where
  "dir_settings d = (case d of
     Set_gate_default_database p \<Rightarrow> [(''GateDatabase'', p)] | Set_gate_filter g \<Rightarrow> [(''Gate'', g)] | Set_gate_config_var k v \<Rightarrow> [(k, v)] | _ \<Rightarrow> [])"

definition top_settings :: "directive_call \<Rightarrow> entry list" where
  "top_settings d = (case d of Set_gate_config_var k v \<Rightarrow> [(k, v)] | _ \<Rightarrow> [])"

definition gate_settings :: "directive_call \<Rightarrow> cstring list" where
  "gate_settings d = (case d of Set_gate_filter g \<Rightarrow> [g] | _ \<Rightarrow> [])"

definition last_of :: "'a list \<Rightarrow> 'a option" where
  "last_of xs = (if xs = [] then None else Some (last xs))"

text \<open>
  The handler a request is given: the last \<open>Gate\<close> of the merged sections, else the last one outside,
  else the last option of that name; and its database.
\<close>

definition chosen_gate :: "directive_call list list \<Rightarrow> directive_call list \<Rightarrow> cstring option" where
  "chosen_gate secs ds =
     or_else (last_entry ''Gate'' (concat (map dir_settings (concat secs))))
       (or_else (last_of (concat (map gate_settings ds))) (last_entry ''Gate'' (concat (map top_settings ds))))"

definition chosen_database :: "directive_call list list \<Rightarrow> directive_call list \<Rightarrow> cstring option" where
  "chosen_database secs ds = do {
     g \<leftarrow> chosen_gate secs ds;
     if Set_gate_filter_declare g \<in> set ds then last_param g ''GateDatabase'' ds else None
   }"

text \<open>Functions that return an error in a section.\<close>

definition server_only :: "directive_call \<Rightarrow> bool" where
  "server_only d = (case d of Set_gate_filter_declare a \<Rightarrow> True | Set_gate_filter_database a b \<Rightarrow> True | Set_gate_filter_config a b c \<Rightarrow> True | _ \<Rightarrow> False)"

lemma last_of_append: "last_of (xs @ ys) = or_else (last_of ys) (last_of xs)"
  by (simp add: last_of_def or_else_def)

lemma last_entry_or_else: "last_entry k (xs @ ys) = or_else (last_entry k ys) (last_entry k xs)"
  by (simp add: last_entry_append or_else_def)

lemma or_else_assoc: "or_else (or_else a b) c = or_else a (or_else b c)"
  by (simp add: or_else_def split: option.split)

section \<open>Sections\<close>

lemma section_cmd:
  "snd (call_directive A (Some ctx) d st) = None \<longleftrightarrow> \<not> server_only d"
  "server_conf (fst (call_directive A (Some ctx) d st)) = server_conf st"
  "dir_path (dir_conf (fst (call_directive A (Some ctx) d st))) = dir_path (dir_conf st)"
  by (cases d; simp add: directive_defs server_only_def)+

context apr_lib
begin

lemma section_cmd_get:
  "tbl_get (apr_tables A) (dir_options (dir_conf (fst (call_directive A (Some ctx) d st)))) k =
     or_else (last_entry k (dir_settings d)) (tbl_get (apr_tables A) (dir_options (dir_conf st)) k)"
  by (cases d) (simp_all add: directive_defs dir_settings_def tbl.get_set)

lemma section_run:
  assumes "built_dir A (dir_conf st)"
  shows "case run_calls A (map (Pair (Some ctx)) ds) st of
     Inl err \<Rightarrow> \<not> list_all (\<lambda>d. \<not> server_only d) ds
   | Inr st' \<Rightarrow> list_all (\<lambda>d. \<not> server_only d) ds \<and> server_conf st' = server_conf st \<and> built_dir A (dir_conf st') \<and>
       dir_path (dir_conf st') = dir_path (dir_conf st) \<and>
       (\<forall>k. tbl_get (apr_tables A) (dir_options (dir_conf st')) k =
          or_else (last_entry k (concat (map dir_settings ds))) (tbl_get (apr_tables A) (dir_options (dir_conf st)) k))"
  using assms
proof (induction ds arbitrary: st)
  case (Cons d ds)
  obtain st1 err where c: "call_directive A (Some ctx) d st = (st1, err)" by fastforce
  have b: "built_dir A (dir_conf st1)" using built_cmd [OF Cons.prems, of "Some ctx" d] c by simp
  show ?case
    using Cons.IH [OF b] section_cmd [of A ctx d st] section_cmd_get [of ctx d st] c
    by (auto simp: last_entry_or_else or_else_assoc split: option.splits sum.splits)
qed simp

lemma section_ok:
  assumes "built_dir A (dir_conf st)"
  shows "(\<exists>st'. run_calls A (map (Pair (Some ctx)) ds) st = Inr st') \<longleftrightarrow> list_all (\<lambda>d. \<not> server_only d) ds"
  using section_run [OF assms, of ds ctx] by (cases "run_calls A (map (Pair (Some ctx)) ds) st") auto

lemma merged_dir_get:
  "merged_dir A secs d \<Longrightarrow> built_dir A d \<and>
     (\<forall>k. tbl_get (apr_tables A) (dir_options d) k = last_entry k (concat (map dir_settings (concat secs))))"
proof (induction rule: merged_dir.induct)
  case (merged_section st dir ctx ds st')
  have "built_dir A (dir_conf st)" by (simp add: merged_section built_create)
  from section_run [OF this, of ds ctx] merged_section show ?case by (simp add: create_dir_conf_def)
next
  case (merged_pair xs cur ys new)
  then show ?case
    using merge_lookup [of cur new] by (auto simp: built_merge last_entry_append split: option.split)
qed

end

section \<open>The calls outside sections\<close>

text \<open>What the calls \<open>ds\<close> make of a state.\<close>

definition calls_result ::
  "('t, 'h, 'hh) apr_api \<Rightarrow> directive_call list \<Rightarrow> ('t, 'hh) conf_state \<Rightarrow> ('t, 'hh) conf_state \<Rightarrow> bool" where
  "calls_result A ds st st' \<longleftrightarrow>
     spec_run ds (handlers_abs A st) = Some (handlers_abs A st') \<and>
     cfg_handler (server_conf st') = or_else (last_of (concat (map gate_settings ds))) (cfg_handler (server_conf st)) \<and>
     (\<forall>k. tbl_get (apr_tables A) (cfg_options (server_conf st')) k =
       or_else (last_entry k (concat (map top_settings ds))) (tbl_get (apr_tables A) (cfg_options (server_conf st)) k)) \<and>
     (unique_keys (tbl_elts (apr_tables A) (cfg_options (server_conf st))) \<longrightarrow>
       unique_keys (tbl_elts (apr_tables A) (cfg_options (server_conf st'))))"

context apr_lib
begin

lemma top_cmd:
  assumes "call_directive A None d st = (st1, None)"
  shows "calls_result A [d] st st1"
proof -
  have m: "spec_cmd d (handlers_abs A st) = Some (handlers_abs A st1)"
    using call_directive_refines [OF assms] by (simp split: option.splits)
  have "cfg_handler (server_conf st1) = or_else (last_of (gate_settings d)) (cfg_handler (server_conf st))"
    using assms by (cases d; auto simp: directive_defs gate_settings_def last_of_def Let_def split: if_splits option.splits)+
  moreover have "tbl_get (apr_tables A) (cfg_options (server_conf st1)) k =
      or_else (last_entry k (top_settings d)) (tbl_get (apr_tables A) (cfg_options (server_conf st)) k)" for k
    using assms by (cases d) (auto simp: directive_defs top_settings_def tbl.get_set Let_def split: if_splits option.splits)
  moreover have "unique_keys (tbl_elts (apr_tables A) (cfg_options (server_conf st))) \<Longrightarrow>
      unique_keys (tbl_elts (apr_tables A) (cfg_options (server_conf st1)))"
    using assms by (cases d) (auto simp: directive_defs tbl.unique_set Let_def split: if_splits option.splits)
  ultimately show ?thesis using m by (simp add: calls_result_def)
qed

lemma calls_result_Cons:
  assumes "calls_result A [d] st st1" "calls_result A ds st1 st2"
  shows "calls_result A (d # ds) st st2"
  using assms
  by (auto simp: calls_result_def last_of_append last_entry_or_else or_else_assoc split: option.splits)

lemma run_calls_result: "run_calls A (map (Pair None) ds) st = Inr st' \<Longrightarrow> calls_result A ds st st'"
proof (induction ds arbitrary: st)
  case Nil
  then show ?case by (simp add: calls_result_def last_of_def)
next
  case (Cons d ds)
  obtain st1 err where c: "call_directive A None d st = (st1, err)" by fastforce
  with Cons.prems have "err = None" "run_calls A (map (Pair None) ds) st1 = Inr st'" by (auto split: option.splits)
  then show ?case using calls_result_Cons [OF top_cmd Cons.IH] c by simp
qed

lemma configured_handlers:
  assumes "configured A ds secs r"
  shows "case gate_handler_config A (r_server r) hn of
      None \<Rightarrow> Set_gate_filter_declare hn \<notin> set ds
    | Some h \<Rightarrow> Set_gate_filter_declare hn \<in> set ds \<and> h_get (apr_values A) h k = last_param hn k ds"
proof -
  obtain dir e st where st: "run_calls A (map (Pair None) ds) (initial_conf A dir e) = Inr st" "r_server r = server_conf st"
    using assms by (auto simp: configured_def)
  have "spec_run ds Map.empty = Some (handlers_abs A st)"
    using run_calls_result [OF st(1)] by (simp add: calls_result_def handlers_abs_initial)
  from spec_run_handlers [OF this] show ?thesis by (simp add: st(2))
qed

lemma configured_gate:
  assumes "configured A ds secs r"
  shows "effective_gate A r = chosen_gate secs ds"
proof -
  obtain dir e st where st: "run_calls A (map (Pair None) ds) (initial_conf A dir e) = Inr st" "r_server r = server_conf st"
    using assms by (auto simp: configured_def)
  note res = run_calls_result [OF st(1)]
  have d: "merged_dir A secs (r_dir r)" "tbl_get (apr_tables A) (r_notes r) ''Gate'' = None"
    using assms by (simp_all add: configured_def)
  have "tbl_get (apr_tables A) (dir_options (r_dir r)) ''Gate'' = last_entry ''Gate'' (concat (map dir_settings (concat secs)))"
    using merged_dir_get [OF d(1)] by simp
  moreover have "cfg_handler (r_server r) = last_of (concat (map gate_settings ds))"
    using res by (simp add: st(2) calls_result_def initial_conf_def create_config_def)
  moreover have "last_entry ''Gate'' (tbl_elts (apr_tables A) (cfg_options (r_server r))) =
      last_entry ''Gate'' (concat (map top_settings ds))"
    using res by (simp add: st(2) calls_result_def initial_conf_def create_config_def last_entry_unique tbl.get_elts [symmetric])
  ultimately show ?thesis using d(2) by (simp add: effective_gate_def chosen_gate_def)
qed

lemma configured_database:
  assumes "configured A ds secs r"
  shows "effective_database A r = chosen_database secs ds"
  using configured_handlers [OF assms, of "the (chosen_gate secs ds)" "''GateDatabase''"]
  by (auto simp: effective_database_def effective_settings_def configured_gate [OF assms] chosen_database_def
    split: option.splits bind_splits)

lemma last_param_source: "last_param hn k ds = Some v \<Longrightarrow> k = ''GateDatabase'' \<or> (\<exists>w. Set_gate_filter_config hn k w \<in> set ds)"
  by (induction ds) (auto simp: sets_param_def split: option.splits directive_call.splits if_splits)

lemma configured_plain:
  assumes "configured A ds secs r"
    and plain: "\<And>g k v. chosen_gate secs ds = Some g \<Longrightarrow> Set_gate_filter_config g k v \<in> set ds \<Longrightarrow> \<not> same_key ''Gate'' k"
  shows "plain_settings A r"
  unfolding plain_settings_def
proof (intro allI impI)
  fix h k v
  assume h: "effective_settings A r = Some h" "h_get (apr_values A) h k = Some v"
  then obtain g where g: "chosen_gate secs ds = Some g" "gate_handler_config A (r_server r) g = Some h"
    by (auto simp: effective_settings_def configured_gate [OF assms(1)] bind_eq_Some_conv)
  then have "last_param g k ds = Some v" using configured_handlers [OF assms(1), of g k] h(2) by simp
  then show "\<not> same_key ''Gate'' k" using last_param_source plain [OF g(1)] gate_keys(2) by blast
qed

end

section \<open>Properties\<close>

text \<open>
  Claim C4.  From the directives to the decision.  Let the server of a request be configured by
  calls of the directive functions outside sections, none of which failed, and the directory of the
  request by merging sections, each filled by calls, in any order and bracketing.  Then the
  request is decided by one database: that given last to the handler named by the last \<open>Gate\<close> of the
  merged sections, in the order in which they were merged, else by the last \<open>Gate\<close> outside.  If that database
  lists the client's address (as the query understands it), the response has the code of such
  a row; else, and when there is no such database, the request proceeds and only its notes have
  changed.  (The handler has no parameter that is itself called \<open>Gate\<close>.)
\<close>

theorem configuration_decides:
  assumes "apr_lib A" "sqlite_ip S ip_rows" "configured A ds secs r"
    and "\<forall>g k v. chosen_gate secs ds = Some g \<longrightarrow> Set_gate_filter_config g k v \<in> set ds \<longrightarrow> \<not> same_key ''Gate'' k"
    and "\<forall>p. chosen_database secs ds = Some p \<longrightarrow>
      readable p \<and> p \<noteq> [] \<and> sq_open S (Some p) = (SQLITE_OK, db) \<and> ip_rows db = Some rows"
    and "ip_number big (r_remote_ip r) = Some addr"
  shows "\<exists>r' w res. gate_request_handler A S readable big r = Some (r', w, res) \<and>
    (if chosen_database secs ds \<noteq> None \<and> (\<exists>x\<in>set rows. lookup_matches addr x)
     then \<exists>x\<in>set rows. lookup_matches addr x \<and> r_status r' = http_code x \<and>
       res = (if http_code x = 200 then DECLINED else OK)
     else notes_only r r' \<and> res = DECLINED)"
proof -
  have plain: "plain_settings A r" and database: "effective_database A r = chosen_database secs ds"
    using apr_lib.configured_plain [OF assms(1,3)] apr_lib.configured_database [OF assms(1,3)] assms(4) by blast+
  show ?thesis
  proof (cases "chosen_database secs ds")
    case None
    have "\<exists>r'. notes_only r r' \<and> gate_request_handler A S readable big r = Some (r', None, DECLINED)"
      by (rule apr_lib.gate_request_handler_cases [OF assms(1) plain, of readable S big]) (auto simp: database None)
    then show ?thesis using None by auto
  next
    case (Some p)
    have "checked_against A S ip_rows readable r rows"
      using assms(1,2,5) plain database Some by (auto simp: checked_against_def)
    from handler_outcome_frame [OF this assms(6)] show ?thesis using Some by fastforce
  qed
qed

definition sample_calls :: "directive_call list" where
  "sample_calls = [Set_gate_filter_declare ''MYGATE'', Set_gate_filter_declare ''OTHER'',
     Set_gate_filter_database ''MYGATE'' ''/etc/gate.db'', Set_gate_filter ''OTHER'']"

abbreviation "section_state ds \<equiv> run_calls alist_apr (map (Pair (Some ''not here'')) ds) (initial_conf alist_apr (Some ''/private'') Map.empty)"

definition sample_merged :: "entry list gate_dir_config" where
  "sample_merged = merge_dir_conf alist_apr (create_dir_conf alist_apr None)
     (dir_conf (case section_state [Set_gate_filter ''MYGATE''] of Inr st \<Rightarrow> st | Inl e \<Rightarrow> initial_conf alist_apr None Map.empty))"

definition configured_sample :: "(entry list, (cstring \<times> value_alist) list) request" where
  "configured_sample = sample_req\<lparr>r_dir := sample_merged, r_server :=
     server_conf (case run_calls alist_apr (map (Pair None) sample_calls) (initial_conf alist_apr None Map.empty) of
       Inr st \<Rightarrow> st | Inl e \<Rightarrow> initial_conf alist_apr None Map.empty)\<rparr>"

lemma sample_run: "\<exists>st. run_calls alist_apr (map (Pair None) sample_calls) (initial_conf alist_apr None Map.empty) = Inr st"
  using alist_lib.run_calls_initial [of sample_calls None Map.empty]
  by (auto simp: sample_calls_def names_handler_def declares_def split: sum.splits)

lemma sample_merged_dir: "merged_dir alist_apr [[], [Set_gate_filter ''MYGATE'']] sample_merged"
proof -
  have none: "merged_dir alist_apr [[]] (create_dir_conf alist_apr None)"
    using merged_section [of "initial_conf alist_apr None Map.empty" alist_apr None "''not here''" "[]"]
    by (simp add: initial_conf_def)
  obtain st where st: "section_state [Set_gate_filter ''MYGATE''] = Inr st"
    by (fastforce simp: directive_defs)
  have "merged_dir alist_apr [[Set_gate_filter ''MYGATE'']] (dir_conf st)"
    by (rule merged_section [OF _ st]) (simp add: initial_conf_def)
  from merged_pair [OF none this] show ?thesis using st by (simp add: sample_merged_def)
qed

lemma configured_sample: "configured alist_apr sample_calls [[], [Set_gate_filter ''MYGATE'']] configured_sample"
  using sample_run sample_merged_dir by (fastforce simp: configured_def configured_sample_def sample_request_def)

lemma sample_chosen:
  "chosen_gate [[], [Set_gate_filter ''MYGATE'']] sample_calls = Some ''MYGATE''"
  "chosen_database [[], [Set_gate_filter ''MYGATE'']] sample_calls = Some ''/etc/gate.db''"
  by (simp_all add: chosen_gate_def chosen_database_def sample_calls_def dir_settings_def gate_settings_def
    top_settings_def sets_param_def last_of_def)

theorem configuration_decides_witness:
  "\<exists>r' w res. gate_request_handler alist_apr (sample_api [sample_row 0x0A000007 0x0A000007 403]) (\<lambda>_. True) False
      configured_sample = Some (r', w, res) \<and> r_status r' = 403 \<and> res = OK"
proof -
  let ?rows = "[sample_row 0x0A000007 0x0A000007 403]" and ?secs = "[[], [Set_gate_filter ''MYGATE'']]"
  have "\<exists>r' w res. gate_request_handler alist_apr (sample_api ?rows) (\<lambda>_. True) False configured_sample = Some (r', w, res) \<and>
    (if chosen_database ?secs sample_calls \<noteq> None \<and> (\<exists>x\<in>set ?rows. lookup_matches 0x0A000007 x)
     then \<exists>x\<in>set ?rows. lookup_matches 0x0A000007 x \<and> r_status r' = http_code x \<and>
       res = (if http_code x = 200 then DECLINED else OK)
     else notes_only configured_sample r' \<and> res = DECLINED)"
  proof (rule configuration_decides [OF alist_lib.apr_lib_axioms eng.sqlite_ip_axioms configured_sample])
    show "\<forall>g k v. chosen_gate ?secs sample_calls = Some g \<longrightarrow>
        Set_gate_filter_config g k v \<in> set sample_calls \<longrightarrow> \<not> same_key ''Gate'' k"
      by (simp add: sample_calls_def)
    show "\<forall>p. chosen_database ?secs sample_calls = Some p \<longrightarrow>
        True \<and> p \<noteq> [] \<and> sq_open (sample_api ?rows) (Some p) = (SQLITE_OK, Some ?rows) \<and> Some ?rows = Some ?rows"
      by (simp add: sample_chosen engine_def sample_files_def)
    show "ip_number False (r_remote_ip configured_sample) = Some 0x0A000007"
      using sample_addr by (simp add: configured_sample_def)
  qed
  moreover have "lookup_matches 0x0A000007 (sample_row 0x0A000007 0x0A000007 403)" "http_code (sample_row 0x0A000007 0x0A000007 403) = 403"
    by (simp_all add: lookup_matches_def sample_row_def http_code_def)
  ultimately show ?thesis by (simp add: sample_chosen)
qed



end
