(* ===== verification/Gate_Hooks.thy ===== *)
theory Gate_Hooks
  imports Gate_Server
begin

text \<open>
  How the module is attached to the server: the hooks of \<open>src/src/mod_gate.c\<close>, start-up and
  shut-down of a child process, and the lines that \<open>src/src/module.cpp\<close> writes to the log.  Running
  the hooks is the server's part: a parameter with the documented order of hooks as its law.
\<close>

section \<open>The log\<close>

definition APLOG_CRIT :: int where "APLOG_CRIT = 2"
definition APLOG_WARNING :: int where "APLOG_WARNING = 4"
definition APLOG_NOTICE :: int where "APLOG_NOTICE = 5"

type_synonym log_line = "int \<times> cstring"

definition module_tag :: "int \<Rightarrow> cstring" where
  "module_tag pid = ''mod_gate['' @ dec_int pid @ '']''"

definition log_message :: "('t, 'h, 'hh) apr_api \<Rightarrow> int \<Rightarrow> int \<Rightarrow> cstring \<Rightarrow> log_line option" where
  "log_message A pid level message = map_option (Pair level) (apr_format A (module_tag pid @ '': '' @ message))"

definition log_warning :: "('t, 'h, 'hh) apr_api \<Rightarrow> int \<Rightarrow> cstring \<Rightarrow> log_line option" where
  "log_warning A pid message = log_message A pid APLOG_WARNING message"

text \<open>The line behind each entry of the log of a request.\<close>

fun line_of :: "int \<Rightarrow> gate_log \<Rightarrow> log_line" where
  "line_of pid (Log_error s) = (APLOG_CRIT, module_tag pid @ '' : '' @ s)"
| "line_of pid (Log_fatal s) = (APLOG_CRIT, module_tag pid @ '': '' @ s)"
| "line_of pid (Log_inet_failed ip) = (APLOG_CRIT, module_tag pid @ '': inet_pton failed() ip='' @ ip)"
| "line_of pid (Log_match ip record_id code) =
     (APLOG_NOTICE, module_tag pid @ '': MATCH ip='' @ ip @ '' record='' @ dec_int record_id @ '' http='' @ dec_int code)"
| "line_of pid (Log_exception e) = (APLOG_CRIT, module_tag pid @ '' : '' @ e)"

text \<open>The entry that \<open>log_error\<close> adds is the line that \<open>log_message\<close> writes.\<close>

lemma log_error_line:
  assumes "apr_lib A"
  shows "map_option (map (line_of pid) \<circ> r_log) (log_error A msg r) =
     map_option (\<lambda>l. map (line_of pid) (r_log r) @ [l]) (log_message A pid APLOG_CRIT msg)"
proof -
  have "CHR ''%'' \<notin> set (module_tag pid @ '': '')" by (simp add: module_tag_def)
  from apr_lib.format_plain [OF assms this, of msg] show ?thesis
    by (simp add: log_error_def log_message_def add_log_def option.map_comp o_def)
qed

section \<open>Hooks\<close>

definition APR_HOOK_FIRST :: int where "APR_HOOK_FIRST = 0"
definition APR_HOOK_MIDDLE :: int where "APR_HOOK_MIDDLE = 10"

text \<open>A child process: the lines it logged and the clean-ups registered with its pool.\<close>

datatype cleanup = Gate_child_shutdown | Other_cleanup

record child =
  ch_pid :: int
  ch_log :: "log_line list"
  ch_cleanups :: "cleanup list"

type_synonym ('t, 'hh) handler_fn = "('t, 'hh) request \<Rightarrow> (('t, 'hh) request \<times> int) option"

record ('t, 'hh) hooks =
  hk_child_init :: "(int \<times> (child \<Rightarrow> child)) list"
  hk_handler :: "(int \<times> ('t, 'hh) handler_fn) list"

definition gate_init_module :: "child \<Rightarrow> child \<times> int" where
  "gate_init_module c = (c\<lparr>ch_log := ch_log c @ [(APLOG_NOTICE, module_tag (ch_pid c) @ '': startup_module'')]\<rparr>, 0)"

definition gate_shutdown_module :: "child \<Rightarrow> child \<times> int" where
  "gate_shutdown_module c = (c, 0)"

definition gate_child_shutdown :: "child \<Rightarrow> child \<times> int" where
  "gate_child_shutdown c = (fst (gate_shutdown_module c), 0)"

definition gate_child_init_hook :: "child \<Rightarrow> child" where
  "gate_child_init_hook c =
     (let c1 = fst (gate_init_module c) in c1\<lparr>ch_cleanups := Gate_child_shutdown # ch_cleanups c1\<rparr>)"

definition gate_handler ::
  "('t, 'h, 'hh) apr_api \<Rightarrow> ('db, 'stmt) sqlite_api \<Rightarrow> (cstring \<Rightarrow> bool) \<Rightarrow> bool \<Rightarrow> ('t, 'hh) handler_fn" where
  "gate_handler A S readable big r =
     map_option (\<lambda>(r', w, res). (r', res)) (gate_request_handler A S readable big r)"

definition register_hooks ::
  "('t, 'h, 'hh) apr_api \<Rightarrow> ('db, 'stmt) sqlite_api \<Rightarrow> (cstring \<Rightarrow> bool) \<Rightarrow> bool \<Rightarrow> ('t, 'hh) hooks \<Rightarrow> ('t, 'hh) hooks" where
  "register_hooks A S readable big h =
     h\<lparr>hk_child_init := hk_child_init h @ [(APR_HOOK_MIDDLE, gate_child_init_hook)],
       hk_handler := hk_handler h @ [(APR_HOOK_FIRST, gate_handler A S readable big)]\<rparr>"

section \<open>Running the handlers\<close>

text \<open>
  Apache runs the handler hooks for a request.  The documented behaviour that the module relies on:
  a hook whose order is less than that of all others runs first; the result \<open>DECLINED\<close> passes the
  request on to the others, and any other result ends it.  A handler of another module is any
  function.
\<close>

locale httpd_handlers =
  fixes run_handler :: "(int \<times> ('t, 'hh) handler_fn) list \<Rightarrow> ('t, 'hh) handler_fn"
  assumes run_least: "list_all (\<lambda>x. n < fst x) (xs @ ys) \<Longrightarrow> run_handler (xs @ (n, f) # ys) r =
    (case f r of
       None \<Rightarrow> None
     | Some (r', res) \<Rightarrow> if res = DECLINED then run_handler (xs @ ys) r' else Some (r', res))"
begin

lemma run_gate_first:
  assumes "list_all (\<lambda>x. APR_HOOK_FIRST < fst x) (hk_handler h)"
  shows "run_handler (hk_handler (register_hooks A S readable big h)) r =
    (case gate_request_handler A S readable big r of
       None \<Rightarrow> None
     | Some (r', w, res) \<Rightarrow> if res = DECLINED then run_handler (hk_handler h) r' else Some (r', res))"
  using run_least [of APR_HOOK_FIRST "hk_handler h" "[]" "gate_handler A S readable big" r] assms
  by (auto simp: register_hooks_def gate_handler_def split: option.splits)

end

text \<open>An instance: the hooks sorted by their order, run until one does not decline.\<close>

fun run_in_turn :: "('t, 'hh) handler_fn list \<Rightarrow> ('t, 'hh) handler_fn" where
  "run_in_turn [] r = Some (r, DECLINED)"
| "run_in_turn (f # fs) r =
     (case f r of
        None \<Rightarrow> None
      | Some (r', res) \<Rightarrow> if res = DECLINED then run_in_turn fs r' else Some (r', res))"

definition run_sorted :: "(int \<times> ('t, 'hh) handler_fn) list \<Rightarrow> ('t, 'hh) handler_fn" where
  "run_sorted hs = run_in_turn (map snd (sort_key fst hs))"

lemma sort_key_least: "list_all (\<lambda>x. f y < f x) (xs @ ys) \<Longrightarrow> sort_key f (xs @ y # ys) = y # sort_key f (xs @ ys)"
proof (induction xs)
  case Nil
  then have "\<forall>x\<in>set (sort_key f ys). f y < f x" by (simp add: list_all_iff)
  then show ?case by (cases "sort_key f ys") auto
qed auto

interpretation sorted_hooks: httpd_handlers run_sorted
proof
  show "run_sorted (xs @ (n, f) # ys) r =
      (case f r of None \<Rightarrow> None | Some (r', res) \<Rightarrow> if res = DECLINED then run_sorted (xs @ ys) r' else Some (r', res))"
    if "list_all (\<lambda>x. n < fst x) (xs @ ys)" for n and xs ys :: "(int \<times> ('t, 'hh) handler_fn) list" and f r
    using sort_key_least [of fst "(n, f)" xs ys] that unfolding run_sorted_def by simp
qed

text \<open>
  Claim C5.  A blocked client reaches no other module: let all handlers of other modules be
  registered with a later order, and let the client's address be listed, with codes other than
  200.  Then the server answers the request with \<open>OK\<close> and the code of such a row, whatever the
  other handlers do, so none of them runs.  If no row matches, the other handlers get the
  request with nothing but its notes changed, and their result is the server's.
\<close>

theorem blocked_client_served_by_gate:
  assumes "httpd_handlers run" "checked_against A S ip_rows readable r rows" "ip_number big (r_remote_ip r) = Some addr"
    and "list_all (\<lambda>x. APR_HOOK_FIRST < fst x) (hk_handler h)"
    and "list_all (\<lambda>x. lookup_matches addr x \<longrightarrow> http_code x \<noteq> 200) rows"
  shows "\<exists>r'. if \<exists>x\<in>set rows. lookup_matches addr x
    then \<exists>x\<in>set rows. lookup_matches addr x \<and> r_status r' = http_code x \<and>
      run (hk_handler (register_hooks A S readable big h)) r = Some (r', OK)
    else notes_only r r' \<and>
      run (hk_handler (register_hooks A S readable big h)) r = run (hk_handler h) r'"
proof -
  obtain r' w res where g: "gate_request_handler A S readable big r = Some (r', Some w, res)"
    and out: "if \<exists>x\<in>set rows. lookup_matches addr x
     then \<exists>x\<in>set rows. lookup_matches addr x \<and> r_status r' = http_code x \<and>
       res = (if http_code x = 200 then DECLINED else OK)
     else notes_only r r' \<and> res = DECLINED"
    using handler_outcome_frame [OF assms(2,3)] by blast
  have served: "run (hk_handler (register_hooks A S readable big h)) r =
      (if res = DECLINED then run (hk_handler h) r' else Some (r', res))"
    by (simp add: httpd_handlers.run_gate_first [OF assms(1,4)] g)
  show ?thesis
    by (rule exI [of _ r']) (use out assms(5) served in \<open>auto simp: list_all_iff split: if_splits\<close>)
qed

definition page_hooks :: "(entry list, (cstring \<times> value_alist) list) hooks" where
  "page_hooks = \<lparr>hk_child_init = [], hk_handler = [(APR_HOOK_MIDDLE, \<lambda>r. Some (rputs ''page'' r, OK))]\<rparr>"

theorem blocked_client_served_by_gate_witness:
  "\<exists>r'. r_status r' = 403 \<and>
    run_sorted (hk_handler (register_hooks alist_apr (sample_api [sample_row 0x0A000007 0x0A000007 403]) (\<lambda>_. True) False page_hooks))
      sample_req = Some (r', OK)"
proof -
  have row: "lookup_matches 0x0A000007 (sample_row 0x0A000007 0x0A000007 403)"
    "http_code (sample_row 0x0A000007 0x0A000007 403) = 403"
    by (simp_all add: lookup_matches_def sample_row_def http_code_def)
  show ?thesis
    using blocked_client_served_by_gate [OF sorted_hooks.httpd_handlers_axioms sample_hyps, of page_hooks
      "[sample_row 0x0A000007 0x0A000007 403]" False] row
    by (simp add: page_hooks_def APR_HOOK_FIRST_def APR_HOOK_MIDDLE_def)
qed

end
