(* ===== verification/Table_Shared.thy ===== *)
theory Table_Shared
  imports Table_Wrapper
begin

text \<open>
  Table objects and the tables behind them (\<open>src/src/apr_table.cpp\<close>): an object of class \<open>table\<close> is a
  pointer to a table of APR, which other objects and the request may share; an iterator points
  to the array of the table, and sees what happens to it.  Theory \<open>Table_Wrapper\<close> works on the
  values of tables and lets an iterator visit the array as it was when the loop began.  Here the
  tables are in a store; \<open>live_while_copy\<close> shows when the two views agree.
\<close>

section \<open>The store\<close>

type_synonym handle = nat

text \<open>The variables that hold objects, the tables by their handles, and the first unused handle.\<close>

record 't table_store =
  objs :: "cstring \<Rightarrow> handle option"
  heap :: "handle \<Rightarrow> 't option"
  unused :: handle

definition store_ok :: "'t table_store \<Rightarrow> bool" where
  "store_ok s \<longleftrightarrow> (\<forall>h. heap s h \<noteq> None \<longrightarrow> h < unused s) \<and> (\<forall>x h. objs s x = Some h \<longrightarrow> heap s h \<noteq> None)"

section \<open>Objects\<close>

text \<open>The constructor from a pool makes a new table, the one from a pointer shares its table.\<close>

definition obj_make :: "'t table_api \<Rightarrow> cstring \<Rightarrow> 't table_store \<Rightarrow> 't table_store" where
  "obj_make T x s =
     s\<lparr>objs := (objs s)(x \<mapsto> unused s), heap := (heap s)(unused s \<mapsto> table_new T), unused := unused s + 1\<rparr>"

definition obj_of_handle :: "cstring \<Rightarrow> handle \<Rightarrow> 't table_store \<Rightarrow> 't table_store" where
  "obj_of_handle x h s = s\<lparr>objs := (objs s)(x \<mapsto> h)\<rparr>"

text \<open>The destructor does nothing to the table.\<close>

definition obj_delete :: "cstring \<Rightarrow> 't table_store \<Rightarrow> 't table_store" where
  "obj_delete x s = s\<lparr>objs := (objs s)(x := None)\<rparr>"

definition obj_assign_handle :: "cstring \<Rightarrow> handle \<Rightarrow> 't table_store \<Rightarrow> 't table_store" where
  "obj_assign_handle x h s = s\<lparr>objs := (objs s)(x \<mapsto> h)\<rparr>"

definition obj_assign :: "cstring \<Rightarrow> cstring \<Rightarrow> 't table_store \<Rightarrow> 't table_store" where
  "obj_assign x y s = (if x \<noteq> y then s\<lparr>objs := (objs s)(x := objs s y)\<rparr> else s)"

text \<open>The table behind an object, and an operation that replaces its contents.\<close>

definition obj_table :: "cstring \<Rightarrow> 't table_store \<Rightarrow> 't option" where
  "obj_table x s = do { h \<leftarrow> objs s x; heap s h }"

definition obj_change :: "('t \<Rightarrow> 't) \<Rightarrow> cstring \<Rightarrow> 't table_store \<Rightarrow> 't table_store option" where
  "obj_change f x s = do { h \<leftarrow> objs s x; t \<leftarrow> heap s h; Some (s\<lparr>heap := (heap s)(h \<mapsto> f t)\<rparr>) }"

definition obj_get :: "'t table_api \<Rightarrow> cstring \<Rightarrow> cstring \<Rightarrow> 't table_store \<Rightarrow> cstring option option" where
  "obj_get T x k s = map_option (\<lambda>t. table_get T t k) (obj_table x s)"

text \<open>The operations that change a table, as values.\<close>

datatype table_op = Op_set cstring cstring | Op_add cstring cstring | Op_merge cstring cstring | Op_unset cstring | Op_clear

definition apply_op :: "'t table_api \<Rightarrow> table_op \<Rightarrow> 't \<Rightarrow> 't" where
  "apply_op T c t =
     (case c of
        Op_set k v \<Rightarrow> table_set T t k v
      | Op_add k v \<Rightarrow> table_add T t k v
      | Op_merge k v \<Rightarrow> table_merge T t k v
      | Op_unset k \<Rightarrow> table_unset T t k
      | Op_clear \<Rightarrow> table_clear T t)"

definition obj_op :: "'t table_api \<Rightarrow> table_op \<Rightarrow> cstring \<Rightarrow> 't table_store \<Rightarrow> 't table_store option" where
  "obj_op T c x s = obj_change (apply_op T c) x s"

lemma obj_change_Some:
  assumes "obj_change f x s = Some s'"
  obtains h t where "objs s x = Some h" "heap s h = Some t" "s' = s\<lparr>heap := (heap s)(h \<mapsto> f t)\<rparr>"
  using assms by (auto simp: obj_change_def bind_eq_Some_conv)

lemma obj_change_defined: "store_ok s \<Longrightarrow> objs s x \<noteq> None \<Longrightarrow> \<exists>s'. obj_change f x s = Some s'"
  by (force simp: store_ok_def obj_change_def bind_eq_Some_conv)

lemma store_ok_make: "store_ok s \<Longrightarrow> store_ok (obj_make T x s)"
  by (auto simp: store_ok_def obj_make_def less_Suc_eq)

lemma store_ok_steps:
  assumes "store_ok s"
  shows "store_ok (obj_delete x s)" "store_ok (obj_assign x y s)"
    "heap s h \<noteq> None \<Longrightarrow> store_ok (obj_of_handle x h s)" "heap s h \<noteq> None \<Longrightarrow> store_ok (obj_assign_handle x h s)"
    "obj_change f x s = Some s' \<Longrightarrow> store_ok s'"
  using assms
  by (auto simp: store_ok_def obj_delete_def obj_assign_def obj_of_handle_def obj_assign_handle_def
      obj_change_def bind_eq_Some_conv split: if_splits)

text \<open>A table that was just made is shared with no other object.\<close>

lemma obj_make_fresh: "store_ok s \<Longrightarrow> y \<noteq> x \<Longrightarrow> objs (obj_make T x s) y \<noteq> objs (obj_make T x s) x"
  by (fastforce simp: store_ok_def obj_make_def)

section \<open>Iterators\<close>

text \<open>An iterator on the array of a table: the table and the position.\<close>

record live_iterator =
  li_h :: handle
  li_i :: int

definition view :: "'t table_api \<Rightarrow> 't table_store \<Rightarrow> live_iterator \<Rightarrow> iterator option" where
  "view T s li = map_option (\<lambda>t. \<lparr>it_h = tbl_elts T t, it_i = li_i li\<rparr>) (heap s (li_h li))"

definition live_of :: "cstring \<Rightarrow> 't table_store \<Rightarrow> live_iterator option" where
  "live_of x s = map_option (\<lambda>h. \<lparr>li_h = h, li_i = -1\<rparr>) (objs s x)"

text \<open>\<open>rebind\<close> and the assignment of an iterator.\<close>

definition live_rebind :: "live_iterator \<Rightarrow> cstring \<Rightarrow> 't table_store \<Rightarrow> live_iterator option" where
  "live_rebind li x s = live_of x s"

definition live_assign :: "live_iterator \<Rightarrow> live_iterator \<Rightarrow> live_iterator" where
  "live_assign this i = this\<lparr>li_h := li_h i, li_i := li_i i\<rparr>"

definition live_next :: "'t table_api \<Rightarrow> 't table_store \<Rightarrow> live_iterator \<Rightarrow> (live_iterator \<times> bool) option" where
  "live_next T s li = do {
     it \<leftarrow> view T s li;
     case iter_next it of (it', ok) \<Rightarrow> Some (li\<lparr>li_i := it_i it'\<rparr>, ok)
   }"

text \<open>A loop \<open>while (i.next()) body\<close> whose body may change the store.\<close>

partial_function (option) live_while ::
  "'t table_api \<Rightarrow> (live_iterator \<Rightarrow> 't table_store \<times> 'x \<Rightarrow> ('t table_store \<times> 'x) option)
     \<Rightarrow> live_iterator \<Rightarrow> 't table_store \<times> 'x \<Rightarrow> ('t table_store \<times> 'x) option" where
  "live_while T body li sx = do {
     (li', ok) \<leftarrow> live_next T (fst sx) li;
     if ok then do { sx' \<leftarrow> body li' sx; live_while T body li' sx' } else Some sx
   }"

text \<open>The body as it is when it is given the iterator on a copy of the array.\<close>

definition on_copy :: "handle \<Rightarrow> (live_iterator \<Rightarrow> 'y \<Rightarrow> 'y option) \<Rightarrow> iterator \<Rightarrow> 'y \<Rightarrow> 'y option" where
  "on_copy h body it = body \<lparr>li_h = h, li_i = it_i it\<rparr>"

text \<open>A body that, in the states \<open>I\<close>, which it does not leave, lets the table alone.\<close>

definition keeps_table ::
  "('t table_store \<Rightarrow> bool) \<Rightarrow> handle \<Rightarrow> (live_iterator \<Rightarrow> 't table_store \<times> 'x \<Rightarrow> ('t table_store \<times> 'x) option) \<Rightarrow> bool" where
  "keeps_table I h body \<longleftrightarrow>
     (\<forall>li sx sx'. I (fst sx) \<longrightarrow> body li sx = Some sx' \<longrightarrow> I (fst sx') \<and> heap (fst sx') h = heap (fst sx) h)"

lemma live_next_view:
  assumes "heap s h = Some t"
  shows "live_next T s \<lparr>li_h = h, li_i = i\<rparr> =
    (case iter_next \<lparr>it_h = tbl_elts T t, it_i = i\<rparr> of (it', ok) \<Rightarrow> Some (\<lparr>li_h = h, li_i = it_i it'\<rparr>, ok))"
  using assms by (simp add: live_next_def view_def split: prod.split)

text \<open>
  As long as the body lets the table alone, the loop does what it does on a copy of the array.
\<close>

lemma live_while_copy:
  assumes "keeps_table I h body" "I (fst sx)" "heap (fst sx) h = Some t" "j \<le> length (tbl_elts T t)"
  shows "live_while T body \<lparr>li_h = h, li_i = int j - 1\<rparr> sx =
    while_next (on_copy h body) \<lparr>it_h = tbl_elts T t, it_i = int j - 1\<rparr> sx"
  using assms(2-4)
proof (induction "length (tbl_elts T t) - j" arbitrary: j sx)
  case 0
  then show ?case
    by (subst live_while.simps, subst while_next.simps) (simp add: live_next_view iter_next_def)
next
  case (Suc n)
  let ?h = "tbl_elts T t"
  have j: "j < length ?h" using Suc.hyps(2) by simp
  have step: "live_while T body \<lparr>li_h = h, li_i = int j\<rparr> sx' =
      while_next (on_copy h body) \<lparr>it_h = ?h, it_i = int j\<rparr> sx'"
    if b: "body \<lparr>li_h = h, li_i = int j\<rparr> sx = Some sx'" for sx'
  proof -
    have "I (fst sx')" "heap (fst sx') h = Some t"
      using assms(1) b Suc.prems(1,2) unfolding keeps_table_def by metis+
    then show ?thesis using Suc.hyps(1) [of "Suc j" sx'] Suc.hyps(2) by simp
  qed
  show ?case
    by (subst live_while.simps, subst while_next.simps)
      (cases "body \<lparr>li_h = h, li_i = int j\<rparr> sx"; simp add: live_next_view [OF Suc.prems(2)] next_entry [OF j] on_copy_def step)
qed

section \<open>Loops that pass on what they visit\<close>

text \<open>A body \<open>y.f(i.key(), i.data())\<close>, for an operation \<open>f\<close> of two arguments such as \<open>set\<close> or \<open>add\<close>.\<close>

definition pass_visited ::
  "'t table_api \<Rightarrow> ('t \<Rightarrow> cstring \<Rightarrow> cstring \<Rightarrow> 't) \<Rightarrow> cstring \<Rightarrow> live_iterator \<Rightarrow> 't table_store \<times> unit
     \<Rightarrow> ('t table_store \<times> unit) option" where
  "pass_visited T f y li sx = do {
     it \<leftarrow> view T (fst sx) li;
     (k, d) \<leftarrow> iter_pair it;
     s' \<leftarrow> obj_change (\<lambda>t. f t k d) y (fst sx);
     Some (s', snd sx)
   }"

text \<open>Into another table such a loop works on a copy of the array.\<close>

lemma pass_visited_keeps: "keeps_table (\<lambda>s. objs s y = Some h') h (pass_visited T f y)" if "h \<noteq> h'"
  using that by (auto simp: keeps_table_def pass_visited_def bind_eq_Some_conv elim!: obj_change_Some split: prod.splits)

lemma pass_visited_step:
  assumes "heap s h = Some t" "objs s y = Some h'" "heap s h' = Some u" "k < length (tbl_elts T t)"
  shows "pass_visited T f y \<lparr>li_h = h, li_i = int k\<rparr> (s, ()) =
    Some (s\<lparr>heap := (heap s)(h' \<mapsto> f u (fst (tbl_elts T t ! k)) (snd (tbl_elts T t ! k)))\<rparr>, ())"
  using assms by (simp add: pass_visited_def view_def iter_pair_at obj_change_def split: prod.split)

lemma pass_all_separate:
  assumes "heap s h = Some t" "objs s y = Some h'" "heap s h' = Some u" "h \<noteq> h'" "j \<le> length (tbl_elts T t)"
  shows "live_while T (pass_visited T f y) \<lparr>li_h = h, li_i = int j - 1\<rparr> (s, ()) =
    Some (s\<lparr>heap := (heap s)(h' \<mapsto> fold (\<lambda>e u. f u (fst e) (snd e)) (drop j (tbl_elts T t)) u)\<rparr>, ())"
  using assms
proof (induction "length (tbl_elts T t) - j" arbitrary: j s u)
  case 0
  then have "s\<lparr>heap := (heap s)(h' \<mapsto> u)\<rparr> = s" by (simp add: fun_upd_idem)
  with 0 show ?case by (subst live_while.simps) (simp add: live_next_view iter_next_def)
next
  case (Suc n)
  let ?es = "tbl_elts T t"
  let ?u = "f u (fst (?es ! j)) (snd (?es ! j))"
  let ?s = "s\<lparr>heap := (heap s)(h' \<mapsto> ?u)\<rparr>"
  have j: "j < length ?es" using Suc.hyps(2) by simp
  have d: "drop j ?es = ?es ! j # drop (Suc j) ?es" using j by (simp add: Cons_nth_drop_Suc)
  have "live_while T (pass_visited T f y) \<lparr>li_h = h, li_i = int j\<rparr> (?s, ()) =
      Some (s\<lparr>heap := (heap s)(h' \<mapsto> fold (\<lambda>e u. f u (fst e) (snd e)) (drop j ?es) u)\<rparr>, ())"
    using Suc.hyps(1) [of "Suc j" ?s ?u] Suc.hyps(2) Suc.prems j by (simp add: d)
  then show ?case
    by (subst live_while.simps)
      (simp add: live_next_view [OF Suc.prems(1)] next_entry [OF j] pass_visited_step [OF Suc.prems(1-3) j])
qed

section \<open>Sharing\<close>

text \<open>
  An operation through one object is seen through every object on the same table and through no
  other.
\<close>

lemma obj_change_table:
  assumes "obj_change f x s = Some s'"
  shows "obj_table y s' = (if objs s y = objs s x then map_option f (obj_table y s) else obj_table y s)"
  using assms by (cases "objs s y") (auto elim!: obj_change_Some simp: obj_table_def)

lemma obj_assign_shares: "x \<noteq> y \<Longrightarrow> obj_change f x (obj_assign x y s) = Some s' \<Longrightarrow> obj_table y s' = map_option f (obj_table y s)"
  using obj_change_table [of f x "obj_assign x y s" s' y] by (simp add: obj_assign_def obj_table_def)

end
