(* ===== verification/Request_Tables.thy ===== *)
theory Request_Tables
  imports Table_Shared
begin

text \<open>
  The tables of a request (\<open>src/src/request.h\<close>): the methods \<open>headers_in\<close>, \<open>headers_out\<close>,
  \<open>err_headers_out\<close>, \<open>subprocess_env\<close> and \<open>notes\<close> return an object of class \<open>table\<close> on the table of the
  request itself, so that a call such as \<open>req.headers_out().set(k, v)\<close> changes the request.  The other
  theories model a table of a request as a value that such a call replaces; here that view is
  justified on the store of theory \<open>Table_Shared\<close>.
\<close>

section \<open>The methods\<close>

record request_tables =
  rt_headers_in :: handle
  rt_headers_out :: handle
  rt_err_headers_out :: handle
  rt_subprocess_env :: handle
  rt_notes :: handle

text \<open>Each method makes the object \<open>x\<close>, by the constructor that takes a pointer.\<close>

definition headers_in :: "request_tables \<Rightarrow> cstring \<Rightarrow> 't table_store \<Rightarrow> 't table_store" where
  "headers_in r x s = obj_of_handle x (rt_headers_in r) s"

definition headers_out :: "request_tables \<Rightarrow> cstring \<Rightarrow> 't table_store \<Rightarrow> 't table_store" where
  "headers_out r x s = obj_of_handle x (rt_headers_out r) s"

definition err_headers_out :: "request_tables \<Rightarrow> cstring \<Rightarrow> 't table_store \<Rightarrow> 't table_store" where
  "err_headers_out r x s = obj_of_handle x (rt_err_headers_out r) s"

definition subprocess_env :: "request_tables \<Rightarrow> cstring \<Rightarrow> 't table_store \<Rightarrow> 't table_store" where
  "subprocess_env r x s = obj_of_handle x (rt_subprocess_env r) s"

definition request_notes :: "request_tables \<Rightarrow> cstring \<Rightarrow> 't table_store \<Rightarrow> 't table_store" where
  "request_notes r x s = obj_of_handle x (rt_notes r) s"

datatype which_table = Headers_in | Headers_out | Err_headers_out | Subprocess_env | Notes

definition table_method :: "which_table \<Rightarrow> request_tables \<Rightarrow> cstring \<Rightarrow> 't table_store \<Rightarrow> 't table_store" where
  "table_method w =
     (case w of Headers_in \<Rightarrow> headers_in | Headers_out \<Rightarrow> headers_out | Err_headers_out \<Rightarrow> err_headers_out
      | Subprocess_env \<Rightarrow> subprocess_env | Notes \<Rightarrow> request_notes)"

text \<open>A call on the temporary object that a method returns; the object is destroyed after the call.\<close>

abbreviation temporary :: cstring where
  "temporary \<equiv> ''(temporary)''"

definition table_call ::
  "'t table_api \<Rightarrow> request_tables \<Rightarrow> which_table \<times> table_op \<Rightarrow> 't table_store \<Rightarrow> 't table_store option" where
  "table_call T r c s =
     map_option (obj_delete temporary) (obj_op T (snd c) temporary (table_method (fst c) r temporary s))"

fun table_calls ::
  "'t table_api \<Rightarrow> request_tables \<Rightarrow> (which_table \<times> table_op) list \<Rightarrow> 't table_store \<Rightarrow> 't table_store option" where
  "table_calls T r [] s = Some s"
| "table_calls T r (c # cs) s = (case table_call T r c s of None \<Rightarrow> None | Some s' \<Rightarrow> table_calls T r cs s')"

section \<open>The tables as values\<close>

definition handle_of :: "request_tables \<Rightarrow> which_table \<Rightarrow> handle" where
  "handle_of r w =
     (case w of Headers_in \<Rightarrow> rt_headers_in r | Headers_out \<Rightarrow> rt_headers_out r | Err_headers_out \<Rightarrow> rt_err_headers_out r
      | Subprocess_env \<Rightarrow> rt_subprocess_env r | Notes \<Rightarrow> rt_notes r)"

definition table_values :: "request_tables \<Rightarrow> 't table_store \<Rightarrow> which_table \<Rightarrow> 't option" where
  "table_values r s w = heap s (handle_of r w)"

text \<open>A request has five tables of its own.\<close>

definition own_tables :: "request_tables \<Rightarrow> 't table_store \<Rightarrow> bool" where
  "own_tables r s \<longleftrightarrow>
     distinct [rt_headers_in r, rt_headers_out r, rt_err_headers_out r, rt_subprocess_env r, rt_notes r] \<and>
     list_all (\<lambda>h. heap s h \<noteq> None)
       [rt_headers_in r, rt_headers_out r, rt_err_headers_out r, rt_subprocess_env r, rt_notes r]"

text \<open>What the calls mean for values.\<close>

fun value_calls :: "'t table_api \<Rightarrow> (which_table \<times> table_op) list \<Rightarrow> (which_table \<Rightarrow> 't option) \<Rightarrow> which_table \<Rightarrow> 't option" where
  "value_calls T [] v = v"
| "value_calls T ((w, c) # cs) v = value_calls T cs (v(w := map_option (apply_op T c) (v w)))"

lemma table_method_handle: "table_method w r x s = obj_of_handle x (handle_of r w) s"
  by (cases w)
    (simp_all add: table_method_def handle_of_def headers_in_def headers_out_def err_headers_out_def subprocess_env_def request_notes_def)

lemma own_tables_handles:
  assumes "own_tables r s"
  shows "handle_of r w = handle_of r w' \<longleftrightarrow> w = w'" "heap s (handle_of r w) \<noteq> None"
  using assms by (cases w; cases w'; auto simp: own_tables_def handle_of_def)+

text \<open>One call.\<close>

lemma table_call_value:
  assumes "own_tables r s" "objs s temporary = None"
  shows "\<exists>s'. table_call T r (w, c) s = Some s' \<and> own_tables r s' \<and> objs s' = objs s \<and>
    table_values r s' = (table_values r s)(w := map_option (apply_op T c) (table_values r s w)) \<and>
    (\<forall>h. h \<noteq> handle_of r w \<longrightarrow> heap s' h = heap s h)"
proof -
  obtain t where t: "heap s (handle_of r w) = Some t" using own_tables_handles(2) [OF assms(1)] by blast
  let ?s = "s\<lparr>heap := (heap s)(handle_of r w \<mapsto> apply_op T c t)\<rparr>"
  have "(objs s)(temporary := None) = objs s" using assms(2) by (simp add: fun_upd_idem)
  then have "table_call T r (w, c) s = Some ?s"
    using t by (simp add: table_call_def table_method_handle obj_op_def obj_change_def obj_of_handle_def obj_delete_def)
  moreover have "own_tables r ?s" using assms(1) by (simp add: own_tables_def)
  moreover have "table_values r ?s = (table_values r s)(w := map_option (apply_op T c) (table_values r s w))"
    using t own_tables_handles(1) [OF assms(1)] by (auto simp: fun_eq_iff table_values_def)
  ultimately show ?thesis by simp
qed

section \<open>Sequences of calls\<close>

text \<open>
  Any sequence of table operations on the objects that the methods of a request return
  does to its five tables what it does to five values: every operation changes the table of its
  method, no other table of the request, no other table at all, and no object that was there.
\<close>

lemma table_calls_refine_values:
  assumes "own_tables r s" "objs s temporary = None"
  shows "\<exists>s'. table_calls T r cs s = Some s' \<and> table_values r s' = value_calls T cs (table_values r s) \<and>
    objs s' = objs s \<and> (\<forall>h. (\<forall>w. h \<noteq> handle_of r w) \<longrightarrow> heap s' h = heap s h)"
  using assms
proof (induction cs arbitrary: s)
  case (Cons c cs)
  obtain w op where c: "c = (w, op)" by fastforce
  obtain s1 where s1: "table_call T r (w, op) s = Some s1" "own_tables r s1" "objs s1 = objs s"
      "table_values r s1 = (table_values r s)(w := map_option (apply_op T op) (table_values r s w))"
      "\<forall>h. h \<noteq> handle_of r w \<longrightarrow> heap s1 h = heap s h"
    using table_call_value [OF Cons.prems] by metis
  obtain s' where s': "table_calls T r cs s1 = Some s'" "table_values r s' = value_calls T cs (table_values r s1)"
      "objs s' = objs s1" "\<forall>h. (\<forall>w. h \<noteq> handle_of r w) \<longrightarrow> heap s' h = heap s1 h"
    using Cons.IH [OF s1(2)] Cons.prems(2) s1(3) by auto
  show ?case using s' s1 by (auto simp: c)
qed simp

text \<open>A request with five empty tables.\<close>

definition fresh_request :: request_tables where
  "fresh_request = \<lparr>rt_headers_in = 0, rt_headers_out = 1, rt_err_headers_out = 2, rt_subprocess_env = 3, rt_notes = 4\<rparr>"

definition fresh_store :: "entry list table_store" where
  "fresh_store = \<lparr>objs = Map.empty, heap = [0 \<mapsto> [], 1 \<mapsto> [], 2 \<mapsto> [], 3 \<mapsto> [], 4 \<mapsto> []], unused = 5\<rparr>"

end
