(* ===== verification/Gate_Store.thy ===== *)
theory Gate_Store
  imports Gate_Module Request_Tables
begin

text \<open>
  The copying of the settings into the notes of a request, on the store of tables: the first
  part of \<open>gate_request_init_configuration\<close> (\<open>src/src/module.cpp\<close>), with the objects \<open>notes\<close>,
  \<open>server_options\<close>, \<open>dir_options\<close> and the iterator that the code declares.  Theory \<open>Gate_Module\<close> has the
  same loops on the values of the tables.
\<close>

definition copy_loop :: "'t table_api \<Rightarrow> live_iterator \<Rightarrow> 't table_store \<Rightarrow> 't table_store option" where
  "copy_loop T ti s = map_option fst (live_while T (pass_visited T (table_set T) ''notes'') ti (s, ()))"

definition copy_settings ::
  "'t table_api \<Rightarrow> request_tables \<Rightarrow> handle \<Rightarrow> handle \<Rightarrow> 't table_store \<Rightarrow> 't table_store option" where
  "copy_settings T r cfg_opts dir_opts s = do {
     let s1 = request_notes r ''notes'' s;
     let s2 = obj_of_handle ''server_options'' cfg_opts s1;
     let s3 = obj_of_handle ''dir_options'' dir_opts s2;
     ti \<leftarrow> live_of ''server_options'' s3;
     s4 \<leftarrow> copy_loop T ti s3;
     ti' \<leftarrow> live_of ''dir_options'' s4;
     copy_loop T ti' s4
   }"

lemma copy_loop_value:
  assumes "heap s h = Some t" "objs s ''notes'' = Some hn" "heap s hn = Some n" "h \<noteq> hn"
  shows "\<exists>n'. while_next (copy_body T) (iter_of T t) n = Some n' \<and>
    copy_loop T \<lparr>li_h = h, li_i = -1\<rparr> s = Some (s\<lparr>heap := (heap s)(hn \<mapsto> n')\<rparr>)"
  using pass_all_separate [OF assms, of 0 T "table_set T"] by (simp add: copy_loop_def copy_entries table_set_def)

text \<open>
  Claim C19.  The handler copies the settings of the server and of the directory into the notes of
  the request.  The tables are shared by pointers and the iterators see them change; but since
  the notes are a table of their own, both loops end, the notes become what the loops on values
  compute, and neither the settings nor any other table change.
\<close>

theorem copy_settings_refines:
  assumes "heap s cfg_opts = Some t" "heap s dir_opts = Some d" "heap s (rt_notes r) = Some n"
    and "rt_notes r \<noteq> cfg_opts" "rt_notes r \<noteq> dir_opts"
  shows "\<exists>n1 n2 s'. while_next (copy_body T) (iter_of T t) n = Some n1 \<and>
    while_next (copy_body T) (iter_assign (table_begin T d)) n1 = Some n2 \<and>
    copy_settings T r cfg_opts dir_opts s = Some s' \<and> heap s' = (heap s)(rt_notes r \<mapsto> n2)"
proof -
  let ?s = "obj_of_handle ''dir_options'' dir_opts (obj_of_handle ''server_options'' cfg_opts (request_notes r ''notes'' s))"
  have o: "objs ?s ''notes'' = Some (rt_notes r)" "objs ?s ''server_options'' = Some cfg_opts"
      "objs ?s ''dir_options'' = Some dir_opts" "heap ?s = heap s"
    by (simp_all add: obj_of_handle_def request_notes_def)
  obtain n1 where n1: "while_next (copy_body T) (iter_of T t) n = Some n1"
      "copy_loop T \<lparr>li_h = cfg_opts, li_i = -1\<rparr> ?s = Some (?s\<lparr>heap := (heap s)(rt_notes r \<mapsto> n1)\<rparr>)"
    using copy_loop_value [of ?s cfg_opts t "rt_notes r" n T] assms o by auto
  let ?s1 = "?s\<lparr>heap := (heap s)(rt_notes r \<mapsto> n1)\<rparr>"
  obtain n2 where n2: "while_next (copy_body T) (iter_of T d) n1 = Some n2"
      "copy_loop T \<lparr>li_h = dir_opts, li_i = -1\<rparr> ?s1 = Some (?s1\<lparr>heap := (heap s)(rt_notes r \<mapsto> n2)\<rparr>)"
    using copy_loop_value [of ?s1 dir_opts d "rt_notes r" n1 T] assms o by auto
  have "copy_settings T r cfg_opts dir_opts s = Some (?s1\<lparr>heap := (heap s)(rt_notes r \<mapsto> n2)\<rparr>)"
    using o n1(2) n2(2) by (simp add: copy_settings_def live_of_def)
  then show ?thesis using n1(1) n2(1) by (auto simp: iter_of_def table_begin_def)
qed

theorem copy_settings_refines_witness:
  "\<exists>s'. copy_settings alist_table fresh_request 5 6
      (fresh_store\<lparr>heap := (heap fresh_store)(5 \<mapsto> [(''a'', ''1''), (''b'', ''2'')], 6 \<mapsto> [(''b'', ''3'')])\<rparr>) = Some s' \<and>
    heap s' (rt_notes fresh_request) = Some [(''a'', ''1''), (''b'', ''3'')]"
proof -
  let ?s = "fresh_store\<lparr>heap := (heap fresh_store)(5 \<mapsto> [(''a'', ''1''), (''b'', ''2'')], 6 \<mapsto> [(''b'', ''3'')])\<rparr>"
  have "\<exists>n1 n2 s'. while_next (copy_body alist_table) (iter_of alist_table [(''a'', ''1''), (''b'', ''2'')]) [] = Some n1 \<and>
    while_next (copy_body alist_table) (iter_assign (table_begin alist_table [(''b'', ''3'')])) n1 = Some n2 \<and>
    copy_settings alist_table fresh_request 5 6 ?s = Some s' \<and> heap s' = (heap ?s)(rt_notes fresh_request \<mapsto> n2)"
    by (rule copy_settings_refines) (simp_all add: fresh_request_def fresh_store_def)
  moreover have "\<not> same_key ''b'' ''a''" by (simp add: same_key_def tolower_def)
  then have "fold (\<lambda>e n. tbl_set alist_table n (fst e) (snd e)) [(''b'', ''3'')]
      (fold (\<lambda>e n. tbl_set alist_table n (fst e) (snd e)) [(''a'', ''1''), (''b'', ''2'')] []) = [(''a'', ''1''), (''b'', ''3'')]"
    by (simp add: alist_table_def)
  moreover have "tbl_elts alist_table t = t" for t by (simp add: alist_table_def)
  ultimately show ?thesis by (auto simp: copy_entries copy_entries_begin)
qed

end
