(* ===== verification/Url.thy ===== *)
theory Url
  imports Text_Numbers
begin

text \<open>
  The text utilities of \<open>src/src/util.cpp\<close> and \<open>util.hpp\<close>: URL decoding in place in a copy of the
  text, URL encoding into a buffer of fixed size, splitting with \<open>getline\<close>, and replacement of
  a substring.  A write outside the allocated buffer is \<open>None\<close>.
\<close>

section \<open>Letter case\<close>

text \<open>The locale of the environment gives the case of a character; it is a parameter.\<close>

definition to_lower :: "(char \<Rightarrow> char) \<Rightarrow> cstring \<Rightarrow> cstring" where
  "to_lower locale_tolower x = map locale_tolower x"

definition to_upper :: "(char \<Rightarrow> char) \<Rightarrow> cstring \<Rightarrow> cstring" where
  "to_upper locale_toupper x = map locale_toupper x"

section \<open>Decoding\<close>

definition byte_of :: "char \<Rightarrow> byte" where
  "byte_of c = of_char c"

definition char_of_byte :: "byte \<Rightarrow> char" where
  "char_of_byte b = char_of (unat b)"

definition hex2int :: "byte \<Rightarrow> byte" where
  "hex2int hex =
     (let hex1 = hex - 48;
          hex2 = (if hex1 > 9 then ((hex1 + 48 - 1) OR 0x20) - 97 + 11 else hex1)
      in if hex2 > 15 then 0xFF else hex2)"

text \<open>
  The loop of \<open>url_decode\<close> on the buffer \<open>str\<close>, which holds the text and ends with NUL; \<open>src\<close> and
  \<open>dst\<close> are positions in it.  The result is the buffer and the final \<open>dst\<close>.
\<close>

function decode_loop :: "bool \<Rightarrow> cstring \<Rightarrow> nat \<Rightarrow> nat \<Rightarrow> cstring \<times> nat" where
  "decode_loop is_query str src dst =
     (if cchar str src = NUL then (str, dst)
      else if is_query \<and> cchar str src = CHR ''+'' then
        decode_loop is_query (str[dst := CHR '' '']) (src + 1) (dst + 1)
      else if cchar str src = CHR ''%'' then
        let str1 = str[dst := CHR ''%''];
            high = hex2int (byte_of (cchar str1 (src + 1)))
        in if high \<noteq> 0xFF then
             let low = hex2int (byte_of (cchar str1 (src + 2)))
             in if low \<noteq> 0xFF then
                  decode_loop is_query (str1[dst := char_of_byte (push_bit 4 high OR low)]) (src + 3) (dst + 1)
                else decode_loop is_query str1 (src + 1) (dst + 1)
           else decode_loop is_query str1 (src + 1) (dst + 1)
      else decode_loop is_query (str[dst := cchar str src]) (src + 1) (dst + 1))"
  by pat_completeness auto
termination
  by (relation "measure (\<lambda>(q, str, src, dst). length str - src)") (auto dest!: cchar_neq_NUL cchar_eqD [of _ _ "CHR ''+''"] cchar_eqD [of _ _ "CHR ''%''"] simp: Let_def)

text \<open>The returned \<open>std::string\<close> is made from the buffer and so ends at its first NUL.\<close>

definition url_decode :: "cstring option \<Rightarrow> bool \<Rightarrow> cstring" where
  "url_decode url is_query =
     (case url of
        None \<Rightarrow> ''''
      | Some s \<Rightarrow>
          (case decode_loop is_query s 0 0 of (str, dst) \<Rightarrow> takeWhile (\<lambda>c. c \<noteq> NUL) (take dst str)))"

section \<open>Encoding\<close>

definition is_alnum :: "char \<Rightarrow> bool" where
  "is_alnum c \<longleftrightarrow> (let n = of_char c :: nat in
     48 \<le> n \<and> n \<le> 57 \<or> 65 \<le> n \<and> n \<le> 90 \<or> 97 \<le> n \<and> n \<le> 122)"

definition hex_digit :: "nat \<Rightarrow> char" where
  "hex_digit d = char_of (if d < 10 then 48 + d else 55 + d)"

function hex_upper :: "nat \<Rightarrow> cstring" where
  "hex_upper n = (if n < 16 then [hex_digit n] else hex_upper (n div 16) @ [hex_digit (n mod 16)])"
  by pat_completeness auto
termination by (relation "measure id") auto

declare hex_upper.simps [simp del]

text \<open>\<open>"%2X"\<close> of a \<open>char\<close>, which is promoted to a signed \<open>int\<close>: two columns, padded with blanks.\<close>

definition format_2X :: "char \<Rightarrow> cstring" where
  "format_2X c =
     (let h = hex_upper (unat (word_of_int (int_of_char c) :: 32 word))
      in replicate (2 - length h) (CHR '' '') @ h)"

text \<open>Writing a text at a position of a buffer, as \<open>sprintf\<close> does, with the closing NUL.\<close>

definition write_at :: "cstring \<Rightarrow> nat \<Rightarrow> cstring \<Rightarrow> cstring option" where
  "write_at buf i s =
     (if i + length s \<le> length buf then Some (take i buf @ s @ drop (i + length s) buf) else None)"

definition kept :: "char \<Rightarrow> bool" where
  "kept c \<longleftrightarrow> is_alnum c \<or> c = CHR ''.'' \<or> c = CHR ''_'' \<or> c = CHR ''-''"

fun encode_loop :: "cstring \<Rightarrow> cstring \<Rightarrow> nat \<Rightarrow> (cstring \<times> nat) option" where
  "encode_loop [] buf dst = Some (buf, dst)"
| "encode_loop (c # src) buf dst =
     (if kept c then do { b \<leftarrow> write_at buf dst [c]; encode_loop src b (dst + 1) }
      else if c = CHR '' '' then do { b \<leftarrow> write_at buf dst ''+''; encode_loop src b (dst + 1) }
      else do { b \<leftarrow> write_at buf dst (''%'' @ format_2X c @ [NUL]); encode_loop src b (dst + 3) })"

text \<open>\<open>junk\<close> is what \<open>malloc\<close> returned: \<open>3 * strlen(url)\<close> bytes.\<close>

definition url_encode :: "cstring \<Rightarrow> cstring \<Rightarrow> cstring option" where
  "url_encode junk url = do {
     (b, dst) \<leftarrow> encode_loop url (take (3 * length url) (junk @ replicate (3 * length url) NUL)) 0;
     b' \<leftarrow> write_at b dst [NUL];
     Some (takeWhile (\<lambda>c. c \<noteq> NUL) b')
   }"

section \<open>Splitting and replacing\<close>

text \<open>
  \<open>while (getline(ss, item, delim)) push_back(item)\<close>: a read fails when nothing is left; it takes
  the characters up to the delimiter, which it removes.
\<close>

function split_text :: "cstring \<Rightarrow> char \<Rightarrow> cstring list" where
  "split_text s delim =
     (if s = [] then []
      else takeWhile (\<lambda>c. c \<noteq> delim) s # split_text (tl (dropWhile (\<lambda>c. c \<noteq> delim) s)) delim)"
  by pat_completeness auto
termination
  by (relation "measure (\<lambda>(s, d). length s)")
    (simp_all add: length_tl_dropWhile del: length_tl)

declare split_text.simps [simp del]

text \<open>\<open>std::string::find\<close>: the first occurrence at or after a position.\<close>

fun find_at :: "cstring \<Rightarrow> cstring \<Rightarrow> nat option" where
  "find_at f s =
     (if take (length f) s = f then Some 0
      else case s of [] \<Rightarrow> None | _ # xs \<Rightarrow> map_option Suc (find_at f xs))"

definition find_from :: "cstring \<Rightarrow> cstring \<Rightarrow> nat \<Rightarrow> nat option" where
  "find_from s f pos = (if pos \<le> length s then map_option ((+) pos) (find_at f (drop pos s)) else None)"

text \<open>
  The template \<open>replace\<close> on strings: the search goes on behind the inserted text.  It does not end
  when the text to find is empty.
\<close>

partial_function (option) replace_loop ::
  "cstring \<Rightarrow> cstring \<Rightarrow> cstring \<Rightarrow> nat \<Rightarrow> nat \<Rightarrow> (cstring \<times> nat) option" where
  "replace_loop pat rep source pos num =
     (case find_from source pat pos of
        None \<Rightarrow> Some (source, num)
      | Some p \<Rightarrow> replace_loop pat rep (take p source @ rep @ drop (p + length pat) source) (p + length rep) (num + 1))"

definition replace_text :: "cstring \<Rightarrow> cstring \<Rightarrow> cstring \<Rightarrow> (cstring \<times> nat) option" where
  "replace_text source pat rep = replace_loop pat rep source 0 0"

section \<open>Hexadecimal digits\<close>

definition hex_nat :: "nat \<Rightarrow> nat option" where
  "hex_nat n =
     (if 48 \<le> n \<and> n \<le> 57 then Some (n - 48)
      else if 65 \<le> n \<and> n \<le> 70 then Some (n - 55)
      else if 97 \<le> n \<and> n \<le> 102 then Some (n - 87)
      else None)"

abbreviation hex_val :: "char \<Rightarrow> nat option" where
  "hex_val c \<equiv> hex_nat (of_char c)"

text \<open>The 256 cases, by evaluation.\<close>

lemma hex2int_all:
  "list_all (\<lambda>n. hex2int (word_of_nat n) = (case hex_nat n of Some v \<Rightarrow> word_of_nat v | None \<Rightarrow> 0xFF)) [0..<256]"
  by (simp add: hex2int_def hex_nat_def Let_def upt_rec)

lemma byte_of_nat: "byte_of c = word_of_nat (of_char c)"
  by (simp add: byte_of_def of_nat_of_char)

lemma hex2int_eq: "hex2int (byte_of c) = (case hex_val c of Some v \<Rightarrow> word_of_nat v | None \<Rightarrow> 0xFF)"
  unfolding byte_of_nat using hex2int_all nat_of_char_less_256 [of c] by (simp only: list_all_iff) simp

lemma hex_nat_less: "hex_nat n = Some v \<Longrightarrow> v < 16"
  by (auto simp: hex_nat_def split: if_splits)

lemma hex2int_none: "hex2int (byte_of c) = 0xFF \<longleftrightarrow> hex_val c = None"
proof (cases "hex_val c")
  case (Some v)
  then have "v < 16" by (rule hex_nat_less)
  then have "unat (word_of_nat v :: byte) \<noteq> unat (0xFF :: byte)" by (simp add: unsigned_of_nat take_bit_nat_eq_self)
  then show ?thesis using Some by (auto simp: hex2int_eq)
qed (simp add: hex2int_eq)

lemma nibbles:
  assumes "hex_val c = Some h" "hex_val d = Some l"
  shows "char_of_byte (push_bit 4 (hex2int (byte_of c)) OR hex2int (byte_of d)) = char_of (16 * h + l)"
proof -
  have h: "h < 16" and l: "l < 16" using assms by (auto dest: hex_nat_less)
  have "push_bit 4 (word_of_nat h :: byte) OR word_of_nat l = word_of_nat (push_bit 4 h OR l)"
    by (simp add: push_bit_of_nat of_nat_or_eq)
  also have "push_bit 4 h OR l = 16 * h + l"
  proof -
    have "push_bit 4 h AND take_bit 4 l = 0" by (auto simp: bit_eq_iff bit_simps)
    then have "push_bit 4 h + take_bit 4 l = push_bit 4 h OR take_bit 4 l" by (rule disjunctive_add_eq_or)
    moreover have "take_bit 4 l = l" using l by (simp add: take_bit_nat_eq_self)
    ultimately show ?thesis by (simp add: push_bit_eq_mult)
  qed
  finally have "push_bit 4 (word_of_nat h :: byte) OR word_of_nat l = word_of_nat (16 * h + l)" .
  moreover have "unat (word_of_nat (16 * h + l) :: byte) = 16 * h + l"
    using h l by (simp only: unsigned_of_nat) (simp add: take_bit_nat_eq_self)
  ultimately show ?thesis by (simp only: char_of_byte_def hex2int_eq assms option.case)
qed

section \<open>Decoding\<close>

text \<open>What decoding means, on the text.\<close>

fun url_dec :: "bool \<Rightarrow> cstring \<Rightarrow> cstring" where
  "url_dec q [] = []"
| "url_dec q (c # cs) =
     (if q \<and> c = CHR ''+'' then CHR '' '' # url_dec q cs
      else if c = CHR ''%'' then
        (case cs of
           h # l # rest \<Rightarrow>
             (case (hex_val h, hex_val l) of
                (Some a, Some b) \<Rightarrow> char_of (16 * a + b) # url_dec q rest
              | _ \<Rightarrow> CHR ''%'' # url_dec q cs)
         | _ \<Rightarrow> CHR ''%'' # url_dec q cs)
      else c # url_dec q cs)"

lemma update_take_drop:
  assumes "dst \<le> src" "src < length str"
  shows "take (Suc dst) (str[dst := x]) = take dst str @ [x]"
    "Suc src \<le> k \<Longrightarrow> drop k (str[dst := x]) = drop k str"
    "Suc src \<le> k \<Longrightarrow> cchar (str[dst := x]) k = cchar str k"
  using assms by (simp_all add: take_Suc_conv_app_nth cchar_def)

lemma hex_nat_0 [simp]: "hex_nat 0 = None"
  by (simp add: hex_nat_def)

lemma cchar_drop: "cchar str (src + k) = cchar (drop src str) k"
  by (auto simp: cchar_def)

declare decode_loop.simps [simp del]

text \<open>One round of the loop, in terms of the text that is left.\<close>

lemma decode_loop_step:
  assumes d: "drop src str = c # cs" and c: "c \<noteq> NUL" and dst: "dst \<le> src"
  shows "decode_loop q str src dst =
    (if q \<and> c = CHR ''+'' then decode_loop q (str[dst := CHR '' '']) (src + 1) (dst + 1)
     else if c = CHR ''%'' then
       (case cs of
          h # l # rest \<Rightarrow>
            (case (hex_val h, hex_val l) of
               (Some a, Some b) \<Rightarrow>
                 decode_loop q (str[dst := char_of (16 * a + b)]) (src + 3) (dst + 1)
             | _ \<Rightarrow> decode_loop q (str[dst := CHR ''%'']) (src + 1) (dst + 1))
        | _ \<Rightarrow> decode_loop q (str[dst := CHR ''%'']) (src + 1) (dst + 1))
     else decode_loop q (str[dst := c]) (src + 1) (dst + 1))"
proof -
  have len: "src < length str" using d by (metis drop_eq_Nil linorder_not_less list.distinct(1))
  have c0: "cchar str src = c" using cchar_drop [of str src 0] by (simp add: d)
  have c1: "cchar (str[dst := x]) (src + 1) = cchar (c # cs) 1" for x
    using update_take_drop(3) [OF dst len, of "src + 1"] cchar_drop [of str src 1] by (simp add: d)
  have c2: "cchar (str[dst := x]) (src + 2) = cchar (c # cs) 2" for x
    using update_take_drop(3) [OF dst len, of "src + 2"] cchar_drop [of str src 2] by (simp add: d)
  show ?thesis
  proof (cases "c = CHR ''%''")
    case True
    show ?thesis
    proof (cases cs)
      case Nil
      then show ?thesis
        unfolding decode_loop.simps [of q str src dst] c0 c1 c2 Let_def
        using True by (simp add: hex2int_none)
    next
      case (Cons h cs')
      show ?thesis
      proof (cases cs')
        case Nil
        then show ?thesis
          unfolding decode_loop.simps [of q str src dst] c0 c1 c2 Let_def
          using True Cons by (simp add: hex2int_none)
      next
        fix l rest
        assume l: "cs' = l # rest"
        show ?thesis
          unfolding decode_loop.simps [of q str src dst] c0 c1 c2 Let_def
          using True Cons l
          by (simp add: hex2int_none nibbles list_update_overwrite split: option.split)
      qed
    qed
  next
    case False
    then show ?thesis
      unfolding decode_loop.simps [of q str src dst] c0 using c by simp
  qed
qed

lemma decode_loop_spec:
  assumes "dst \<le> src" "src \<le> length str" "NUL \<notin> set (drop src str)"
  shows "\<exists>str' dst'. decode_loop q str src dst = (str', dst') \<and>
    take dst' str' = take dst str @ url_dec q (drop src str)"
  using assms
proof (induction "length str - src" arbitrary: str src dst rule: less_induct)
  case less
  show ?case
  proof (cases "drop src str")
    case Nil
    then show ?thesis using less.prems by (subst decode_loop.simps) auto
  next
    case (Cons c cs)
    have len: "src < length str" using Cons by (metis drop_eq_Nil linorder_not_less list.distinct(1))
    have c: "c \<noteq> NUL" using less.prems(3) Cons by auto
    have cs: "drop (Suc src) str = cs" using Cons by (metis drop_Suc list.sel(3) tl_drop)
    note step = decode_loop_step [OF Cons c less.prems(1), of q]
    have rec: "\<exists>str' dst'. decode_loop q (str[dst := x]) (src + k) (dst + 1) = (str', dst') \<and>
        take dst' str' = take dst str @ x # url_dec q (drop (k - 1) cs)"
      if k: "1 \<le> k" "src + k \<le> length str" for x k
    proof -
      have dr: "drop (src + k) (str[dst := x]) = drop (k - 1) cs"
        using update_take_drop(2) [OF less.prems(1) len, of "src + k" x] k cs
        by (metis Suc_eq_plus1 add.commute add_Suc drop_drop le_add_diff_inverse le_add1)
      have "NUL \<notin> set (drop (k - 1) cs)" using less.prems(3) Cons by (auto dest: in_set_dropD)
      then show ?thesis
        using less.hyps [of "str[dst := x]" "src + k" "dst + 1"] k len less.prems(1)
          update_take_drop(1) [OF less.prems(1) len, of x] by (simp add: dr)
    qed
    note rec1 = rec [of 1, simplified]
    show ?thesis
    proof (cases "c = CHR ''%''")
      case False
      then show ?thesis using step rec1 len Cons by auto
    next
      case True
      show ?thesis
      proof (cases "\<exists>h l rest a b. cs = h # l # rest \<and> hex_val h = Some a \<and> hex_val l = Some b")
        case True
        then obtain h l rest a b where cs3: "cs = h # l # rest" "hex_val h = Some a" "hex_val l = Some b" by blast
        have "length (drop src str) = length (c # h # l # rest)" using Cons cs3 by simp
        then have "src + 3 \<le> length str" by simp
        with rec [of 3 "char_of (16 * a + b)"] step \<open>c = CHR ''%''\<close> show ?thesis by (simp add: Cons cs3)
      next
        case False
        have "url_dec q (c # cs) = CHR ''%'' # url_dec q cs"
          using False \<open>c = CHR ''%''\<close>
          by (subst url_dec.simps(2)) (auto simp del: url_dec.simps split: list.split option.split)
        moreover have "decode_loop q str src dst = decode_loop q (str[dst := CHR ''%'']) (src + 1) (dst + 1)"
          unfolding step using False \<open>c = CHR ''%''\<close> by (auto split: list.split option.split)
        ultimately show ?thesis using rec1 [of "CHR ''%''"] len by (simp only: Cons) simp
      qed
    qed
  qed
qed

section \<open>Encoding\<close>

definition escaped :: "char \<Rightarrow> bool" where
  "escaped c \<longleftrightarrow> \<not> kept c \<and> c \<noteq> CHR '' ''"

definition enc_char :: "char \<Rightarrow> cstring" where
  "enc_char c = (if kept c then [c] else if c = CHR '' '' then ''+'' else ''%'' @ format_2X c)"

text \<open>Characters whose code, as a \<open>char\<close>, is not negative; and of these, those with two hexadecimal digits.\<close>

definition ascii :: "char \<Rightarrow> bool" where
  "ascii c \<longleftrightarrow> (of_char c :: nat) < 128"

definition two_digit :: "char \<Rightarrow> bool" where
  "two_digit c \<longleftrightarrow> 16 \<le> (of_char c :: nat) \<and> (of_char c :: nat) < 128"

lemma format_2X_ascii:
  assumes "ascii c"
  shows "format_2X c = [if of_char c < (16 :: nat) then CHR '' '' else hex_digit (of_char c div 16), hex_digit (of_char c mod 16)]"
proof -
  let ?n = "of_char c :: nat"
  have n: "?n < 128" using assms by (simp add: ascii_def)
  have "int_of_char c = int ?n" using n by (simp add: int_of_char_def of_nat_of_char [symmetric, where ?'a = int])
  then have u: "unat (word_of_int (int_of_char c) :: 32 word) = ?n"
    using n by (simp add: unsigned_of_nat take_bit_nat_eq_self)
  have "hex_upper ?n = (if ?n < 16 then [hex_digit ?n] else [hex_digit (?n div 16), hex_digit (?n mod 16)])"
    using n by (simp add: hex_upper.simps [of ?n] hex_upper.simps [of "?n div 16"] less_mult_imp_div_less)
  then show ?thesis by (simp add: format_2X_def u)
qed

lemma length_hex_upper: "16 ^ k \<le> n \<Longrightarrow> n < 16 ^ Suc k \<Longrightarrow> length (hex_upper n) = Suc k"
proof (induction k arbitrary: n)
  case 0
  then show ?case by (simp add: hex_upper.simps [of n])
next
  case (Suc k)
  have "16 ^ k \<le> n div 16" "n div 16 < 16 ^ Suc k" using Suc.prems by (simp_all add: less_eq_div_iff_mult_less_eq div_less_iff_less_mult)
  moreover have "0 < (16 :: nat) ^ k" by simp
  then have "16 \<le> 16 * (16 :: nat) ^ k" by linarith
  then have "\<not> n < 16" using Suc.prems(1) unfolding power_Suc by linarith
  ultimately show ?case using Suc.IH [of "n div 16"] by (simp add: hex_upper.simps [of n])
qed

text \<open>A byte above 127 is printed with eight digits.\<close>

lemma format_2X_negative:
  assumes "\<not> ascii c"
  shows "length (format_2X c) = 8"
proof -
  let ?n = "of_char c :: nat" and ?v = "unat (word_of_int (int_of_char c) :: 32 word)"
  have n: "128 \<le> ?n" "?n < 256" using assms nat_of_char_less_256 [of c] by (simp_all add: ascii_def)
  have i: "int_of_char c = int ?n - 256" using n by (simp add: int_of_char_def of_nat_of_char [symmetric, where ?'a = int])
  have "?v = nat ((int ?n - 256) mod 2 ^ 32)" by (simp only: i unsigned_of_int nat_take_bit_eq take_bit_eq_mod) simp
  also have "(int ?n - 256) mod 2 ^ 32 = int ?n - 256 + 2 ^ 32" using n mod_add_self2 [of "int ?n - 256" "2 ^ 32"] by (simp add: mod_pos_pos_trivial)
  finally have "?v = ?n + 4294967040" using n by simp
  then have "16 ^ 7 \<le> ?v" "?v < 16 ^ Suc 7" using n by simp_all
  then have "length (hex_upper ?v) = 8" using length_hex_upper [of 7 ?v] by simp
  then show ?thesis by (simp add: format_2X_def Let_def)
qed

lemma two_digit_ascii: "two_digit c \<longleftrightarrow> ascii c \<and> 16 \<le> (of_char c :: nat)"
  by (auto simp: two_digit_def ascii_def)

lemma length_enc_char: "ascii c \<Longrightarrow> length (enc_char c) = (if escaped c then 3 else 1)"
  by (auto simp: enc_char_def escaped_def format_2X_ascii)

text \<open>
  The bytes that a round of the encoder writes, with the closing NUL of \<open>sprintf\<close>, and the bytes by
  which it goes on.
\<close>

definition write_len :: "char \<Rightarrow> nat" where
  "write_len c = (if escaped c then length (enc_char c) + 1 else 1)"

definition step_len :: "char \<Rightarrow> nat" where
  "step_len c = (if escaped c then 3 else 1)"

definition position :: "cstring \<Rightarrow> nat \<Rightarrow> nat" where
  "position s i = sum_list (map step_len (take i s))"

lemma position_simps [simp]: "position s 0 = 0" "position (c # s) (Suc i) = step_len c + position s i"
  by (simp_all add: position_def)

lemma write_at_SomeD:
  "write_at buf i s = Some b \<Longrightarrow> length b = length buf \<and> take i b = take i buf \<and> take (length s) (drop i b) = s"
  by (auto simp: write_at_def min_def split: if_splits)

lemma write_at_take:
  "i + length (s @ r) \<le> length buf \<Longrightarrow> \<exists>b. write_at buf i (s @ r) = Some b \<and> length b = length buf \<and>
     take (i + length s) b = take i buf @ s"
  by (simp add: write_at_def)

lemma encode_loop_step:
  "encode_loop (c # s) buf dst =
     (case write_at buf dst (enc_char c @ (if escaped c then [NUL] else [])) of
        None \<Rightarrow> None | Some b \<Rightarrow> encode_loop s b (dst + step_len c))"
  by (auto simp: enc_char_def escaped_def step_len_def split: option.split)

lemma enc_char_write_len: "length (enc_char c @ (if escaped c then [NUL] else [])) = write_len c"
  by (auto simp: write_len_def enc_char_def escaped_def)

lemma encode_loop_fits:
  "(encode_loop s buf dst \<noteq> None \<longleftrightarrow> (\<forall>i<length s. dst + position s i + write_len (s ! i) \<le> length buf)) \<and>
   (\<forall>b d. encode_loop s buf dst = Some (b, d) \<longrightarrow> length b = length buf \<and> d = dst + position s (length s))"
proof (induction s arbitrary: buf dst)
  case (Cons c s)
  let ?w = "write_at buf dst (enc_char c @ (if escaped c then [NUL] else []))"
  have w: "?w = None \<longleftrightarrow> \<not> dst + write_len c \<le> length buf"
    unfolding enc_char_write_len [symmetric] by (simp add: write_at_def)
  show ?case
  proof (cases ?w)
    case None
    then have "\<not> dst + position (c # s) 0 + write_len ((c # s) ! 0) \<le> length buf" using w by simp
    then show ?thesis unfolding encode_loop_step using None by (auto simp del: position_simps intro!: exI [of _ 0])
  next
    case (Some b)
    then have "length b = length buf" by (auto dest: write_at_SomeD)
    then show ?thesis
      unfolding encode_loop_step
      using Cons.IH [of b "dst + step_len c"] Some w by (simp add: All_less_Suc2 add.assoc)
  qed
qed simp

lemma encode_loop_ok:
  assumes "\<forall>c\<in>set s. ascii c" "dst + length (concat (map enc_char s)) < length buf"
  shows "\<exists>b. encode_loop s buf dst = Some (b, dst + length (concat (map enc_char s))) \<and> length b = length buf \<and>
    take (dst + length (concat (map enc_char s))) b = take dst buf @ concat (map enc_char s)"
  using assms
proof (induction s arbitrary: buf dst)
  case (Cons c s)
  let ?e = "enc_char c" and ?r = "if escaped c then [NUL] else []"
  have l: "length ?e = (if escaped c then 3 else 1)" using Cons.prems by (intro length_enc_char) simp
  have "dst + length (?e @ ?r) \<le> length buf" using Cons.prems l by auto
  then obtain b where b: "write_at buf dst (?e @ ?r) = Some b" "length b = length buf"
      "take (dst + length ?e) b = take dst buf @ ?e"
    using write_at_take by blast
  have "encode_loop (c # s) buf dst = encode_loop s b (dst + length ?e)"
    using b(1) l by (auto simp: enc_char_def escaped_def split: if_splits)
  then show ?case
    using Cons.IH [of "dst + length ?e" b] Cons.prems b by (simp add: add.assoc)
qed simp

lemma concat_enc_length:
  "\<forall>c\<in>set s. ascii c \<Longrightarrow> length (concat (map enc_char s)) \<le> 3 * length s \<and>
     (length (concat (map enc_char s)) = 3 * length s \<longleftrightarrow> (\<forall>c\<in>set s. escaped c))"
  by (induction s) (auto simp: length_enc_char)

lemma hex_digit_val: "d < 16 \<Longrightarrow> hex_val (hex_digit d) = Some d"
  by (simp add: hex_digit_def hex_nat_def)

lemma hex_digit_plain:
  assumes "d < 16"
  shows "hex_digit d \<noteq> NUL \<and> hex_digit d \<noteq> CHR ''+'' \<and> hex_digit d \<noteq> CHR ''%'' \<and> hex_digit d \<noteq> CHR ''&'' \<and> hex_digit d \<noteq> CHR ''=''"
proof -
  have "hex_val (hex_digit d) = Some d" using assms by (rule hex_digit_val)
  then show ?thesis by (auto simp: hex_nat_def)
qed

lemma ascii_not_NUL: "ascii c \<Longrightarrow> NUL \<notin> set (enc_char c)"
  using hex_digit_plain [of "of_char c div 16"] hex_digit_plain [of "of_char c mod 16"]
  by (auto simp: enc_char_def format_2X_ascii ascii_def less_mult_imp_div_less kept_def is_alnum_def)

lemma position_ascii: "\<forall>c\<in>set s. ascii c \<Longrightarrow> position s (length s) = length (concat (map enc_char s))"
  by (induction s) (simp_all add: length_enc_char step_len_def)

text \<open>The characters of a text in which some write goes out of bounds, and all others.\<close>

lemma url_encode_defined:
  "url_encode junk s \<noteq> None \<longleftrightarrow>
     (\<forall>i<length s. position s i + write_len (s ! i) \<le> 3 * length s) \<and> position s (length s) < 3 * length s"
proof -
  let ?L = "3 * length s"
  define buf where "buf = take ?L (junk @ replicate ?L NUL)"
  have len: "length buf = ?L" by (simp add: buf_def)
  note fits = encode_loop_fits [of s buf 0]
  show ?thesis
  proof (cases "encode_loop s buf 0")
    case None
    then show ?thesis unfolding url_encode_def buf_def [symmetric] using fits len by simp
  next
    case (Some r)
    obtain b d where r: "r = (b, d)" by fastforce
    have "length b = ?L" "d = position s (length s)" using fits Some r len by auto
    then show ?thesis
      unfolding url_encode_def buf_def [symmetric] using fits Some r len by (simp add: write_at_def)
  qed
qed

lemma url_encode_eq:
  assumes "\<forall>c\<in>set s. ascii c"
  shows "url_encode junk s = (if \<forall>c\<in>set s. escaped c then None else Some (concat (map enc_char s)))"
proof (cases "\<forall>c\<in>set s. escaped c")
  case True
  then have "\<not> position s (length s) < 3 * length s"
    using concat_enc_length [OF assms] position_ascii [OF assms] by simp
  then have "url_encode junk s = None" using url_encode_defined [of junk s] by blast
  with True show ?thesis by simp
next
  case False
  let ?L = "3 * length s" and ?e = "concat (map enc_char s)"
  define buf where "buf = take ?L (junk @ replicate ?L NUL)"
  have len: "length buf = ?L" by (simp add: buf_def)
  have lt: "0 + length ?e < length buf" using False concat_enc_length [OF assms] len by auto
  obtain b where b: "encode_loop s buf 0 = Some (b, length ?e)" "length b = ?L" "take (length ?e) b = ?e"
    using encode_loop_ok [OF assms lt] len by auto
  have "NUL \<notin> set ?e" using assms ascii_not_NUL by auto
  then show ?thesis
    unfolding url_encode_def buf_def [symmetric]
    using False b lt len by (simp add: write_at_def takeWhile_append)
qed

text \<open>What the encoding of a character decodes to: a code below sixteen has a blank for its first digit.\<close>

definition reread :: "char \<Rightarrow> cstring" where
  "reread c = (if of_char c < (16 :: nat) then [CHR ''%'', CHR '' '', hex_digit (of_char c)] else [c])"

lemma url_dec_enc:
  assumes "\<forall>c\<in>set s. ascii c"
  shows "url_dec True (concat (map enc_char s)) = concat (map reread s)"
  using assms
proof (induction s)
  case (Cons c s)
  let ?n = "of_char c :: nat"
  have c: "ascii c" and n: "?n < 128" using Cons.prems by (simp_all add: ascii_def)
  have kept: "kept c \<Longrightarrow> c \<noteq> CHR ''+'' \<and> c \<noteq> CHR ''%'' \<and> \<not> ?n < 16" by (auto simp: kept_def is_alnum_def)
  show ?case
  proof (cases "?n < 16")
    case True
    have "\<not> kept c" "c \<noteq> CHR '' ''" using True kept by auto
    then have "enc_char c = [CHR ''%'', CHR '' '', hex_digit ?n]" using True c by (simp add: enc_char_def format_2X_ascii)
    moreover have "hex_val (CHR '' '') = None" by (simp add: hex_nat_def)
    ultimately show ?thesis using Cons hex_digit_plain [OF True] True by (simp add: reread_def)
  next
    case False
    have "hex_val (hex_digit (?n div 16)) = Some (?n div 16)" "hex_val (hex_digit (?n mod 16)) = Some (?n mod 16)"
      using n by (intro hex_digit_val; simp add: less_mult_imp_div_less)+
    then show ?thesis using Cons kept format_2X_ascii [OF c] False by (auto simp: enc_char_def reread_def)
  qed
qed simp

lemma concat_reread: "concat (map reread s) = s \<longleftrightarrow> (\<forall>c\<in>set s. 16 \<le> (of_char c :: nat))"
proof -
  have "length (concat (map reread s)) \<ge> length s \<and>
      (length (concat (map reread s)) = length s \<longrightarrow> (\<forall>c\<in>set s. 16 \<le> (of_char c :: nat)))"
    by (induction s) (auto simp: reread_def)
  moreover have "(\<forall>c\<in>set s. 16 \<le> (of_char c :: nat)) \<Longrightarrow> concat (map reread s) = s"
    by (induction s) (auto simp: reread_def)
  ultimately show ?thesis by auto
qed

section \<open>Splitting and replacing\<close>

lemma text_fields_eq_takeWhile:
  "text_fields d s = takeWhile (\<lambda>c. c \<noteq> d) s #
     (case dropWhile (\<lambda>c. c \<noteq> d) s of [] \<Rightarrow> [] | _ # r \<Rightarrow> text_fields d r)"
  by (induction s) auto

text \<open>The fields of the text, without a last one that is empty.\<close>

lemma split_text_eq:
  "split_text s d = (if last (text_fields d s) = [] then butlast (text_fields d s) else text_fields d s)"
proof (induction s d rule: split_text.induct)
  case (1 s d)
  show ?case
  proof (cases "s = []")
    case False
    show ?thesis
    proof (cases "dropWhile (\<lambda>c. c \<noteq> d) s")
      case Nil
      then have "takeWhile (\<lambda>c. c \<noteq> d) s = s" by (metis append_Nil2 takeWhile_dropWhile_id)
      note tw = this
      have "split_text s d = [s]"
        using False by (subst split_text.simps) (simp only: tw Nil if_False list.sel, simp add: split_text.simps)
      moreover have "text_fields d s = [s]" by (subst text_fields_eq_takeWhile) (simp only: tw Nil list.case)
      ultimately show ?thesis using False by simp
    next
      case (Cons x r)
      then show ?thesis
        using False 1 [OF False] by (simp add: split_text.simps [of s] text_fields_eq_takeWhile [of d s])
    qed
  qed (simp add: split_text.simps)
qed

declare find_at.simps [simp del]

function replace_all :: "cstring \<Rightarrow> cstring \<Rightarrow> cstring \<Rightarrow> cstring \<times> nat" where
  "replace_all f r s =
     (if f = [] then (s, 0)
      else case find_at f s of
        None \<Rightarrow> (s, 0)
      | Some p \<Rightarrow> (case replace_all f r (drop (p + length f) s) of (t, n) \<Rightarrow> (take p s @ r @ t, Suc n)))"
  by pat_completeness auto
termination
proof (relation "measure (\<lambda>(f, r, s). length s)")
  fix f s :: cstring and p
  assume f: "f \<noteq> []" and p: "find_at f s = Some p"
  then have "s \<noteq> []" by (auto simp: find_at.simps [of f "[]"])
  with f show "((f, r, drop (p + length f) s), (f, r, s)) \<in> measure (\<lambda>(f, r, s). length s)" for r by simp
qed simp

declare replace_all.simps [simp del]

lemma find_at_SomeD: "find_at f s = Some p \<Longrightarrow> p + length f \<le> length s \<and> take (length f) (drop p s) = f"
proof (induction s arbitrary: p)
  case Nil
  then show ?case by (auto simp: find_at.simps [of f "[]"] split: if_splits)
next
  case (Cons x xs)
  show ?case
  proof (cases "take (length f) (x # xs) = f")
    case True
    with Cons.prems have "p = 0" by (simp add: find_at.simps [of f "x # xs"])
    moreover have "length f \<le> length (x # xs)" using True by (metis length_take min.cobounded1)
    ultimately show ?thesis using True by simp
  next
    case False
    then obtain k where "p = Suc k" "find_at f xs = Some k"
      using Cons.prems by (auto simp: find_at.simps [of f "x # xs"])
    then show ?thesis using Cons.IH [of k] by simp
  qed
qed

lemma replace_loop_eq:
  assumes "f \<noteq> []"
  shows "replace_loop f r (pre @ s) (length pre) n =
    (case replace_all f r s of (t, k) \<Rightarrow> Some (pre @ t, n + k))"
  using assms
proof (induction f r s arbitrary: pre n rule: replace_all.induct)
  case (1 f r s)
  show ?case
  proof (cases "find_at f s")
    case None
    then show ?thesis
      by (subst replace_loop.simps) (simp add: find_from_def replace_all.simps [of f r s])
  next
    case (Some p)
    obtain t k where rest: "replace_all f r (drop (p + length f) s) = (t, k)" by fastforce
    have p: "p \<le> length s" using find_at_SomeD [OF Some] by simp
    have "replace_loop f r (pre @ s) (length pre) n =
        replace_loop f r ((pre @ take p s @ r) @ drop (p + length f) s) (length (pre @ take p s @ r)) (Suc n)"
      using p by (subst replace_loop.simps) (simp add: find_from_def Some add.assoc)
    also have "\<dots> = Some ((pre @ take p s @ r) @ t, Suc n + k)"
      using 1(1) [OF 1(2) Some 1(2), of "pre @ take p s @ r" "Suc n"] by (simp only: rest prod.case)
    finally show ?thesis using 1(2) Some rest by (simp add: replace_all.simps [of f r s])
  qed
qed

lemma replace_loop_empty:
  assumes "pos \<le> length s"
  shows "replace_loop [] r s pos n = None"
proof (rule ccontr)
  assume "replace_loop [] r s pos n \<noteq> None"
  then obtain y where "replace_loop [] r s pos n = Some y" by auto
  then have "\<not> ([] = ([] :: cstring) \<and> pos \<le> length s)"
    by (rule replace_loop.raw_induct [where P = "\<lambda>f r s pos n y. \<not> (f = [] \<and> pos \<le> length s)", rotated])
      (fastforce simp: find_from_def find_at.simps [of "[]"] split: option.splits)
  with assms show False by simp
qed

lemma url_decode_eq:
  "NUL \<notin> set s \<Longrightarrow> url_decode (Some s) q = takeWhile (\<lambda>c. c \<noteq> NUL) (url_dec q s)"
  using decode_loop_spec [of 0 0 s q] by (auto simp: url_decode_def)

lemma url_decode_enc:
  assumes "\<forall>c\<in>set s. ascii c" "NUL \<notin> set s"
  shows "url_decode (Some (concat (map enc_char s))) True = concat (map reread s)"
proof -
  have "NUL \<notin> set (concat (map enc_char s))" using assms ascii_not_NUL by auto
  moreover have "NUL \<notin> set (reread c)" if "c \<in> set s" for c
    using that assms(2) hex_digit_plain [of "of_char c"] by (auto simp: reread_def)
  then have "takeWhile (\<lambda>c. c \<noteq> NUL) (concat (map reread s)) = concat (map reread s)"
    by (auto simp: takeWhile_eq_all_conv)
  ultimately show ?thesis using url_dec_enc [OF assms(1)] by (simp add: url_decode_eq)
qed

section \<open>Properties\<close>

text \<open>
  Claim C22.  Decoding in place is decoding: the loop that reads and writes the same buffer never
  overwrites a character it has still to read, never reads past the closing NUL, and its
  result is that of the specification on the text, cut at the first decoded NUL.
\<close>

theorem url_decode_in_place:
  assumes "NUL \<notin> set s"
  shows "url_decode (Some s) q = takeWhile (\<lambda>c. c \<noteq> NUL) (url_dec q s)"
  using assms by (rule url_decode_eq)

theorem url_decode_in_place_witness:
  "NUL \<notin> set ''a%20b+%zz'' \<and>
   url_decode (Some ''a%20b+%zz'') True = takeWhile (\<lambda>c. c \<noteq> NUL) (url_dec True ''a%20b+%zz'')"
proof -
  have "NUL \<notin> set ''a%20b+%zz''" by simp
  then show ?thesis by (intro conjI url_decode_in_place)
qed

text \<open>
  Claim C23.  The output buffer of \<open>url_encode\<close> holds \<open>3 * strlen(url)\<close> bytes.  For every text the encoder stays
  inside it exactly when the bytes written for each character, at the position that the
  characters before it lead to, and the closing NUL fit (a byte above 127 takes ten bytes there).  For ASCII text that is the case exactly when
  some character needs no escape, and then the result is the concatenation of the encoded
  characters; an ASCII text of escaped characters only, and the empty text, make it write past the end.
\<close>

theorem url_encode_bounds:
  "(url_encode junk s \<noteq> None \<longleftrightarrow>
     (\<forall>i<length s. position s i + write_len (s ! i) \<le> 3 * length s) \<and> position s (length s) < 3 * length s) \<and>
   (list_all ascii s \<longrightarrow> url_encode junk s = (if list_all escaped s then None else Some (concat (map enc_char s))))"
proof (intro conjI impI)
  show "url_encode junk s \<noteq> None \<longleftrightarrow>
     (\<forall>i<length s. position s i + write_len (s ! i) \<le> 3 * length s) \<and> position s (length s) < 3 * length s"
    by (rule url_encode_defined)
  show "url_encode junk s = (if list_all escaped s then None else Some (concat (map enc_char s)))" if "list_all ascii s"
    using url_encode_eq [of s junk] that by (simp add: list_all_iff)
qed

theorem url_encode_bounds_witness:
  "url_encode '''' ''a/b'' = Some (concat (map enc_char ''a/b'')) \<and> url_encode '''' ''//'' = None \<and>
   url_encode '''' [CHR ''a'', CHR 0xC3] = None"
proof (intro conjI)
  note bounds = url_encode_bounds [of "''''", THEN conjunct1] url_encode_bounds [of "''''", THEN conjunct2, rule_format]
  show "url_encode '''' ''a/b'' = Some (concat (map enc_char ''a/b''))"
    by (subst bounds(2)) (simp_all add: ascii_def escaped_def kept_def is_alnum_def)
  show "url_encode '''' ''//'' = None"
    by (subst bounds(2)) (simp_all add: ascii_def escaped_def kept_def is_alnum_def)
  let ?s = "[CHR ''a'', CHR 0xC3]"
  have "length (enc_char (CHR 0xC3)) = 9" "escaped (CHR 0xC3)"
    using format_2X_negative [of "CHR 0xC3"] by (simp_all add: enc_char_def escaped_def kept_def is_alnum_def ascii_def)
  then have "\<not> position ?s 1 + write_len (?s ! 1) \<le> 3 * length ?s" by (simp add: write_len_def)
  moreover have "1 < length ?s" by simp
  ultimately show "url_encode '''' ?s = None" using bounds(1) [of ?s] by blast
qed

text \<open>
  Claim C24.  Whenever \<open>url_encode\<close> returns a text for an ASCII string, \<open>url_decode\<close> in query mode gives
  the original back exactly when the string has no character with a code below sixteen: line
  breaks and tabulators are lost.
\<close>

theorem url_decode_encode:
  assumes "list_all ascii s" "NUL \<notin> set s" "url_encode junk s = Some e"
  shows "url_decode (Some e) True = s \<longleftrightarrow> list_all (\<lambda>c. 16 \<le> (of_char c :: nat)) s"
proof -
  have a: "\<forall>c\<in>set s. ascii c" using assms(1) by (simp add: list_all_iff)
  have "e = concat (map enc_char s)" using a assms(3) url_encode_eq by (simp split: if_splits)
  then show ?thesis using url_decode_enc [OF a assms(2)] concat_reread [of s] by (simp add: list_all_iff)
qed

theorem url_decode_encode_witness:
  "url_decode (Some ''a%2Fb+c'') True = ''a/b c''"
proof -
  have "url_encode '''' ''a/b c'' = Some (concat (map enc_char ''a/b c''))"
    by (subst url_encode_eq) (simp_all add: ascii_def escaped_def kept_def is_alnum_def)
  moreover have "concat (map enc_char ''a/b c'') = ''a%2Fb+c''" by code_simp
  ultimately have "url_encode '''' ''a/b c'' = Some ''a%2Fb+c''" by simp
  from url_decode_encode [OF _ _ this] show ?thesis by (simp add: ascii_def)
qed

text \<open>
  A control character is encoded with a blank instead of a leading zero, so that its
  encoding does not decode to it.
\<close>

lemma control_character_lost:
  "url_encode '''' [CHR 0x0A, CHR ''a''] = Some ''% Aa'' \<and> url_decode (Some ''% Aa'') True \<noteq> [CHR 0x0A, CHR ''a'']"
  by code_simp

text \<open>
  \<open>split\<close> gives the fields between the delimiters in order, also the empty ones, but
  for one empty field at the end.
\<close>

lemma split_fields:
  "split_text s d = (if last (text_fields d s) = [] then butlast (text_fields d s) else text_fields d s)"
  by (rule split_text_eq)

text \<open>
  Claim C40.  Replacing a non-empty text terminates, replaces its occurrences from left to right
  without looking into the inserted text, and counts them; replacing the empty text never
  terminates.
\<close>

theorem replace_text_terminates_iff:
  "replace_text source pat rep =
     (if pat = [] then None else case replace_all pat rep source of (t, n) \<Rightarrow> Some (t, n))"
  using replace_loop_eq [of pat rep "''''" source 0] replace_loop_empty [of 0 source rep 0]
  by (simp add: replace_text_def)

end
