(* ===== verification/Request_Body.thy ===== *)
theory Request_Body
  imports Table_Wrapper Url
begin

text \<open>
  The request object of \<open>src/src/request.cpp\<close>: query parameters, the body of the request (read
  as a whole, by lines or in blocks) and form data.  Apache's side of the connection is a
  parameter: \<open>cl_get_block\<close> stands for \<open>ap_get_client_block\<close> and gives the new connection, the
  returned number and the bytes put into the buffer.
\<close>

section \<open>State\<close>

record 'c client_api =
  cl_setup_block :: "'c \<Rightarrow> 'c \<times> int"
  cl_should_block :: "'c \<Rightarrow> 'c \<times> int"
  cl_get_block :: "'c \<Rightarrow> nat \<Rightarrow> 'c \<times> int \<times> cstring"

record ('t, 'c) req =
  req_args :: "cstring option"
  req_method :: cstring
  req_headers_in :: 't
  req_bytes_sent :: int
  req_conn :: 'c
  req_form_data :: "'t option"
  req_queries :: "'t option"
  req_error :: cstring
  req_content :: cstring
  has_read_content :: bool
  has_setup_client_read :: bool

text \<open>The constructor, on what Apache's \<open>request_rec\<close> holds.\<close>

definition request_new :: "cstring option \<Rightarrow> cstring \<Rightarrow> 't \<Rightarrow> int \<Rightarrow> 'c \<Rightarrow> ('t, 'c) req" where
  "request_new args method headers_in bytes_sent conn =
     \<lparr>req_args = args, req_method = method, req_headers_in = headers_in, req_bytes_sent = bytes_sent,
      req_conn = conn, req_form_data = None, req_queries = None, req_error = '''', req_content = '''',
      has_read_content = False, has_setup_client_read = False\<rparr>"

definition max_content_length :: int where
  "max_content_length = 20 * 1024 * 1024"

section \<open>Query strings\<close>

text \<open>One pair of a query string; a pair without \<open>=\<close> or with an empty value is skipped.\<close>

definition parse_pair :: "'t table_api \<Rightarrow> cstring \<Rightarrow> 't \<Rightarrow> 't" where
  "parse_pair T i t =
     (case find_at ''='' i of
        None \<Rightarrow> t
      | Some found \<Rightarrow>
          if found = length i - 1 then t
          else table_merge T t (url_decode (Some (take found i)) True)
                 (url_decode (Some (take (length i - 1) (drop (found + 1) i))) True))"

definition parse_query_string :: "'t table_api \<Rightarrow> cstring \<Rightarrow> 't \<Rightarrow> 't" where
  "parse_query_string T s t = fold (parse_pair T) (split_text s (CHR ''&'')) t"

definition queries :: "'t table_api \<Rightarrow> ('t, 'c) req \<Rightarrow> ('t, 'c) req \<times> 't" where
  "queries T r =
     (case req_queries r of
        Some t \<Rightarrow> (r, t)
      | None \<Rightarrow>
          let t = (case req_args r of
                     Some args \<Rightarrow> parse_query_string T args (table_new T)
                   | None \<Rightarrow> table_new T)
          in (r\<lparr>req_queries := Some t\<rparr>, t))"

section \<open>The body\<close>

definition setup_client_read :: "'c client_api \<Rightarrow> ('t, 'c) req \<Rightarrow> ('t, 'c) req \<times> bool" where
  "setup_client_read C r =
     (if has_setup_client_read r then (r, True)
      else
        let r1 = r\<lparr>has_setup_client_read := True\<rparr>;
            (conn1, rc1) = cl_setup_block C (req_conn r1);
            r2 = r1\<lparr>req_conn := conn1\<rparr>
        in if rc1 \<noteq> 0 then (r2\<lparr>req_error := ''Request::form_data(): setup_client_block failed.''\<rparr>, False)
           else
             let (conn2, rc2) = cl_should_block C (req_conn r2);
                 r3 = r2\<lparr>req_conn := conn2\<rparr>
             in if rc2 = 0 then (r3\<lparr>req_error := ''Request::form_data(): should_client_block failed.''\<rparr>, False)
                else (r3, True))"

text \<open>
  The loop of \<open>content\<close>; the buffer has 4096 bytes, one of them for the NUL.  A caller may pass a
  function \<open>fn\<close> that is fed the blocks with its own data; otherwise they are collected.
\<close>

partial_function (option) content_loop ::
  "'c client_api \<Rightarrow> (cstring \<Rightarrow> 'u \<Rightarrow> 'u) option \<Rightarrow> 'c \<Rightarrow> cstring \<Rightarrow> 'u \<Rightarrow> ('c \<times> cstring \<times> 'u) option" where
  "content_loop C fn conn content user_data =
     (case cl_get_block C conn 4095 of (conn', len, buff) \<Rightarrow>
        if len > 0 then
          (case fn of
             Some f \<Rightarrow> content_loop C fn conn' content (f buff user_data)
           | None \<Rightarrow> content_loop C fn conn' (content @ buff) user_data)
        else Some (conn', content, user_data))"

text \<open>
  In \<open>content\<close> the test of \<open>has_read_content\<close> has no effect, and exceeding the limit only sets
  the error text.
\<close>

definition request_content ::
  "'c client_api \<Rightarrow> (cstring \<Rightarrow> 'u \<Rightarrow> 'u) option \<Rightarrow> 'u \<Rightarrow> ('t, 'c) req \<Rightarrow> (('t, 'c) req \<times> cstring \<times> 'u) option" where
  "request_content C fn user_data r =
     (let r1 = (if max_content_length \<noteq> -1 \<and> req_bytes_sent r > max_content_length
                then r\<lparr>req_error := ''Request::form_data(): exceded bytes_sent: '' @ dec_int max_content_length\<rparr>
                else r);
          (r2, ok) = setup_client_read C r1
      in do {
        (conn, c, u) \<leftarrow> content_loop C fn (req_conn r2) (req_content r2) user_data;
        let r3 = r2\<lparr>req_conn := conn, req_content := c, has_read_content := True\<rparr>;
        Some (r3, c, u)
      })"

text \<open>
  The loop of \<open>read_line\<close>: one byte at a time, appended as a C string, so that a NUL byte adds
  nothing.  Reading \<open>content[content.length() - 2]\<close> of a shorter text is undefined.  The result
  says whether the end of the body was met.
\<close>

partial_function (option) line_loop :: "'c client_api \<Rightarrow> 'c \<Rightarrow> cstring \<Rightarrow> ('c \<times> cstring \<times> bool) option" where
  "line_loop C conn content =
     (case cl_get_block C conn 1 of (conn', len, buff) \<Rightarrow>
        if len > 0 then
          (if cchar buff 0 = CHR 0x0A then
             (if length (content @ [CHR 0x0A]) < 2 then None
              else if (content @ [CHR 0x0A]) ! (length content - 1) = CHR 0x0D
              then Some (conn', content @ [CHR 0x0A], False)
              else line_loop C conn' (content @ [CHR 0x0A]))
           else line_loop C conn' (content @ (if cchar buff 0 = NUL then [] else [cchar buff 0])))
        else Some (conn', content, True))"

definition read_line :: "'c client_api \<Rightarrow> ('t, 'c) req \<Rightarrow> (('t, 'c) req \<times> cstring) option" where
  "read_line C r =
     (if has_read_content r then Some (r, '''')
      else do {
        let r1 = fst (setup_client_read C r);
        (conn, line, at_end) \<leftarrow> line_loop C (req_conn r1) '''';
        Some (r1\<lparr>req_conn := conn, has_read_content := at_end\<rparr>, line)
      })"

definition read_block :: "'c client_api \<Rightarrow> nat \<Rightarrow> ('t, 'c) req \<Rightarrow> ('t, 'c) req \<times> int \<times> cstring" where
  "read_block C len r =
     (if has_read_content r then (r, -1, '''')
      else
        let r1 = fst (setup_client_read C r);
            (conn, n, buff) = cl_get_block C (req_conn r1) len;
            r2 = r1\<lparr>req_conn := conn\<rparr>
        in (if n \<le> 0 then r2\<lparr>has_read_content := True\<rparr> else r2, n, buff))"

section \<open>Form data\<close>

definition has_substring :: "cstring \<Rightarrow> cstring \<Rightarrow> bool" where
  "has_substring f s \<longleftrightarrow> find_at f s \<noteq> None"

definition form_type :: cstring where
  "form_type = ''application/x-www-form-urlencoded''"

text \<open>\<open>None\<close> is the undefined construction of a string from the null pointer of a missing header.\<close>

definition has_form_data :: "'t table_api \<Rightarrow> ('t, 'c) req \<Rightarrow> bool option" where
  "has_form_data T r =
     (if req_method r \<noteq> ''POST'' then Some False
      else map_option (has_substring form_type) (table_get T (req_headers_in r) ''Content-Type''))"

definition form_data ::
  "'t table_api \<Rightarrow> 'c client_api \<Rightarrow> ('t, 'c) req \<Rightarrow> (('t, 'c) req \<times> 't option) option" where
  "form_data T C r =
     (case req_form_data r of
        Some t \<Rightarrow> Some (r, Some t)
      | None \<Rightarrow>
          (case table_get T (req_headers_in r) ''Content-Type'' of
             None \<Rightarrow> Some (r, None)
           | Some content_type \<Rightarrow>
               if \<not> has_substring form_type content_type then
                 let t = table_merge T (table_new T) ''content-type'' content_type
                 in Some (r\<lparr>req_error := ''Request::form_data(): unsupported content type'', req_form_data := Some t\<rparr>,
                      Some t)
               else do {
                 (r1, c, u) \<leftarrow> request_content C None () r;
                 let c1 = req_content r1 @ [NUL];
                 let t = parse_query_string T (takeWhile (\<lambda>x. x \<noteq> NUL) c1) (table_new T);
                 Some (r1\<lparr>req_content := c1, req_form_data := Some t\<rparr>, Some t)
               }))"

section \<open>The connection\<close>

text \<open>
  All blocks together are the body, however the connection cuts it: collected without a
  callback, fed to it in order otherwise.
\<close>

definition content_done ::
  "(cstring \<Rightarrow> 'u \<Rightarrow> 'u) option \<Rightarrow> cstring \<Rightarrow> cstring \<Rightarrow> 'u \<Rightarrow> cstring \<Rightarrow> 'u \<Rightarrow> bool" where
  "content_done fn body acc u acc' u' \<longleftrightarrow>
     (case fn of
        None \<Rightarrow> acc' = acc @ body \<and> u' = u
      | Some f \<Rightarrow> acc' = acc \<and> (\<exists>blocks. concat blocks = body \<and> u' = fold f blocks u))"

lemma content_done_Nil: "content_done fn [] acc u acc u"
  by (auto simp: content_done_def split: option.split intro: exI [of _ "[]"])

lemma content_done_block:
  "(case fn of None \<Rightarrow> content_done fn xs (acc @ b) u a' u' | Some f \<Rightarrow> content_done fn xs acc (f b u) a' u') \<Longrightarrow>
     content_done fn (b @ xs) acc u a' u'"
proof (cases fn)
  case (Some f)
  assume "case fn of None \<Rightarrow> content_done fn xs (acc @ b) u a' u' | Some f \<Rightarrow> content_done fn xs acc (f b u) a' u'"
  then obtain blocks where "a' = acc" "concat blocks = xs" "u' = fold f blocks (f b u)"
    using Some by (auto simp: content_done_def)
  then show ?thesis using Some by (auto simp: content_done_def intro!: exI [of _ "b # blocks"])
qed (simp add: content_done_def)

text \<open>A text that \<open>read_line\<close> reads in one piece, and a sequence of calls.\<close>

definition text_line :: "cstring \<Rightarrow> bool" where
  "text_line l \<longleftrightarrow> CHR 0x0A \<notin> set l \<and> NUL \<notin> set l"

fun read_lines :: "'c client_api \<Rightarrow> nat \<Rightarrow> ('t, 'c) req \<Rightarrow> (('t, 'c) req \<times> cstring list) option" where
  "read_lines C 0 r = Some (r, [])"
| "read_lines C (Suc n) r = do {
     (r1, l) \<leftarrow> read_line C r;
     (r2, ls) \<leftarrow> read_lines C n r1;
     Some (r2, l # ls)
   }"

text \<open>
  What Apache documents for \<open>ap_get_client_block\<close> when the transfer succeeds: it delivers the
  next bytes of the body, at least one and at most as many as asked for, and zero at the end;
  setting up the reading consumes nothing.
\<close>

locale client_body =
  fixes C :: "'c client_api" and rest :: "'c \<Rightarrow> cstring"
  assumes setup_rest: "cl_setup_block C c = (c', rc) \<Longrightarrow> rest c' = rest c"
    and should_rest: "cl_should_block C c = (c', rc) \<Longrightarrow> rest c' = rest c"
    and block_end: "rest c = [] \<Longrightarrow> \<exists>c' b. cl_get_block C c n = (c', 0, b) \<and> rest c' = []"
    and block_data: "rest c \<noteq> [] \<Longrightarrow> 0 < n \<Longrightarrow>
      \<exists>c' b. cl_get_block C c n = (c', int (length b), b) \<and> b \<noteq> [] \<and> length b \<le> n \<and> rest c = b @ rest c'"
begin

lemma setup_client_rest:
  "rest (req_conn (fst (setup_client_read C r))) = rest (req_conn r)"
  "req_content (fst (setup_client_read C r)) = req_content r"
  "req_form_data (fst (setup_client_read C r)) = req_form_data r"
  using setup_rest should_rest by (auto simp: setup_client_read_def Let_def split: prod.splits)

lemma content_loop_all:
  "\<exists>c' a' u'. content_loop C fn c acc u = Some (c', a', u') \<and> content_done fn (rest c) acc u a' u' \<and> rest c' = []"
proof (induction "length (rest c)" arbitrary: c acc u rule: less_induct)
  case less
  show ?case
  proof (cases "rest c = []")
    case True
    then obtain c' b where "cl_get_block C c 4095 = (c', 0, b)" "rest c' = []" using block_end by blast
    with True show ?thesis by (subst content_loop.simps) (auto simp: content_done_Nil)
  next
    case False
    then obtain c' b where b: "cl_get_block C c 4095 = (c', int (length b), b)" "b \<noteq> []" "rest c = b @ rest c'"
      using block_data [of c 4095] by auto
    then have l: "length (rest c') < length (rest c)" by simp
    show ?thesis
    proof (cases fn)
      case None
      with less [OF l, of "acc @ b" u] b content_done_block [of fn "rest c'" acc b u] show ?thesis
        by (subst content_loop.simps) fastforce
    next
      case (Some f)
      with less [OF l, of acc "f b u"] b content_done_block [of fn "rest c'" acc b u] show ?thesis
        by (subst content_loop.simps) fastforce
    qed
  qed
qed

lemma content_all:
  "\<exists>r' c u'. request_content C fn u r = Some (r', c, u') \<and> content_done fn (rest (req_conn r)) (req_content r) u c u' \<and>
     rest (req_conn r') = [] \<and> req_content r' = c \<and> has_read_content r' \<and> req_form_data r' = req_form_data r"
proof -
  define r1 where "r1 = (if max_content_length \<noteq> -1 \<and> req_bytes_sent r > max_content_length
      then r\<lparr>req_error := ''Request::form_data(): exceded bytes_sent: '' @ dec_int max_content_length\<rparr> else r)"
  have r1: "req_conn r1 = req_conn r" "req_content r1 = req_content r" "req_form_data r1 = req_form_data r"
    by (simp_all add: r1_def)
  let ?r2 = "fst (setup_client_read C r1)"
  obtain c' a' u' where "content_loop C fn (req_conn ?r2) (req_content ?r2) u = Some (c', a', u')"
      "content_done fn (rest (req_conn r)) (req_content r) u a' u'" "rest c' = []"
    using content_loop_all [of fn "req_conn ?r2" "req_content ?r2" u] setup_client_rest [of r1] r1 by auto
  then show ?thesis
    using setup_client_rest(3) [of r1] r1
    by (simp add: request_content_def r1_def [symmetric] Let_def split: prod.split) (auto split: prod.splits)
qed

lemma one_byte: "rest c = x # xs \<Longrightarrow> \<exists>c'. cl_get_block C c 1 = (c', 1, [x]) \<and> rest c' = xs"
  using block_data [of c 1] by (fastforce simp: neq_Nil_conv)

lemma line_loop_line:
  assumes "rest c = l @ [CHR 0x0D, CHR 0x0A] @ tail" "CHR 0x0A \<notin> set l" "NUL \<notin> set l"
  shows "\<exists>c'. line_loop C c acc = Some (c', acc @ l @ [CHR 0x0D, CHR 0x0A], False) \<and> rest c' = tail"
  using assms
proof (induction l arbitrary: c acc)
  case Nil
  then obtain c1 where 1: "cl_get_block C c 1 = (c1, 1, [CHR 0x0D])" "rest c1 = CHR 0x0A # tail"
    using one_byte [of c] by fastforce
  then obtain c2 where 2: "cl_get_block C c1 1 = (c2, 1, [CHR 0x0A])" "rest c2 = tail"
    using one_byte [of c1] by fastforce
  have "line_loop C c acc = line_loop C c1 (acc @ [CHR 0x0D])"
    using 1 by (subst line_loop.simps) simp
  also have "\<dots> = Some (c2, acc @ [CHR 0x0D, CHR 0x0A], False)"
    using 2 by (subst line_loop.simps) (simp add: nth_append)
  finally show ?case using 2 by simp
next
  case (Cons x l)
  then obtain c1 where 1: "cl_get_block C c 1 = (c1, 1, [x])" "rest c1 = l @ [CHR 0x0D, CHR 0x0A] @ tail"
    using one_byte [of c] by fastforce
  have "line_loop C c acc = line_loop C c1 (acc @ [x])"
    using 1 Cons.prems by (subst line_loop.simps) auto
  then show ?case using Cons.IH [OF 1(2), of "acc @ [x]"] Cons.prems by auto
qed

lemma line_loop_newline: "rest c = CHR 0x0A # tail \<Longrightarrow> line_loop C c '''' = None"
  using one_byte [of c "CHR 0x0A" tail] by (subst line_loop.simps) auto

lemma line_loop_tail:
  assumes "rest c = l" "CHR 0x0A \<notin> set l" "NUL \<notin> set l"
  shows "\<exists>c'. line_loop C c acc = Some (c', acc @ l, True) \<and> rest c' = []"
  using assms
proof (induction l arbitrary: c acc)
  case Nil
  then obtain c' b where "cl_get_block C c 1 = (c', 0, b)" "rest c' = []" using block_end by blast
  then show ?case by (subst line_loop.simps) simp
next
  case (Cons x l)
  then obtain c1 where 1: "cl_get_block C c 1 = (c1, 1, [x])" "rest c1 = l"
    using one_byte [of c] by fastforce
  have "line_loop C c acc = line_loop C c1 (acc @ [x])"
    using 1 Cons.prems by (subst line_loop.simps) auto
  then show ?case using Cons.IH [OF 1(2), of "acc @ [x]"] Cons.prems by auto
qed

lemma read_line_line:
  assumes "\<not> has_read_content r" "rest (req_conn r) = l @ [CHR 0x0D, CHR 0x0A] @ tail"
    and "CHR 0x0A \<notin> set l" "NUL \<notin> set l"
  shows "\<exists>r'. read_line C r = Some (r', l @ [CHR 0x0D, CHR 0x0A]) \<and> rest (req_conn r') = tail \<and> \<not> has_read_content r'"
  using assms setup_client_rest(1) [of r]
    line_loop_line [of "req_conn (fst (setup_client_read C r))" l tail "''''"]
  by (auto simp: read_line_def)

lemma read_line_tail:
  assumes "\<not> has_read_content r" "CHR 0x0A \<notin> set (rest (req_conn r))" "NUL \<notin> set (rest (req_conn r))"
  shows "\<exists>r'. read_line C r = Some (r', rest (req_conn r)) \<and> has_read_content r'"
  using assms setup_client_rest(1) [of r]
    line_loop_tail [of "req_conn (fst (setup_client_read C r))" "rest (req_conn r)" "''''"]
  by (auto simp: read_line_def)

lemma read_lines_all:
  assumes "\<not> has_read_content r" "rest (req_conn r) = concat (map (\<lambda>l. l @ [CHR 0x0D, CHR 0x0A]) ls) @ tail"
    and "list_all text_line (ls @ [tail])"
  shows "\<exists>r'. read_lines C (length ls + 1) r = Some (r', map (\<lambda>l. l @ [CHR 0x0D, CHR 0x0A]) ls @ [tail]) \<and>
    has_read_content r'"
  using assms
proof (induction ls arbitrary: r)
  case Nil
  then obtain r1 where "read_line C r = Some (r1, tail)" "has_read_content r1"
    using read_line_tail [of r] by (auto simp: text_line_def)
  then show ?case by simp
next
  case (Cons l ls)
  obtain r1 where r1: "read_line C r = Some (r1, l @ [CHR 0x0D, CHR 0x0A])"
      "rest (req_conn r1) = concat (map (\<lambda>l. l @ [CHR 0x0D, CHR 0x0A]) ls) @ tail" "\<not> has_read_content r1"
    using read_line_line [of r l] Cons.prems by (auto simp: text_line_def)
  obtain r' where "read_lines C (length ls + 1) r1 = Some (r', map (\<lambda>l. l @ [CHR 0x0D, CHR 0x0A]) ls @ [tail])"
      "has_read_content r'"
    using Cons.IH [OF r1(3,2)] Cons.prems by auto
  moreover have "length (l # ls) + 1 = Suc (length ls + 1)" by simp
  ultimately show ?case using r1(1) by (simp only: read_lines.simps) (simp del: read_lines.simps)
qed

lemma content_again:
  assumes "rest (req_conn r) = []"
  shows "\<exists>r'. request_content C None () r = Some (r', req_content r, ()) \<and> has_read_content r'"
  using content_all [of None "()" r] assms by (auto simp: content_done_def)

end

text \<open>A connection that delivers as much as it is asked for.\<close>

definition list_client :: "cstring client_api" where
  "list_client = \<lparr>
     cl_setup_block = (\<lambda>c. (c, 0)),
     cl_should_block = (\<lambda>c. (c, 1)),
     cl_get_block = (\<lambda>c n. (drop n c, int (length (take n c)), take n c)) \<rparr>"

interpretation list_body: client_body list_client "\<lambda>c. c"
  by unfold_locales (auto simp: list_client_def)

section \<open>Encoded forms\<close>

text \<open>
  The body that a client makes of a list of parameters: letters, digits and the marks that need no escape
  stand for themselves, a blank becomes a plus sign, and every other byte a percent sign with its two hexadecimal
  digits.
\<close>

definition form_char :: "char \<Rightarrow> cstring" where
  "form_char c = (if kept c then [c] else if c = CHR '' '' then ''+''
     else [CHR ''%'', hex_digit (of_char c div 16), hex_digit (of_char c mod 16)])"

definition enc :: "cstring \<Rightarrow> cstring" where
  "enc s = concat (map form_char s)"

definition form_text :: "(cstring \<times> cstring) list \<Rightarrow> cstring" where
  "form_text ps = separated ''&'' (map (\<lambda>(k, v). enc k @ ''='' @ enc v) ps)"

text \<open>Names and values are C strings: they hold no NUL.\<close>

definition good_params :: "(cstring \<times> cstring) list \<Rightarrow> bool" where
  "good_params ps \<longleftrightarrow> (\<forall>(k, v)\<in>set ps. NUL \<notin> set k \<and> NUL \<notin> set v)"

text \<open>The values of a parameter, and the text that \<open>apr_table_merge\<close> makes of them.\<close>

definition param_values :: "cstring \<Rightarrow> (cstring \<times> cstring) list \<Rightarrow> cstring list" where
  "param_values k ps = map snd (filter (\<lambda>(k', v). same_key k k') ps)"

definition merged :: "cstring list \<Rightarrow> cstring option" where
  "merged vs = (if vs = [] then None else Some (separated '', '' vs))"

lemma digits_of_char: "of_char c div 16 < (16 :: nat)" "of_char c mod 16 < (16 :: nat)"
  using nat_of_char_less_256 [of c] by (simp_all add: less_mult_imp_div_less)

lemma enc_reserved: "CHR ''&'' \<notin> set (enc s)" "CHR ''='' \<notin> set (enc s)" "NUL \<notin> set (enc s)"
proof -
  have "CHR ''&'' \<notin> set (form_char c) \<and> CHR ''='' \<notin> set (form_char c) \<and> NUL \<notin> set (form_char c)" for c
    using hex_digit_plain [OF digits_of_char(1), of c] hex_digit_plain [OF digits_of_char(2), of c]
    by (auto simp: form_char_def kept_def is_alnum_def)
  then show "CHR ''&'' \<notin> set (enc s)" "CHR ''='' \<notin> set (enc s)" "NUL \<notin> set (enc s)" by (auto simp: enc_def)
qed

lemma enc_eq_Nil: "enc s = [] \<longleftrightarrow> s = []"
  by (cases s) (auto simp: enc_def form_char_def)

lemma url_dec_form: "url_dec True (enc s) = s"
proof (induction s)
  case (Cons c s)
  have kept: "kept c \<Longrightarrow> c \<noteq> CHR ''+'' \<and> c \<noteq> CHR ''%''" by (auto simp: kept_def is_alnum_def)
  have "hex_val (hex_digit (of_char c div 16)) = Some (of_char c div 16)"
    "hex_val (hex_digit (of_char c mod 16)) = Some (of_char c mod 16)"
    by (intro hex_digit_val digits_of_char)+
  with Cons kept show ?case by (auto simp: enc_def form_char_def)
qed (simp add: enc_def)

lemma url_decode_form: "NUL \<notin> set s \<Longrightarrow> url_decode (Some (enc s)) True = s"
  using enc_reserved(3) [of s] by (simp add: url_decode_eq url_dec_form takeWhile_eq_all_conv) metis

lemma text_fields_separated:
  assumes "\<forall>x\<in>set xs. d \<notin> set x" "xs \<noteq> []"
  shows "text_fields d (separated [d] xs) = xs"
  using assms by (induction "[d]" xs rule: separated.induct) (auto simp: text_fields_append_sep text_fields_none)

lemma split_separated:
  assumes "\<forall>x\<in>set xs. d \<notin> set x \<and> x \<noteq> []"
  shows "split_text (separated [d] xs) d = xs"
  using assms text_fields_separated [of xs d] last_in_set [of xs]
  by (cases "xs = []") (auto simp: split_text_eq)

lemma find_at_char: "c \<notin> set a \<Longrightarrow> find_at [c] (a @ c # b) = Some (length a)"
proof (induction a)
  case (Cons x a)
  then show ?case by (subst find_at.simps) auto
qed (simp add: find_at.simps [of "[c]"])

lemma parse_pair_enc:
  assumes "NUL \<notin> set k" "NUL \<notin> set v"
  shows "parse_pair T (enc k @ ''='' @ enc v) t = (if v = [] then t else tbl_merge T t k v)"
proof -
  have "find_at ''='' (enc k @ ''='' @ enc v) = Some (length (enc k))"
    using find_at_char [OF enc_reserved(2)] by simp
  then show ?thesis
    using url_decode_form assms enc_eq_Nil [of v] by (simp add: parse_pair_def table_merge_def)
qed

lemma parse_form_text:
  assumes "good_params ps"
  shows "parse_query_string T (form_text ps) t =
    fold (\<lambda>(k, v) t. tbl_merge T t k v) (filter (\<lambda>(k, v). v \<noteq> []) ps) t"
proof -
  let ?f = "\<lambda>(k, v). enc k @ ''='' @ enc v"
  have "\<forall>x\<in>set (map ?f ps). CHR ''&'' \<notin> set x \<and> x \<noteq> []"
    by (auto simp: enc_reserved)
  then have "split_text (form_text ps) (CHR ''&'') = map ?f ps"
    unfolding form_text_def by (rule split_separated)
  moreover have "fold (parse_pair T) (map ?f ps) t = fold (\<lambda>(k, v) t. tbl_merge T t k v) (filter (\<lambda>(k, v). v \<noteq> []) ps) t"
    using assms
  proof (induction ps arbitrary: t)
    case (Cons p ps)
    then show ?case by (cases p) (auto simp: good_params_def parse_pair_enc simp del: append.simps)
  qed simp
  ultimately show ?thesis by (simp add: parse_query_string_def)
qed

lemma param_values_filter:
  "param_values k (filter (\<lambda>(k, v). v \<noteq> []) ps) = filter (\<lambda>v. v \<noteq> []) (param_values k ps)"
  by (induction ps) (auto simp: param_values_def)

lemma separated_merge: "separated sep ((w @ sep @ v) # vs) = w @ sep @ separated sep (v # vs)"
  by (cases vs) auto

context apr_table
begin

lemma get_fold_merge:
  "tbl_get T (fold (\<lambda>(k, v) t. tbl_merge T t k v) ps t) k =
     (case tbl_get T t k of None \<Rightarrow> merged (param_values k ps)
      | Some w \<Rightarrow> Some (separated '', '' (w # param_values k ps)))"
proof (induction ps arbitrary: t)
  case Nil
  then show ?case by (simp add: param_values_def merged_def split: option.split)
next
  case (Cons p ps)
  obtain k' v where p: "p = (k', v)" by fastforce
  show ?case
  proof (cases "same_key k k'")
    case True
    then have "param_values k (p # ps) = v # param_values k ps" by (simp add: param_values_def p)
    moreover have "tbl_get T t k' = tbl_get T t k" using True by (simp add: get_same [of k k'])
    ultimately show ?thesis
      using Cons.IH [of "tbl_merge T t k' v"] True
      separated_merge [of "'', ''" _ v "param_values k ps"]
      by (auto simp: p get_merge merged_def split: option.split)
  next
    case False
    then have "param_values k (p # ps) = param_values k ps" by (simp add: param_values_def p)
    then show ?thesis
      using Cons.IH [of "tbl_merge T t k' v"] False by (simp only: p) (simp add: get_merge)
  qed
qed

lemma get_form: "good_params ps \<Longrightarrow> tbl_get T (parse_query_string T (form_text ps) (tbl_make T)) k =
    merged (filter (\<lambda>v. v \<noteq> []) (param_values k ps))"
  by (simp add: parse_form_text get_fold_merge param_values_filter)

end

section \<open>Properties\<close>

lemma separated_set: "set (separated sep xs) \<subseteq> set sep \<union> \<Union> (set ` set xs)"
  by (induction sep xs rule: separated.induct) auto

lemma form_text_not_NUL: "NUL \<notin> set (form_text ps)"
proof -
  let ?xs = "map (\<lambda>(k, v). enc k @ ''='' @ enc v) ps"
  have "NUL \<notin> set x" if "x \<in> set ?xs" for x
    using that by (auto simp: enc_reserved)
  then have "NUL \<notin> set ''&'' \<union> \<Union> (set ` set ?xs)" by (auto simp del: set_map)
  then show ?thesis unfolding form_text_def using separated_set [of "''&''" ?xs] by blast
qed

text \<open>
  Claim C16.  A form that the client encodes from a list of parameters, names and values being any bytes but
  NUL, is read back but for the empty values: whatever pieces the connection cuts the body into,
  \<open>form_data\<close> returns a table in which each name (letter case aside) has the comma-separated list of
  its non-empty values, in order, and a name that has only empty values is absent, since the parser skips
  parameters without a value.  A second call returns the same table and reads nothing.
\<close>

theorem form_data_parses:
  assumes "apr_table T" "client_body C rest"
    and "table_get T (req_headers_in r) ''Content-Type'' = Some ct" "has_substring form_type ct"
    and "req_form_data r = None" "req_content r = []" "rest (req_conn r) = form_text ps" "good_params ps"
  shows "\<exists>r' t. form_data T C r = Some (r', Some t) \<and>
    (\<forall>k. tbl_get T t k = merged (filter (\<lambda>v. v \<noteq> []) (param_values k ps))) \<and> form_data T C r' = Some (r', Some t)"
proof -
  let ?t = "parse_query_string T (form_text ps) (tbl_make T)"
  obtain r1 where "request_content C None () r = Some (r1, form_text ps, ())"
      "req_content r1 = form_text ps"
    using client_body.content_all [OF assms(2), of None "()" r] assms(6,7) by (auto simp: content_done_def)
  moreover have "takeWhile (\<lambda>x. x \<noteq> NUL) (form_text ps @ [NUL]) = form_text ps"
    using form_text_not_NUL [of ps] by (auto simp: takeWhile_append)
  ultimately have "form_data T C r = Some (r1\<lparr>req_content := form_text ps @ [NUL], req_form_data := Some ?t\<rparr>, Some ?t)"
    using assms(3-5) by (simp add: form_data_def table_new_def Let_def)
  moreover have "\<forall>k. tbl_get T ?t k = merged (filter (\<lambda>v. v \<noteq> []) (param_values k ps))"
    using apr_table.get_form [OF assms(1,8)] by blast
  ultimately show ?thesis by (auto simp: form_data_def)
qed

definition sample_post :: "cstring \<Rightarrow> (entry list, cstring) req" where
  "sample_post body = request_new None ''POST'' [(''Content-Type'', form_type)] 0 body"

definition sample_params :: "(cstring \<times> cstring) list" where
  "sample_params = [(''a'', ''1 & 2''), (''b'', []), (''A'', [CHR 0xC3, CHR 0xA9, CHR 0x0A])]"

theorem form_data_parses_witness:
  "\<exists>r' t. form_data alist_table list_client (sample_post (form_text sample_params)) = Some (r', Some t) \<and>
    (\<forall>k. tbl_get alist_table t k = merged (filter (\<lambda>v. v \<noteq> []) (param_values k sample_params))) \<and>
    form_data alist_table list_client r' = Some (r', Some t)"
proof -
  have "table_get alist_table (req_headers_in (sample_post (form_text sample_params))) ''Content-Type'' = Some form_type"
    by (simp add: sample_post_def request_new_def table_get_def alist_table_def)
  moreover have "has_substring form_type form_type"
    by (simp add: has_substring_def find_at.simps)
  moreover have "good_params sample_params"
    by (simp add: good_params_def sample_params_def)
  ultimately show ?thesis
    by (intro form_data_parses [OF alist_tbl.apr_table_axioms list_body.client_body_axioms])
      (simp_all add: sample_post_def request_new_def)
qed

text \<open>
  Query parameters are parsed once: the first call of \<open>queries\<close> on an encoded argument
  string gives each name its values, later calls return the same table even when the
  arguments have changed since, and the rest of the request is left alone.
\<close>

lemma queries_parsed_once:
  assumes "apr_table T" "req_queries r = None" "req_args r = Some (form_text ps)" "good_params ps"
  shows "case queries T r of (r', t) \<Rightarrow>
    (\<forall>k. tbl_get T t k = merged (filter (\<lambda>v. v \<noteq> []) (param_values k ps))) \<and> r' = r\<lparr>req_queries := Some t\<rparr> \<and>
    (\<forall>a. queries T (r'\<lparr>req_args := a\<rparr>) = (r'\<lparr>req_args := a\<rparr>, t))"
  using assms(2,3) apr_table.get_form [OF assms(1,4)] by (simp add: queries_def table_new_def Let_def)

text \<open>
  Claim C25.  \<open>content\<close> always returns and delivers the whole body, to the buffer or block by block
  to the callback of the caller, however the connection cuts it.  Called again after the
  body was read it delivers nothing more and returns the same content.
\<close>

theorem content_delivers_body:
  assumes "client_body C rest"
  shows "\<exists>r' c u'. request_content C fn u r = Some (r', c, u') \<and>
    content_done fn (rest (req_conn r)) (req_content r) u c u' \<and> has_read_content r' \<and>
    (\<exists>r''. request_content C None () r' = Some (r'', c, ()))"
  using client_body.content_all [OF assms, of fn u r] client_body.content_again [OF assms] by metis

theorem content_delivers_body_witness:
  "client_body list_client (\<lambda>c. c) \<and>
   (\<exists>r' c u'. request_content list_client (Some (\<lambda>b n. n + length b)) 0 (sample_post ''abc'') = Some (r', c, u') \<and>
    content_done (Some (\<lambda>b n. n + length b)) (req_conn (sample_post ''abc'')) (req_content (sample_post ''abc'')) 0 c u' \<and>
    has_read_content r' \<and> (\<exists>r''. request_content list_client None () r' = Some (r'', c, ())))"
  by (intro conjI content_delivers_body [OF list_body.client_body_axioms] list_body.client_body_axioms)

text \<open>
  Claim C26.  Reading by lines loses nothing and comes to an end: from a body of lines that end with
  CR LF and a last piece without line end, successive calls of \<open>read_line\<close> return the
  lines with their ends, then the last piece, and from then on the empty text.
\<close>

theorem read_lines_in_order:
  assumes "client_body C rest" "\<not> has_read_content r"
    and "rest (req_conn r) = concat (map (\<lambda>l. l @ [CHR 0x0D, CHR 0x0A]) ls) @ tail"
    and "list_all text_line (ls @ [tail])"
  shows "\<exists>r'. read_lines C (length ls + 1) r = Some (r', map (\<lambda>l. l @ [CHR 0x0D, CHR 0x0A]) ls @ [tail]) \<and>
    read_line C r' = Some (r', '''')"
  using client_body.read_lines_all [OF assms] by (auto simp: read_line_def)

theorem read_lines_in_order_witness:
  "\<exists>r'. read_lines list_client (length [''ab'', '''', ''c''] + 1)
      (sample_post (concat (map (\<lambda>l. l @ [CHR 0x0D, CHR 0x0A]) [''ab'', '''', ''c'']) @ ''d'')) =
    Some (r', map (\<lambda>l. l @ [CHR 0x0D, CHR 0x0A]) [''ab'', '''', ''c''] @ [''d'']) \<and>
    read_line list_client r' = Some (r', '''')"
  by (rule read_lines_in_order [OF list_body.client_body_axioms])
    (simp_all add: sample_post_def request_new_def text_line_def)

text \<open>
  A body that begins with a line feed makes \<open>read_line\<close> read in front of its text:
  \<open>content[content.length() - 2]\<close> with a text of one character.
\<close>

lemma read_line_reads_out_of_bounds:
  assumes "client_body C rest" "\<not> has_read_content r" "rest (req_conn r) = CHR 0x0A # tail"
  shows "read_line C r = None"
  using client_body.line_loop_newline [OF assms(1)] client_body.setup_client_rest(1) [OF assms(1), of r] assms(2,3)
  by (simp add: read_line_def)

end
