(* ===== verification/Request_Text.thy ===== *)
theory Request_Text
  imports Request_Body
begin

text \<open>
  The textual description of a request, \<open>repr\<close> and \<open>dump\<close> of \<open>src/src/request.cpp\<close>: lines formatted
  with \<open>snprintf\<close> into a buffer of 256 bytes, tables printed entry by entry.  A null \<open>char*\<close> is
  printed as \<open>(null)\<close>, as the GNU C library does; numbers wider than \<open>i32\<close> are cut to it.
\<close>

section \<open>Formatting\<close>

definition pad_right :: "nat \<Rightarrow> cstring \<Rightarrow> cstring" where
  "pad_right n s = s @ replicate (n - length s) (CHR '' '')"

definition pad_left :: "nat \<Rightarrow> cstring \<Rightarrow> cstring" where
  "pad_left n s = replicate (n - length s) (CHR '' '') @ s"

definition shown :: "cstring option \<Rightarrow> cstring" where
  "shown v = (case v of None \<Rightarrow> ''(null)'' | Some s \<Rightarrow> s)"

text \<open>The text that \<open>snprintf(buf, n, ...)\<close> leaves in the buffer.\<close>

definition snprintf :: "nat \<Rightarrow> cstring \<Rightarrow> cstring" where
  "snprintf n s = take (n - 1) s"

definition i32_of :: "int \<Rightarrow> int" where
  "i32_of i = sint (word_of_int i :: 32 word)"

definition newline :: cstring where
  "newline = [CHR 0x0A]"

definition pair_line :: "cstring \<Rightarrow> cstring \<Rightarrow> cstring" where
  "pair_line key value = ''    '' @ pad_right 24 key @ '': '' @ value @ newline"

definition format_pair :: "cstring \<Rightarrow> cstring option \<Rightarrow> cstring" where
  "format_pair key value = snprintf 255 (pair_line key (shown value))"

definition format_pair_i32 :: "cstring \<Rightarrow> int \<Rightarrow> cstring" where
  "format_pair_i32 key value = snprintf 255 (pair_line key (dec_int (i32_of value)))"

definition entry_line :: "int \<Rightarrow> entry \<Rightarrow> cstring" where
  "entry_line i e = ''  '' @ pad_left 3 (dec_int i) @ '' '' @ pad_right 22 (fst e) @ '': '' @ snd e @ newline"

definition table_string_body :: "iterator \<Rightarrow> cstring \<Rightarrow> cstring option" where
  "table_string_body it out = do {
     e \<leftarrow> iter_pair it;
     Some (out @ snprintf 255 (entry_line (iter_index it) e))
   }"

definition table_string :: "'t table_api \<Rightarrow> 't \<Rightarrow> cstring option" where
  "table_string T t = while_next table_string_body (iter_of T t) ''''"

section \<open>The description of a request\<close>

text \<open>What \<open>repr\<close> shows of the request and its connection besides the fields of \<open>req\<close>.\<close>

record 't req_info =
  ri_hostname :: "cstring option"
  ri_document_root :: "cstring option"
  ri_the_request :: "cstring option"
  ri_status :: int
  ri_uri :: "cstring option"
  ri_filename :: "cstring option"
  ri_path_info :: "cstring option"
  ri_content_type :: "cstring option"
  ri_remote_host :: "cstring option"
  ri_remote_ip :: "cstring option"
  ri_protocol :: "cstring option"
  ri_proto_num :: int
  ri_status_line :: "cstring option"
  ri_method_number :: int
  ri_handler :: "cstring option"
  ri_user :: "cstring option"
  ri_local_host :: "cstring option"
  ri_local_ip :: "cstring option"
  ri_assbackwards :: int
  ri_proxyreq :: int
  ri_header_only :: int
  ri_allowed :: int
  ri_subprocess_env :: 't
  ri_notes :: 't
  ri_headers_out :: 't
  ri_err_headers_out :: 't

definition repr_fields :: "'t req_info \<Rightarrow> ('t, 'c) req \<Rightarrow> cstring list" where
  "repr_fields i r =
     [format_pair ''Hostname'' (ri_hostname i),
      format_pair ''Document Root'' (ri_document_root i),
      format_pair ''Request'' (ri_the_request i),
      format_pair ''Method'' (Some (req_method r)),
      format_pair_i32 ''Status'' (ri_status i),
      format_pair ''URI'' (ri_uri i),
      format_pair ''Args'' (req_args r),
      format_pair ''Filename'' (ri_filename i),
      format_pair ''Path'' (ri_path_info i),
      format_pair_i32 ''Bytes Sent'' (req_bytes_sent r),
      format_pair ''Content Type'' (ri_content_type i),
      format_pair ''Remote Host'' (ri_remote_host i),
      format_pair ''Remote IP'' (ri_remote_ip i),
      format_pair ''Protocol'' (ri_protocol i),
      format_pair_i32 ''Proto Number'' (ri_proto_num i),
      format_pair ''Status Line'' (ri_status_line i),
      format_pair_i32 ''Method Number'' (ri_method_number i),
      format_pair ''Handler'' (ri_handler i),
      format_pair ''User'' (ri_user i),
      format_pair ''Local Host'' (ri_local_host i),
      format_pair ''Local IP'' (ri_local_ip i),
      format_pair_i32 ''Assbackwards'' (ri_assbackwards i),
      format_pair_i32 ''Proxy Req'' (ri_proxyreq i),
      format_pair_i32 ''Header Only'' (ri_header_only i),
      format_pair_i32 ''Allowed'' (ri_allowed i)]"

text \<open>A section that is printed only for a table with entries.\<close>

definition table_section :: "'t table_api \<Rightarrow> cstring \<Rightarrow> 't \<Rightarrow> cstring \<Rightarrow> cstring option" where
  "table_section T title t trailer =
     (if table_size T t > 0 then do { s \<leftarrow> table_string T t; Some (title @ newline @ newline @ s @ trailer) }
      else Some '''')"

definition repr ::
  "'t table_api \<Rightarrow> 'c client_api \<Rightarrow> 't req_info \<Rightarrow> ('t, 'c) req \<Rightarrow> (('t, 'c) req \<times> cstring) option" where
  "repr T C i r = do {
     headers \<leftarrow> table_string T (req_headers_in r);
     env \<leftarrow> table_string T (ri_subprocess_env i);
     let out = ''Request:'' @ newline @ newline @ concat (repr_fields i r) @ newline @
               ''Headers in:'' @ newline @ newline @ headers @ newline @
               ''Environment Variables:'' @ newline @ newline @ env @ newline;
     (r1, params) \<leftarrow> form_data T C r;
     post \<leftarrow> (case params of
        None \<Rightarrow> Some ''''
      | Some t \<Rightarrow> do { s \<leftarrow> table_string T t; Some (''POST Parameters:'' @ newline @ newline @ s) });
     notes \<leftarrow> table_section T ''Notes:'' (ri_notes i) '''';
     hout \<leftarrow> table_section T ''Headers out:'' (ri_headers_out i) newline;
     eout \<leftarrow> table_section T ''Error Headers_out:'' (ri_err_headers_out i) newline;
     Some (r1, out @ post @ notes @ hout @ eout)
   }"

text \<open>\<open>dump\<close> sends the text to the client; \<open>rputs\<close> is Apache's, here a list of what was sent.\<close>

definition request_dump ::
  "'t table_api \<Rightarrow> 'c client_api \<Rightarrow> 't req_info \<Rightarrow> ('t, 'c) req \<Rightarrow> cstring list \<Rightarrow> (('t, 'c) req \<times> cstring list) option" where
  "request_dump T C i r sent = do { (r1, s) \<leftarrow> repr T C i r; Some (r1, sent @ [s]) }"

definition dump_table :: "'t table_api \<Rightarrow> 't \<Rightarrow> cstring list \<Rightarrow> cstring list option" where
  "dump_table T t sent = do { s \<leftarrow> table_string T t; Some (sent @ [s]) }"

section \<open>Facts\<close>

lemma length_snprintf: "length (snprintf n s) \<le> n - 1"
  by (simp add: snprintf_def)

lemma snprintf_fits: "length s < n \<Longrightarrow> snprintf n s = s"
  by (simp add: snprintf_def)

definition table_lines :: "entry list \<Rightarrow> cstring list" where
  "table_lines es = map (\<lambda>k. snprintf 255 (entry_line (int k) (es ! k))) [0..<length es]"

lemma fold_append_concat: "fold (\<lambda>k out. out @ f k) ks out = out @ concat (map f ks)"
  by (induction ks arbitrary: out) auto

lemma table_string_eq: "table_string T t = Some (concat (table_lines (tbl_elts T t)))"
proof -
  let ?h = "tbl_elts T t"
  have body: "table_string_body \<lparr>it_h = ?h, it_i = int k\<rparr> x = Some (x @ snprintf 255 (entry_line (int k) (?h ! k)))"
    if "k < length ?h" for k x
    using that by (simp add: table_string_body_def iter_pair_at iter_index_def)
  show ?thesis
    unfolding table_string_def
    using while_next_all [where f = "\<lambda>k e out. out @ snprintf 255 (entry_line (int k) e)" and x = "''''", OF body]
    by (simp add: fold_append_concat table_lines_def)
qed

lemma table_section_total: "\<exists>s. table_section T title t l = Some s"
  by (simp add: table_section_def table_string_eq)

context client_body
begin

lemma form_data_total: "\<exists>r' p. form_data T C r = Some (r', p)"
  using content_all [of None "()" r] by (auto simp: form_data_def Let_def split: option.split)

lemma repr_total: "\<exists>r' s. repr T C i r = Some (r', s)"
proof -
  obtain r' p where f: "form_data T C r = Some (r', p)" using form_data_total by blast
  obtain n h e where "table_section T ''Notes:'' (ri_notes i) '''' = Some n"
      "table_section T ''Headers out:'' (ri_headers_out i) newline = Some h"
      "table_section T ''Error Headers_out:'' (ri_err_headers_out i) newline = Some e"
    using table_section_total by metis
  then show ?thesis by (cases p) (simp_all add: repr_def table_string_eq f Let_def)
qed

end

section \<open>Properties\<close>

lemma entry_line_inner:
  assumes "length (entry_line i e) > n" "CHR 0x0A \<notin> set (fst e) \<union> set (snd e)"
  shows "CHR 0x0A \<notin> set (take n (entry_line i e))"
proof -
  let ?s = "''  '' @ pad_left 3 (dec_int i) @ '' '' @ pad_right 22 (fst e) @ '': '' @ snd e"
  have l: "entry_line i e = ?s @ newline" by (simp add: entry_line_def)
  have "take n (entry_line i e) = take n ?s" using assms(1) unfolding l by (simp add: newline_def del: append.simps append_assoc)
  moreover have "CHR 0x0A \<notin> set (dec_int i)" by (simp add: dec_int_def is_digit_def)
  then have "CHR 0x0A \<notin> set ?s" using assms(2) by (simp add: pad_left_def pad_right_def)
  ultimately show ?thesis by (metis in_set_takeD)
qed

text \<open>
  Claim C36.  A printed table is the concatenation of one piece per entry, in order and numbered from 0.  An
  entry whose line has at most 254 characters is printed in full, with its line feed; of a
  longer one the first 254 characters are printed.  Then its line feed is lost and the next entry
  goes on in the same line: the piece has no line feed, unless the entry itself has one.
\<close>

theorem table_string_bounded:
  "table_string T t = Some (concat (map (\<lambda>k. take 254 (entry_line (int k) (tbl_elts T t ! k))) [0..<length (tbl_elts T t)])) \<and>
   list_all (\<lambda>k. let e = tbl_elts T t ! k; l = entry_line (int k) e in
     if length l \<le> 254 then take 254 l = l \<and> last l = CHR 0x0A
     else CHR 0x0A \<notin> set (fst e) \<union> set (snd e) \<longrightarrow> CHR 0x0A \<notin> set (take 254 l)) [0..<length (tbl_elts T t)]"
proof
  show "table_string T t = Some (concat (map (\<lambda>k. take 254 (entry_line (int k) (tbl_elts T t ! k))) [0..<length (tbl_elts T t)]))"
    by (simp add: table_string_eq table_lines_def snprintf_def)
  have "last (entry_line i e) = CHR 0x0A" for i e by (simp add: entry_line_def newline_def)
  then show "list_all (\<lambda>k. let e = tbl_elts T t ! k; l = entry_line (int k) e in
     if length l \<le> 254 then take 254 l = l \<and> last l = CHR 0x0A
     else CHR 0x0A \<notin> set (fst e) \<union> set (snd e) \<longrightarrow> CHR 0x0A \<notin> set (take 254 l)) [0..<length (tbl_elts T t)]"
    using entry_line_inner [of 254] by (auto simp: list_all_iff Let_def)
qed

theorem table_string_bounded_witness:
  "\<exists>p. table_string alist_table [(''k'', replicate 300 (CHR ''x'')), (''a'', ''b'')] = Some (p @ entry_line 1 (''a'', ''b'')) \<and>
    length p = 254 \<and> CHR 0x0A \<notin> set p"
proof -
  let ?t = "[(''k'', replicate 300 (CHR ''x'')), (''a'', ''b'')]"
  let ?l = "entry_line 0 (''k'', replicate 300 (CHR ''x''))"
  have elts: "tbl_elts alist_table ?t = ?t" by (simp add: alist_table_def)
  have long: "length ?l > 254" and short: "take 254 (entry_line 1 (''a'', ''b'')) = entry_line 1 (''a'', ''b'')"
    by (simp_all add: entry_line_def pad_left_def pad_right_def newline_def dec_int_def dec_nat.simps)
  note b = table_string_bounded [of alist_table ?t]
  have "table_string alist_table ?t = Some (take 254 ?l @ entry_line 1 (''a'', ''b''))"
    using conjunct1 [OF b] short by (simp add: elts upt_rec)
  moreover have "CHR 0x0A \<notin> set (take 254 ?l)"
    using conjunct2 [OF b] long by (simp add: elts list_all_iff Let_def upt_rec)
  ultimately show ?thesis using long by (intro exI [of _ "take 254 ?l"]) simp
qed

text \<open>
  Describing a request always returns, whatever the request, its tables and the pieces
  in which the connection delivers the body.
\<close>

lemma repr_returns:
  assumes "client_body C rest"
  shows "\<exists>r' s. repr T C i r = Some (r', s) \<and> request_dump T C i r sent = Some (r', sent @ [s])"
  using client_body.repr_total [OF assms, of T i r] by (auto simp: request_dump_def)

end
