(* ===== verification/Request_Api.thy ===== *)
theory Request_Api
  imports Request_Body
begin

text \<open>
  The operations of \<open>apache::Request\<close> that change the request or write to the client
  (\<open>src/src/request.h\<close>, \<open>request.cpp\<close>).  Apache's functions are a record of functions on the
  request; the locale \<open>httpd_output\<close> states that output is delivered in order, and is interpreted
  on a request that collects it.
\<close>

section \<open>Apache's side\<close>

text \<open>The fields of \<open>request_rec\<close> that the operations set, and the functions they call.\<close>

record request_fields =
  rf_status :: int
  rf_allowed :: "64 word"
  rf_content_type :: "cstring option"

record 'r httpd_api =
  ap_fields :: "'r \<Rightarrow> request_fields"
  ap_set_fields :: "request_fields \<Rightarrow> 'r \<Rightarrow> 'r"
  ap_add_cgi_vars :: "'r \<Rightarrow> 'r"
  ap_add_common_vars :: "'r \<Rightarrow> 'r"
  ap_rputs :: "cstring \<Rightarrow> 'r \<Rightarrow> int \<times> 'r"
  ap_rputc :: "int \<Rightarrow> 'r \<Rightarrow> int \<times> 'r"
  ap_rwrite :: "cstring \<Rightarrow> nat \<Rightarrow> 'r \<Rightarrow> int \<times> 'r"
  ap_vrprintf :: "cstring \<Rightarrow> 'r \<Rightarrow> int \<times> 'r"
  ap_rflush :: "'r \<Rightarrow> int \<times> 'r"
  ap_allow_methods :: "bool \<Rightarrow> cstring list \<Rightarrow> 'r \<Rightarrow> 'r"
  ap_internal_redirect :: "cstring \<Rightarrow> 'r \<Rightarrow> 'r"
  ap_internal_redirect_handler :: "cstring \<Rightarrow> 'r \<Rightarrow> 'r"

section \<open>Operations\<close>

definition set_status :: "'r httpd_api \<Rightarrow> int \<Rightarrow> 'r \<Rightarrow> int \<times> 'r" where
  "set_status H s r = (s, ap_set_fields H ((ap_fields H r)\<lparr>rf_status := s\<rparr>) r)"

definition set_allowed :: "'r httpd_api \<Rightarrow> 64 word \<Rightarrow> 'r \<Rightarrow> 'r" where
  "set_allowed H x r = ap_set_fields H ((ap_fields H r)\<lparr>rf_allowed := x\<rparr>) r"

text \<open>\<open>content_type(type)\<close> sets the type to a copy of its argument, unless that is null, and returns it.\<close>

definition content_type :: "'r httpd_api \<Rightarrow> cstring option \<Rightarrow> 'r \<Rightarrow> cstring option \<times> 'r" where
  "content_type H type r =
     (case type of
        Some t \<Rightarrow> (Some t, ap_set_fields H ((ap_fields H r)\<lparr>rf_content_type := Some t\<rparr>) r)
      | None \<Rightarrow> (rf_content_type (ap_fields H r), r))"

text \<open>The size of the content, a \<open>size_t\<close>, returned as a 32-bit integer.\<close>

definition content_length :: "('t, 'c) req \<Rightarrow> int" where
  "content_length r = sint (word_of_nat (length (req_content r)) :: 32 word)"

definition setup_cgi :: "'r httpd_api \<Rightarrow> 'r \<Rightarrow> bool \<times> 'r" where
  "setup_cgi H r = (True, ap_add_common_vars H (ap_add_cgi_vars H r))"

definition request_rputs :: "'r httpd_api \<Rightarrow> cstring \<Rightarrow> 'r \<Rightarrow> int \<times> 'r" where
  "request_rputs H str r = ap_rputs H str r"

text \<open>The argument is an \<open>int\<close>, of which Apache sends the low byte.\<close>

definition request_rputc :: "'r httpd_api \<Rightarrow> int \<Rightarrow> 'r \<Rightarrow> int \<times> 'r" where
  "request_rputc H c r = ap_rputc H c r"

text \<open>The buffer is read up to \<open>nbyte\<close>: more than it holds is undefined.\<close>

definition request_rwrite :: "'r httpd_api \<Rightarrow> cstring \<Rightarrow> int \<Rightarrow> 'r \<Rightarrow> (int \<times> 'r) option" where
  "request_rwrite H buf nbyte r =
     (if 0 \<le> nbyte \<and> nat nbyte \<le> length buf then Some (ap_rwrite H buf (nat nbyte) r) else None)"

text \<open>\<open>text\<close> is what the format and its arguments give.\<close>

definition request_rprintf :: "'r httpd_api \<Rightarrow> cstring \<Rightarrow> 'r \<Rightarrow> int \<times> 'r" where
  "request_rprintf H text r = ap_vrprintf H text r"

definition request_rflush :: "'r httpd_api \<Rightarrow> 'r \<Rightarrow> int \<times> 'r" where
  "request_rflush H r = ap_rflush H r"

text \<open>
  \<open>ap_allow_methods\<close> reads its variable arguments as method names up to a null pointer.  The method
  of the class passes on one argument, its own argument list: a \<open>va_list\<close>, which is not a text.
  Reading it as one, or reading past the last argument, is undefined.
\<close>

datatype c_arg = Arg_string cstring | Arg_null | Arg_va_list "c_arg list"

fun method_args :: "c_arg list \<Rightarrow> cstring list option" where
  "method_args [] = None"
| "method_args (Arg_string s # args) = map_option ((#) s) (method_args args)"
| "method_args (Arg_null # args) = Some []"
| "method_args (Arg_va_list vp # args) = None"

definition call_ap_allow_methods :: "'r httpd_api \<Rightarrow> bool \<Rightarrow> c_arg list \<Rightarrow> 'r \<Rightarrow> 'r option" where
  "call_ap_allow_methods H reset args r = map_option (\<lambda>ms. ap_allow_methods H reset ms r) (method_args args)"

definition allow_methods :: "'r httpd_api \<Rightarrow> bool \<Rightarrow> c_arg list \<Rightarrow> 'r \<Rightarrow> 'r option" where
  "allow_methods H reset args r = call_ap_allow_methods H reset [Arg_va_list args] r"

definition internal_redirect :: "'r httpd_api \<Rightarrow> cstring \<Rightarrow> 'r \<Rightarrow> 'r" where
  "internal_redirect H new_uri r = ap_internal_redirect H new_uri r"

definition internal_redirect_handler :: "'r httpd_api \<Rightarrow> cstring \<Rightarrow> 'r \<Rightarrow> 'r" where
  "internal_redirect_handler H new_uri r = ap_internal_redirect H new_uri r"

section \<open>Sequences of output\<close>

datatype out_call = Puts cstring | Putc int | Write cstring int | Printf cstring | Flush

definition out_step :: "'r httpd_api \<Rightarrow> out_call \<Rightarrow> 'r \<Rightarrow> (int \<times> 'r) option" where
  "out_step H call r =
     (case call of
        Puts s \<Rightarrow> Some (request_rputs H s r)
      | Putc c \<Rightarrow> Some (request_rputc H c r)
      | Write b n \<Rightarrow> request_rwrite H b n r
      | Printf s \<Rightarrow> Some (request_rprintf H s r)
      | Flush \<Rightarrow> Some (request_rflush H r))"

fun out_run :: "'r httpd_api \<Rightarrow> out_call list \<Rightarrow> 'r \<Rightarrow> 'r option" where
  "out_run H [] r = Some r"
| "out_run H (c # cs) r = (case out_step H c r of None \<Rightarrow> None | Some (n, r') \<Rightarrow> out_run H cs r')"

fun out_text :: "out_call \<Rightarrow> cstring" where
  "out_text (Puts s) = s"
| "out_text (Putc c) = [char_of c]"
| "out_text (Write b n) = take (nat n) b"
| "out_text (Printf s) = s"
| "out_text Flush = []"

definition in_bounds :: "out_call \<Rightarrow> bool" where
  "in_bounds c = (case c of Write b n \<Rightarrow> 0 \<le> n \<and> nat n \<le> length b | _ \<Rightarrow> True)"

text \<open>
  What Apache documents, for a connection that accepts all output: \<open>sent\<close> is what the client has
  been given; writing output changes no field of the request, setting the fields sends nothing.
\<close>

locale httpd_output =
  fixes H :: "'r httpd_api"
    and sent :: "'r \<Rightarrow> cstring"
  assumes fields_set: "ap_fields H (ap_set_fields H f r) = f"
    and sent_set: "sent (ap_set_fields H f r) = sent r"
    and rputs_sent: "sent (snd (ap_rputs H s r)) = sent r @ s"
    and rputc_sent: "sent (snd (ap_rputc H c r)) = sent r @ [char_of c]"
    and rwrite_sent: "k \<le> length b \<Longrightarrow> sent (snd (ap_rwrite H b k r)) = sent r @ take k b"
    and vrprintf_sent: "sent (snd (ap_vrprintf H s r)) = sent r @ s"
    and rflush_sent: "sent (snd (ap_rflush H r)) = sent r"
    and output_fields: "ap_fields H (snd (ap_rputs H s r)) = ap_fields H r"
      "ap_fields H (snd (ap_rputc H c r)) = ap_fields H r"
      "ap_fields H (snd (ap_rwrite H b k r)) = ap_fields H r"
      "ap_fields H (snd (ap_vrprintf H s r)) = ap_fields H r"
      "ap_fields H (snd (ap_rflush H r)) = ap_fields H r"
begin

lemma out_step_sent:
  "in_bounds c \<Longrightarrow> \<exists>n r'. out_step H c r = Some (n, r') \<and> sent r' = sent r @ out_text c \<and> ap_fields H r' = ap_fields H r"
  by (cases c)
    (simp_all add: out_step_def in_bounds_def request_rputs_def request_rputc_def request_rwrite_def
      request_rprintf_def request_rflush_def rputs_sent rputc_sent rwrite_sent vrprintf_sent rflush_sent
      output_fields prod_eq_iff)

lemma out_run_sent:
  "list_all in_bounds cs \<Longrightarrow>
     \<exists>r'. out_run H cs r = Some r' \<and> sent r' = sent r @ concat (map out_text cs) \<and> ap_fields H r' = ap_fields H r"
proof (induction cs arbitrary: r)
  case (Cons c cs)
  then obtain n r1 where "out_step H c r = Some (n, r1)" "sent r1 = sent r @ out_text c" "ap_fields H r1 = ap_fields H r"
    using out_step_sent [of c r] by auto
  then show ?case using Cons.IH [of r1] Cons.prems by auto
qed simp

lemma content_type_set_get:
  "content_type H None (snd (content_type H (Some t) r)) = (Some t, snd (content_type H (Some t) r))"
  by (simp add: content_type_def fields_set)

end

section \<open>A request that collects its output\<close>

record collected =
  col_fields :: request_fields
  col_sent :: cstring

definition collect_api :: "collected httpd_api" where
  "collect_api = \<lparr>
     ap_fields = col_fields,
     ap_set_fields = (\<lambda>f r. r\<lparr>col_fields := f\<rparr>),
     ap_add_cgi_vars = (\<lambda>r. r),
     ap_add_common_vars = (\<lambda>r. r),
     ap_rputs = (\<lambda>s r. (int (length s), r\<lparr>col_sent := col_sent r @ s\<rparr>)),
     ap_rputc = (\<lambda>c r. (c, r\<lparr>col_sent := col_sent r @ [char_of c]\<rparr>)),
     ap_rwrite = (\<lambda>b k r. (int k, r\<lparr>col_sent := col_sent r @ take k b\<rparr>)),
     ap_vrprintf = (\<lambda>s r. (int (length s), r\<lparr>col_sent := col_sent r @ s\<rparr>)),
     ap_rflush = (\<lambda>r. (0, r)),
     ap_allow_methods = (\<lambda>reset ms r. r),
     ap_internal_redirect = (\<lambda>uri r. r\<lparr>col_fields := (col_fields r)\<lparr>rf_content_type := None\<rparr>\<rparr>),
     ap_internal_redirect_handler = (\<lambda>uri r. r) \<rparr>"

interpretation collect: httpd_output collect_api col_sent
  by unfold_locales (auto simp: collect_api_def)

section \<open>Properties\<close>

text \<open>
  Output calls in any sequence, with flushes anywhere, deliver their texts to the client
  in order and leave the status, the allowed methods and the content type alone; only a write of
  more bytes than its buffer holds is undefined.
\<close>

lemma output_in_order:
  assumes "httpd_output H sent" "list_all in_bounds cs"
  shows "\<exists>r'. out_run H cs r = Some r' \<and> sent r' = sent r @ concat (map out_text cs) \<and> ap_fields H r' = ap_fields H r"
  using httpd_output.out_run_sent [OF assms] .

text \<open>
  The redirect that should keep the content type is the plain one.
\<close>

lemma redirect_handler_is_redirect: "internal_redirect_handler H uri r = internal_redirect H uri r"
  by (simp add: internal_redirect_handler_def internal_redirect_def)

text \<open>
  The function of Apache accepts any list of names that ends with a null pointer; the method of the
  class is undefined for each of them.
\<close>

lemma method_args_strings: "method_args (map Arg_string ms @ [Arg_null]) = Some ms"
  by (induction ms) simp_all

lemma allow_methods_undefined:
  "call_ap_allow_methods H reset (map Arg_string ms @ [Arg_null]) r = Some (ap_allow_methods H reset ms r)"
  "allow_methods H reset (map Arg_string ms @ [Arg_null]) r = None"
  by (simp_all add: call_ap_allow_methods_def allow_methods_def method_args_strings)

text \<open>The length of the content is right below \(2^{31}\) bytes and negative from there to \(2^{32}\).\<close>

lemma content_length_wraps:
  assumes "length (req_content r) < 2 ^ 32"
  shows "content_length r =
    (if length (req_content r) < 2 ^ 31 then int (length (req_content r)) else int (length (req_content r)) - 2 ^ 32)"
  unfolding content_length_def by (rule sint_of_nat_32 [OF assms])

end
