(* ===== verification/Request_Calls.thy ===== *)
theory Request_Calls
  imports Request_Body
begin

text \<open>
  The methods of \<open>apache::Request\<close> that pass their arguments to the function of Apache of the same
  name (inline in \<open>src/src/request.h\<close>; \<open>get_basic_auth_pw\<close> in \<open>request.cpp\<close>).  The methods that read the
  body of a request use three of them; theory \<open>Request_Body\<close> has these as the record \<open>client_api\<close>,
  which is built here from the methods.
\<close>

section \<open>Apache's functions\<close>

text \<open>
  A call is the name of the function with its arguments other than the request; \<open>bb\<close> stands for a
  bucket brigade.  Apache is a function from a call and the request to the result and the request
  after it.
\<close>

type_synonym brigade = nat

datatype ap_call =
    Ap_discard_request_body
  | Ap_get_client_block nat
  | Ap_allow_options
  | Ap_allow_overrides
  | Ap_default_type
  | Ap_document_root
  | Ap_get_remote_logname
  | Ap_get_server_name
  | Ap_custom_response int cstring
  | Ap_some_auth_required
  | Ap_is_initial_req
  | Ap_update_mtime int
  | Ap_get_mime_headers
  | Ap_get_mime_headers_core brigade
  | Ap_finalize_request_protocol
  | Ap_send_error_response int
  | Ap_set_content_length int
  | Ap_set_keepalive
  | Ap_rationalize_mtime int
  | Ap_make_content_type cstring
  | Ap_make_etag int
  | Ap_set_etag
  | Ap_set_last_modified
  | Ap_meets_conditions
  | Ap_set_content_type cstring
  | Ap_setup_client_block int
  | Ap_should_client_block
  | Ap_note_auth_failure
  | Ap_note_basic_auth_failure
  | Ap_note_digest_auth_failure
  | Ap_parse_uri cstring
  | Ap_get_basic_auth_pw

text \<open>
  A result: nothing, a number, a text or the null pointer, or a number and what was written to the
  place that the caller gave.
\<close>

datatype ap_result = R_void | R_int int | R_text "cstring option" | R_out int cstring

type_synonym 'r apache = "ap_call \<Rightarrow> 'r \<Rightarrow> ap_result \<times> 'r"

section \<open>Methods\<close>

definition discard_request_body :: "'r apache \<Rightarrow> 'r \<Rightarrow> ap_result \<times> 'r" where
  "discard_request_body ap r = ap Ap_discard_request_body r"

definition get_client_block :: "'r apache \<Rightarrow> nat \<Rightarrow> 'r \<Rightarrow> ap_result \<times> 'r" where
  "get_client_block ap bufsiz r = ap (Ap_get_client_block bufsiz) r"

definition allow_options :: "'r apache \<Rightarrow> 'r \<Rightarrow> ap_result \<times> 'r" where
  "allow_options ap r = ap Ap_allow_options r"

definition allow_overrides :: "'r apache \<Rightarrow> 'r \<Rightarrow> ap_result \<times> 'r" where
  "allow_overrides ap r = ap Ap_allow_overrides r"

definition default_type :: "'r apache \<Rightarrow> 'r \<Rightarrow> ap_result \<times> 'r" where
  "default_type ap r = ap Ap_default_type r"

definition document_root :: "'r apache \<Rightarrow> 'r \<Rightarrow> ap_result \<times> 'r" where
  "document_root ap r = ap Ap_document_root r"

definition get_remote_logname :: "'r apache \<Rightarrow> 'r \<Rightarrow> ap_result \<times> 'r" where
  "get_remote_logname ap r = ap Ap_get_remote_logname r"

definition get_server_name :: "'r apache \<Rightarrow> 'r \<Rightarrow> ap_result \<times> 'r" where
  "get_server_name ap r = ap Ap_get_server_name r"

definition custom_response :: "'r apache \<Rightarrow> int \<Rightarrow> cstring \<Rightarrow> 'r \<Rightarrow> ap_result \<times> 'r" where
  "custom_response ap status str r = ap (Ap_custom_response status str) r"

definition some_auth_required :: "'r apache \<Rightarrow> 'r \<Rightarrow> ap_result \<times> 'r" where
  "some_auth_required ap r = ap Ap_some_auth_required r"

definition is_initial_req :: "'r apache \<Rightarrow> 'r \<Rightarrow> ap_result \<times> 'r" where
  "is_initial_req ap r = ap Ap_is_initial_req r"

definition update_mtime :: "'r apache \<Rightarrow> int \<Rightarrow> 'r \<Rightarrow> ap_result \<times> 'r" where
  "update_mtime ap dependency_mtime r = ap (Ap_update_mtime dependency_mtime) r"

definition get_mime_headers :: "'r apache \<Rightarrow> 'r \<Rightarrow> ap_result \<times> 'r" where
  "get_mime_headers ap r = ap Ap_get_mime_headers r"

definition get_mime_headers_core :: "'r apache \<Rightarrow> brigade \<Rightarrow> 'r \<Rightarrow> ap_result \<times> 'r" where
  "get_mime_headers_core ap bb r = ap (Ap_get_mime_headers_core bb) r"

definition finalize_request_protocol :: "'r apache \<Rightarrow> 'r \<Rightarrow> ap_result \<times> 'r" where
  "finalize_request_protocol ap r = ap Ap_finalize_request_protocol r"

definition send_error_response :: "'r apache \<Rightarrow> int \<Rightarrow> 'r \<Rightarrow> ap_result \<times> 'r" where
  "send_error_response ap recursive_error r = ap (Ap_send_error_response recursive_error) r"

definition set_content_length :: "'r apache \<Rightarrow> int \<Rightarrow> 'r \<Rightarrow> ap_result \<times> 'r" where
  "set_content_length ap len r = ap (Ap_set_content_length len) r"

definition set_keepalive :: "'r apache \<Rightarrow> 'r \<Rightarrow> ap_result \<times> 'r" where
  "set_keepalive ap r = ap Ap_set_keepalive r"

definition rationalize_mtime :: "'r apache \<Rightarrow> int \<Rightarrow> 'r \<Rightarrow> ap_result \<times> 'r" where
  "rationalize_mtime ap mtime r = ap (Ap_rationalize_mtime mtime) r"

definition make_content_type :: "'r apache \<Rightarrow> cstring \<Rightarrow> 'r \<Rightarrow> ap_result \<times> 'r" where
  "make_content_type ap typ r = ap (Ap_make_content_type typ) r"

definition make_etag :: "'r apache \<Rightarrow> int \<Rightarrow> 'r \<Rightarrow> ap_result \<times> 'r" where
  "make_etag ap force_weak r = ap (Ap_make_etag force_weak) r"

definition set_etag :: "'r apache \<Rightarrow> 'r \<Rightarrow> ap_result \<times> 'r" where
  "set_etag ap r = ap Ap_set_etag r"

definition set_last_modified :: "'r apache \<Rightarrow> 'r \<Rightarrow> ap_result \<times> 'r" where
  "set_last_modified ap r = ap Ap_set_last_modified r"

definition meets_conditions :: "'r apache \<Rightarrow> 'r \<Rightarrow> ap_result \<times> 'r" where
  "meets_conditions ap r = ap Ap_meets_conditions r"

definition set_content_type :: "'r apache \<Rightarrow> cstring \<Rightarrow> 'r \<Rightarrow> ap_result \<times> 'r" where
  "set_content_type ap ct r = ap (Ap_set_content_type ct) r"

definition setup_client_block :: "'r apache \<Rightarrow> int \<Rightarrow> 'r \<Rightarrow> ap_result \<times> 'r" where
  "setup_client_block ap read_policy r = ap (Ap_setup_client_block read_policy) r"

definition should_client_block :: "'r apache \<Rightarrow> 'r \<Rightarrow> ap_result \<times> 'r" where
  "should_client_block ap r = ap Ap_should_client_block r"

definition note_auth_failure :: "'r apache \<Rightarrow> 'r \<Rightarrow> ap_result \<times> 'r" where
  "note_auth_failure ap r = ap Ap_note_auth_failure r"

definition note_basic_auth_failure :: "'r apache \<Rightarrow> 'r \<Rightarrow> ap_result \<times> 'r" where
  "note_basic_auth_failure ap r = ap Ap_note_basic_auth_failure r"

definition note_digest_auth_failure :: "'r apache \<Rightarrow> 'r \<Rightarrow> ap_result \<times> 'r" where
  "note_digest_auth_failure ap r = ap Ap_note_digest_auth_failure r"

definition parse_uri :: "'r apache \<Rightarrow> cstring \<Rightarrow> 'r \<Rightarrow> ap_result \<times> 'r" where
  "parse_uri ap uri r = ap (Ap_parse_uri uri) r"

definition get_basic_auth_pw :: "'r apache \<Rightarrow> 'r \<Rightarrow> ap_result \<times> 'r" where
  "get_basic_auth_pw ap r = ap Ap_get_basic_auth_pw r"

section \<open>Reading a body through the methods\<close>

definition REQUEST_CHUNKED_DECHUNK :: int where "REQUEST_CHUNKED_DECHUNK = 2"

definition result_int :: "ap_result \<Rightarrow> int" where
  "result_int v = (case v of R_int n \<Rightarrow> n | R_out n b \<Rightarrow> n | _ \<Rightarrow> 0)"

definition result_text :: "ap_result \<Rightarrow> cstring" where
  "result_text v = (case v of R_out n b \<Rightarrow> b | _ \<Rightarrow> [])"

text \<open>The three calls of \<open>setup_client_read\<close>, \<open>content\<close>, \<open>read_line\<close> and \<open>read\<close>.\<close>

definition client_of :: "'r apache \<Rightarrow> 'r client_api" where
  "client_of ap = \<lparr>
     cl_setup_block = (\<lambda>r. case setup_client_block ap REQUEST_CHUNKED_DECHUNK r of (v, r') \<Rightarrow> (r', result_int v)),
     cl_should_block = (\<lambda>r. case should_client_block ap r of (v, r') \<Rightarrow> (r', result_int v)),
     cl_get_block = (\<lambda>r n. case get_client_block ap n r of (v, r') \<Rightarrow> (r', result_int v, result_text v)) \<rparr>"

text \<open>
  What Apache documents of these functions, for a body that arrives without an error; \<open>rest\<close> is the
  part that has not been delivered.
\<close>

locale apache_reading =
  fixes ap :: "'r apache" and rest :: "'r \<Rightarrow> cstring"
  assumes setup_call: "ap (Ap_setup_client_block p) r = (v, r') \<Longrightarrow> rest r' = rest r"
    and should_call: "ap Ap_should_client_block r = (v, r') \<Longrightarrow> rest r' = rest r"
    and block_call: "\<exists>b r'. ap (Ap_get_client_block n) r = (R_out (int (length b)) b, r') \<and> rest r = b @ rest r' \<and>
      length b \<le> n \<and> (0 < n \<longrightarrow> rest r \<noteq> [] \<longrightarrow> b \<noteq> [])"
begin

lemma get_client_block_data:
  "\<exists>b r'. cl_get_block (client_of ap) r n = (r', int (length b), b) \<and> rest r = b @ rest r' \<and> length b \<le> n \<and>
     (0 < n \<longrightarrow> rest r \<noteq> [] \<longrightarrow> b \<noteq> [])"
  using block_call [of n r] by (auto simp: client_of_def get_client_block_def result_int_def result_text_def)

end

sublocale apache_reading \<subseteq> client_body "client_of ap" rest
proof
  show "rest c' = rest c" if "cl_setup_block (client_of ap) c = (c', rc)" for c c' rc
    using that setup_call by (auto simp: client_of_def setup_client_block_def split: prod.splits)
  show "rest c' = rest c" if "cl_should_block (client_of ap) c = (c', rc)" for c c' rc
    using that should_call by (auto simp: client_of_def should_client_block_def split: prod.splits)
  show "\<exists>c' b. cl_get_block (client_of ap) c n = (c', 0, b) \<and> rest c' = []" if "rest c = []" for c n
    using that get_client_block_data [of c n] by auto
  show "\<exists>c' b. cl_get_block (client_of ap) c n = (c', int (length b), b) \<and> b \<noteq> [] \<and> length b \<le> n \<and> rest c = b @ rest c'"
    if "rest c \<noteq> []" "0 < n" for c n
    using that get_client_block_data [of c n] by blast
qed

text \<open>
  Through the methods of the class reading loses nothing: whatever pieces Apache delivers,
  \<open>content\<close> returns the whole of the body, after what was there before.
\<close>

context apache_reading
begin

lemma content_whole:
  "\<exists>r'. request_content (client_of ap) None () r = Some (r', req_content r @ rest (req_conn r), ())"
  using content_all [of None "()" r] by (auto simp: content_done_def)

end

text \<open>A request that holds its body, and delivers up to two bytes at a time.\<close>

fun slow_apache :: "cstring apache" where
  "slow_apache (Ap_get_client_block n) body =
     (R_out (int (length (take (min 2 n) body))) (take (min 2 n) body), drop (min 2 n) body)"
| "slow_apache (Ap_setup_client_block p) body = (R_int 0, body)"
| "slow_apache Ap_should_client_block body = (R_int 1, body)"
| "slow_apache _ body = (R_void, body)"

interpretation slow: apache_reading slow_apache "\<lambda>body. body"
  by unfold_locales auto

lemma slow_content:
  "\<exists>r'. request_content (client_of slow_apache) None () r = Some (r', req_content r @ req_conn r, ())"
  by (rule slow.content_whole)

end
