(* ===== verification/Gatedb.thy ===== *)
theory Gatedb
  imports Ip_Database Getopt_Correct
begin

text \<open>
  The administration tool \<open>src/src/gatedb.cpp\<close>: creation, indexing and checking of a filter
  database, the help text and the command line.  SQLite is the parameter of \<open>Sqlite\<close>; the
  option parser is the model of \<open>getopt_long.c\<close>.

  The result of a command is the code that \<open>main\<close> returns, or \<open>Inl\<close> and the text of an exception
  that nobody catches.  \<open>None\<close> is undefined behaviour: a null text passed to \<open>inet_pton\<close> or a
  stream, or an address read from the uninitialised \<open>ipvalue\<close>.
\<close>

section \<open>State\<close>

text \<open>\<open>t_open\<close> counts the database handles not closed.\<close>

record 'db tool =
  t_world :: "'db world"
  t_open :: int
  t_stdout :: cstring
  t_verbosity :: int

record gatedb_env =
  ge_readable :: "cstring option \<Rightarrow> bool"
  ge_big_endian :: bool
  ge_version :: cstring
  ge_arch :: cstring

type_synonym 'db tool_result = "('db tool \<times> (cstring + int)) option"

definition tool_print :: "cstring \<Rightarrow> 'db tool \<Rightarrow> 'db tool" where
  "tool_print s t = t\<lparr>t_world := eprint s (t_world t)\<rparr>"

text \<open>\<open>sqlite3_close\<close> in the destructor of \<open>Database\<close>: it refuses while a statement is alive.\<close>

definition database_close :: "'db tool \<Rightarrow> 'db tool" where
  "database_close t = (if w_live (t_world t) = 0 then t\<lparr>t_open := t_open t - 1\<rparr> else t)"

definition end_query :: "'stmt query \<Rightarrow> 'db tool \<Rightarrow> 'db tool" where
  "end_query q t = t\<lparr>t_world := snd (query_finalize q (t_world t))\<rparr>"

section \<open>Opening and creating\<close>

definition open_database ::
  "('db, 'stmt) sqlite_api \<Rightarrow> cstring option \<Rightarrow> 'db tool \<Rightarrow> ('db tool \<times> bool) option" where
  "open_database S path t =
     (case sq_open S path of (rc, db) \<Rightarrow>
        if rc \<noteq> 0 then do {
          p \<leftarrow> path;
          Some (tool_print (database_error S db (Some ''Can't open database: '') @ p) t, False)
        }
        else Some (t\<lparr>t_world := (t_world t)\<lparr>w_db := db\<rparr>, t_open := t_open t + 1\<rparr>, True))"

definition db_sql :: cstring where
  "db_sql =
     ''CREATE TABLE ua (          '' @ [CHR 0x0A] @
     ''    id integer primary key,'' @ [CHR 0x0A] @
     ''    name text,             '' @ [CHR 0x0A] @
     ''    http_code int,         '' @ [CHR 0x0A] @
     ''    http_message text );   '' @ [CHR 0x0A] @
     ''CREATE TABLE ip (          '' @ [CHR 0x0A] @
     ''    id integer primary key,'' @ [CHR 0x0A] @
     ''    start_text text,       '' @ [CHR 0x0A] @
     ''    end_text text,         '' @ [CHR 0x0A] @
     ''    start int,             '' @ [CHR 0x0A] @
     ''    end int,               '' @ [CHR 0x0A] @
     ''    http_code int,         '' @ [CHR 0x0A] @
     ''    http_message text );   '' @ [CHR 0x0A]"

definition create_database ::
  "('db, 'stmt) sqlite_api \<Rightarrow> gatedb_env \<Rightarrow> cstring option \<Rightarrow> 'db tool \<Rightarrow> 'db tool_result" where
  "create_database S env path t =
     (if ge_readable env path then do {
        p \<leftarrow> path;
        Some (tool_print (''Error: database file already exists: '' @ p) t, Inr 1)
      }
      else do {
        (t1, ok) \<leftarrow> open_database S path t;
        if \<not> ok then Some (t1, Inr 1)
        else
          let (w2, rc) = database_execute S db_sql (t_world t1);
              t2 = t1\<lparr>t_world := w2\<rparr>
          in if rc \<noteq> SQLITE_OK then
               Some (database_close (tool_print (''Failed to create database: '' @ '': '' @
                 database_error S (w_db w2) (Some ''Failed to create database'')) t2), Inr 1)
             else Some (database_close t2, Inr 0)
      })"

section \<open>Indexing\<close>

text \<open>
  The body of the loop, on the row at which \<open>query\<close> stands.  When the second address cannot be
  converted, \<open>ipvalue\<close> still holds the first one.
\<close>

definition index_row ::
  "('db, 'stmt) sqlite_api \<Rightarrow> bool \<Rightarrow> int \<Rightarrow> 'stmt query \<Rightarrow> 'db world \<Rightarrow> 'db world option" where
  "index_row S big_endian verbosity q w = do {
     let record_id = sq_column_int S (q_stmt q) 0;
     start_text \<leftarrow> sq_column_text S (q_stmt q) 1;
     end_text \<leftarrow> sq_column_text S (q_stmt q) 2;
     let w1 = eprint (start_text @ '' '' @ end_text) w;
     ipvalue \<leftarrow> inet_pton start_text;
     let start_addr = htonl big_endian (load32 big_endian ipvalue);
     let (ipvalue', w2) = (case inet_pton end_text of
            Some bs \<Rightarrow> (bs, w1)
          | None \<Rightarrow> (ipvalue, eprint (''Failed to convert IP address for record: '' @
              dec_int (sint record_id) @ '': '' @ end_text) w1));
     let end_addr = htonl big_endian (load32 big_endian ipvalue');
     let sql = update_sql start_addr end_addr record_id;
     let w3 = (if verbosity \<ge> 1 then eprint sql w2 else w2);
     let (w4, rc) = database_execute S sql w3;
     Some (if rc \<noteq> SQLITE_OK then
             eprint (''Failed to execute query for record: '' @ dec_int (sint record_id) @ '': '' @ sql) w4
           else w4)
   }"

partial_function (option) index_loop ::
  "('db, 'stmt) sqlite_api \<Rightarrow> bool \<Rightarrow> int \<Rightarrow> 'stmt query \<Rightarrow> 'db world \<Rightarrow> ('stmt query \<times> 'db world) option" where
  "index_loop S big_endian verbosity q w =
     (case query_step S q w of (q1, w1, rc) \<Rightarrow>
        if rc = SQLITE_ROW then do {
          w2 \<leftarrow> index_row S big_endian verbosity q1 w1;
          index_loop S big_endian verbosity q1 w2
        }
        else Some (q1, w1))"

definition index_database ::
  "('db, 'stmt) sqlite_api \<Rightarrow> gatedb_env \<Rightarrow> cstring option \<Rightarrow> 'db tool \<Rightarrow> 'db tool_result" where
  "index_database S env path t = do {
     (t1, ok) \<leftarrow> open_database S path t;
     if \<not> ok then Some (t1, Inr 1)
     else
       let (w2, rc2) = database_execute S ''BEGIN EXCLUSIVE'' (t_world t1)
       in (case query_prepare S unindexed_sql query_new w2 of
             (q, w3, Some e) \<Rightarrow> Some (t1\<lparr>t_world := w3\<rparr>, Inl e)
           | (q, w3, None) \<Rightarrow> do {
               (q4, w4) \<leftarrow> index_loop S (ge_big_endian env) (t_verbosity t1) q w3;
               let (w5, rc5) = database_execute S ''COMMIT'' w4;
               Some (database_close (end_query q4 (t1\<lparr>t_world := w5\<rparr>)), Inr 0)
             })
   }"

section \<open>Checking\<close>

partial_function (option) lint_loop ::
  "('db, 'stmt) sqlite_api \<Rightarrow> 'stmt query \<Rightarrow> 'db world \<Rightarrow> ('stmt query \<times> 'db world) option" where
  "lint_loop S q w =
     (case query_step S q w of (q1, w1, rc) \<Rightarrow>
        if rc = SQLITE_ROW then
          lint_loop S q1 (eprint (''Unindexed IP: id='' @ dec_int (sint (sq_column_int S (q_stmt q1) 0))) w1)
        else Some (q1, w1))"

definition lint_database ::
  "('db, 'stmt) sqlite_api \<Rightarrow> cstring option \<Rightarrow> 'db tool \<Rightarrow> 'db tool_result" where
  "lint_database S path t = do {
     (t1, ok) \<leftarrow> open_database S path t;
     if \<not> ok then Some (t1, Inr 1)
     else
       (case query_prepare S lint_sql query_new (t_world t1) of
          (q, w3, Some e) \<Rightarrow> Some (t1\<lparr>t_world := w3\<rparr>, Inl e)
        | (q, w3, None) \<Rightarrow> do {
            (q4, w4) \<leftarrow> lint_loop S q w3;
            Some (database_close (end_query q4 (t1\<lparr>t_world := w4\<rparr>)), Inr 0)
          })
   }"

section \<open>The command line\<close>

definition opt_array :: "long_option list" where
  "opt_array =
     [\<lparr>name = ''create'', has_arg = no_argument, flag = None, val = 99, description = ''Create database''\<rparr>,
      \<lparr>name = ''index'', has_arg = no_argument, flag = None, val = 105, description = ''Index database''\<rparr>,
      \<lparr>name = ''lint'', has_arg = no_argument, flag = None, val = 108, description = ''Lint database''\<rparr>,
      \<lparr>name = ''verbosity'', has_arg = required_argument, flag = None, val = 118, description = ''Verbosity''\<rparr>,
      \<lparr>name = ''help'', has_arg = no_argument, flag = None, val = 104, description = ''Show help''\<rparr>]"

definition column :: "nat \<Rightarrow> cstring \<Rightarrow> cstring" where
  "column n s = s @ replicate (n - length s) (CHR '' '')"

definition help_line :: "long_option \<Rightarrow> cstring" where
  "help_line i =
     (if has_arg i \<noteq> no_argument then
        ''   -'' @ [char_of (nat (val i))] @ '', '' @
        column 20 (''--'' @ name i @ ''=<'' @ name i @ ''>'') @ '' '' @ description i @ [CHR 0x0A]
      else
        ''   -'' @ [char_of (nat (val i))] @ '', --'' @ column 18 (name i) @ '' '' @ description i @ [CHR 0x0A])"

definition print_help :: "gatedb_env \<Rightarrow> 'db tool \<Rightarrow> 'db tool" where
  "print_help env t = t\<lparr>t_stdout := t_stdout t @
     ''gatedb version '' @ ge_version env @ '' ('' @ ge_arch env @ '')'' @ [CHR 0x0A, CHR 0x0A] @
     ''Usage: gatedb [options]'' @ [CHR 0x0A, CHR 0x0A] @
     ''Available options:'' @ [CHR 0x0A, CHR 0x0A] @
     concat (map help_line opt_array) @ [CHR 0x0A]\<rparr>"

text \<open>What the options ask for; the path is \<open>argv[optind]\<close> at that moment, null at the end.\<close>

datatype gatedb_command =
    Create "cstring option" | Index "cstring option" | Lint "cstring option" | Help | Done

text \<open>\<open>atoi\<close> of the GNU C library: \<open>strtol\<close>, which saturates, cut to an \<open>int\<close>.\<close>

definition atoi32 :: "cstring \<Rightarrow> int" where
  "atoi32 s = sint (word_of_int (max (- (2 ^ 63)) (min (2 ^ 63 - 1) (atoi s))) :: 32 word)"

definition gatedb_args :: "cstring list \<Rightarrow> bool \<Rightarrow> getopt_args" where
  "gatedb_args argv posix = \<lparr>strs = argv, options_null = False, options = ''cilv:h'',
     long_options = Some opt_array, idx_given = True, env_posixly_correct = posix\<rparr>"

definition path_arg :: "getopt_args \<Rightarrow> getopt_state \<Rightarrow> cstring option option" where
  "path_arg a st = map_option (map_option (\<lambda>p. str_at a (Some p))) (argv_at st (optind st))"

text \<open>
  The loop of \<open>process_cmdline\<close> up to the first command; the variable \<open>ch\<close> is a \<open>char\<close>, so the
  result of \<open>getopt_long\<close> is cut to eight bits.
\<close>

partial_function (option) cmdline_loop ::
  "getopt_args \<Rightarrow> getopt_state \<Rightarrow> int \<Rightarrow> (int \<times> gatedb_command) option" where
  "cmdline_loop a st verbosity = do {
     (st', r) \<leftarrow> getopt_long a (int (length (strs a))) st;
     let ch = sint (word_of_int r :: byte);
     if ch = -1 then Some (verbosity, Done)
     else if ch = 99 then do { p \<leftarrow> path_arg a st'; Some (verbosity, Create p) }
     else if ch = 105 then do { p \<leftarrow> path_arg a st'; Some (verbosity, Index p) }
     else if ch = 108 then do { p \<leftarrow> path_arg a st'; Some (verbosity, Lint p) }
     else if ch = 118 then
       (case optarg st' of
          None \<Rightarrow> None
        | Some p \<Rightarrow> cmdline_loop a st' (atoi32 (str_at a (Some p))))
     else if ch = 104 then Some (verbosity, Help)
     else cmdline_loop a st' verbosity
   }"

fun run_command ::
  "('db, 'stmt) sqlite_api \<Rightarrow> gatedb_env \<Rightarrow> gatedb_command \<Rightarrow> 'db tool \<Rightarrow> 'db tool_result" where
  "run_command S env (Create p) t = create_database S env p t"
| "run_command S env (Index p) t = index_database S env p t"
| "run_command S env (Lint p) t = lint_database S p t"
| "run_command S env Help t = Some (print_help env t, Inr 0)"
| "run_command S env Done t = Some (t, Inr 0)"

definition process_cmdline ::
  "('db, 'stmt) sqlite_api \<Rightarrow> gatedb_env \<Rightarrow> bool \<Rightarrow> cstring list \<Rightarrow> 'db tool \<Rightarrow> 'db tool_result" where
  "process_cmdline S env posix argv t = do {
     (v, c) \<leftarrow> cmdline_loop (gatedb_args argv posix) (getopt_init (length argv)) (t_verbosity t);
     run_command S env c (t\<lparr>t_verbosity := v\<rparr>)
   }"

end
