(* ===== verification/Gatedb_Cmdline.thy ===== *)
theory Gatedb_Cmdline
  imports Gatedb
begin

text \<open>
  The command line of \<open>gatedb\<close>: the loop over the options always ends in one of the commands, and
  which argument a command takes as its database.
\<close>

section \<open>The argument of the verbosity option\<close>

abbreviation gatedb_options :: cstring where
  "gatedb_options \<equiv> ''cilv:h''"

definition gatedb_like :: "getopt_args \<Rightarrow> bool" where
  "gatedb_like a \<longleftrightarrow> options a = gatedb_options \<and> long_options a = Some opt_array"

lemma scan_return:
  "scan_args a n fl st = Some (Return st' v) \<Longrightarrow> v = -1 \<or> v = 1"
proof (induction a n fl st rule: scan_args.induct)
  case (1 a n fl st)
  let ?st = "st\<lparr>optreset := False\<rparr>"
  show ?case
  proof (cases "optind st \<ge> n")
    case True
    with "1.prems" show ?thesis
      by (subst (asm) scan_args.simps) (auto dest: finish_args_frame)
  next
    case False
    with "1.prems" obtain p where p: "argv_str ?st (optind st) = Some p"
      by (subst (asm) scan_args.simps) (auto simp: Let_def bind_eq_Some_conv)
    show ?thesis
    proof (cases "is_nonoption a (Some p) \<and> fl AND FLAG_ALLARGS = 0 \<and> fl AND FLAG_PERMUTE \<noteq> 0")
      case True
      with "1.prems" False p obtain st2 where s: "skip_nonopt (?st\<lparr>place := EMSG\<rparr>) = Some st2"
        "scan_args a n fl st2 = Some (Return st' v)"
        by (subst (asm) scan_args.simps) (auto simp: Let_def bind_eq_Some_conv)
      then show ?thesis
        using "1.IH" [of ?st p "?st\<lparr>place := EMSG\<rparr>" st2] True False p by simp
    next
      case no_skip: False
      with "1.prems" False p show ?thesis
        by (subst (asm) scan_args.simps)
          (auto simp: Let_def dest: end_of_options_frame split: if_splits)
    qed
  qed
qed

text \<open>What every result of the parser satisfies: it fits into a \<open>char\<close>, and \<open>-v\<close> has its argument.\<close>

definition good_result :: "getopt_state \<times> int \<Rightarrow> bool" where
  "good_result x \<longleftrightarrow> -128 \<le> snd x \<and> snd x < 128 \<and> (snd x = 118 \<longrightarrow> optarg (fst x) \<noteq> None)"

lemma opt_array_entry:
  "opt \<in> set opt_array \<Longrightarrow> flag opt = None \<and> -128 \<le> val opt \<and> val opt < 128 \<and>
     (val opt = 118 \<longrightarrow> has_arg opt = required_argument)"
  by (auto simp: opt_array_def)

lemma gatedb_BAD: "gatedb_like a \<Longrightarrow> BADARG a = 63" "BADCH = 63"
  by (simp_all add: gatedb_like_def int_of_char_def)

lemma good_63: "good_result (st, 63)"
  by (simp add: good_result_def)

lemma good_place [simp]: "good_result (st\<lparr>place := p\<rparr>, r) = good_result (st, r)"
  by (simp add: good_result_def)

lemma long_found_good:
  assumes "long_found a cur len eq m opt st = Some x" "gatedb_like a" "opt \<in> set opt_array"
  shows "good_result x"
proof (cases "snd x = 63")
  case True
  then show ?thesis using good_63 [of "fst x"] by (cases x) simp
next
  case False
  have bad: "BADARG a = 63" using gatedb_BAD(1) [OF assms(2)] .
  obtain st1 where st1: "take_long_arg a opt eq st = Some st1"
      and no: "\<not> (has_arg opt = required_argument \<and> optarg st1 = None)"
    using assms(1) False bad unfolding long_found_def by (auto simp: bind_eq_Some_conv Let_def split: if_splits)
  then have "x = (if idx_given a then st1\<lparr>long_idx := m\<rparr> else st1, val opt)"
    using assms(1) False bad opt_array_entry [OF assms(3)] unfolding long_found_def
    by (auto simp: Let_def split: if_splits)
  with no opt_array_entry [OF assms(3)] show ?thesis by (auto simp: good_result_def)
qed

lemma parse_long_good:
  assumes "parse_long_options a opt_array short st = Some x" "gatedb_like a"
  shows "good_result x"
proof -
  let ?cur = "str_at a (place st)"
  let ?eq = "strchr ?cur (CHR ''='')"
  let ?len = "case ?eq of Some k \<Rightarrow> k | None \<Rightarrow> length ?cur"
  show ?thesis
  proof (cases "\<exists>m. match_long ?cur ?len short opt_array 0 (-1) = Match m \<and> m \<noteq> -1")
    case True
    then obtain m where m: "match_long ?cur ?len short opt_array 0 (-1) = Match m" "m \<noteq> -1" by blast
    then have "0 \<le> m" "m < int (length opt_array)" using match_long_range [OF m(1)] by auto
    then have "opt_array ! nat m \<in> set opt_array" by (simp add: nat_less_iff)
    with m assms show ?thesis
      by (auto simp: parse_long_options_def Let_def dest: long_found_good)
  next
    case False
    with assms(1) gatedb_BAD(2) have "snd x = 63 \<or> snd x = -1"
      by (auto simp: parse_long_options_def Let_def split: match_result.splits if_splits)
    then show ?thesis by (auto simp: good_result_def)
  qed
qed

lemma int_of_char_118: "int_of_char c = 118 \<longleftrightarrow> c = CHR ''v''"
proof
  assume "int_of_char c = 118"
  then have "(of_char c :: int) = of_char (CHR ''v'')" using of_char_int_bounds [of c] by (simp add: int_of_char_def split: if_splits)
  then show "c = CHR ''v''" by (simp only: of_char_eq_iff)
qed (simp add: int_of_char_def)

lemma short_good:
  assumes "short_option a (int (length (nargv st))) st = Some x" "gatedb_like a"
    and "optind st \<ge> 0"
  shows "good_result x"
proof -
  let ?c = "deref a (place st) 0" and ?st = "st\<lparr>place := advance (place st) 1\<rparr>" and ?n = "int (length (nargv st))"
  have g: "options a = gatedb_options" "long_options a = Some opt_array" using assms(2) by (simp_all add: gatedb_like_def)
  have bad: "BADARG a = 63" "BADCH = 63" using gatedb_BAD(1) [OF assms(2)] gatedb_BAD(2) .
  have W: "?c \<noteq> CHR ''W'' \<or> strchr (options a) ?c = None" by (auto simp: g strchr_def)
  show ?thesis
  proof (cases "snd x = 63 \<or> snd x = -1")
    case True
    then show ?thesis by (auto simp: good_result_def)
  next
    case False
    then have sf: "short_found a ?n ?c (the (strchr (options a) ?c)) ?st = Some x"
      using assms(1) bad W g(2) unfolding short_option_def Let_def by (auto split: if_splits)
    then have c: "snd x = int_of_char ?c"
      using False bad by (auto simp: short_found_def Let_def bind_eq_Some_conv split: if_splits)
    have "optarg (fst x) \<noteq> None" if v: "?c = CHR ''v''"
    proof -
      have "the (strchr (options a) ?c) = 3" using v by (simp add: g strchr_def)
      moreover obtain p where "place st = Some p" using v by (cases "place st") (auto simp: deref_def str_at_def)
      ultimately show ?thesis
        using sf v bad False assms(3)
        by (auto simp: short_found_def g c_string_simps Let_def bind_eq_Some_conv argv_at_def advance_def split: if_splits)
    qed
    with c show ?thesis
      using int_of_char_bounds [of ?c] int_of_char_118 [of ?c] by (simp add: good_result_def)
  qed
qed

lemma try_long_good:
  assumes "try_long a fl st = Some (Inl x)" "gatedb_like a"
  shows "good_result x"
proof -
  obtain short st1 st2 r where "parse_long_options a opt_array short st1 = Some (st2, r)" "x = (st2\<lparr>place := EMSG\<rparr>, r)"
    using assms by (auto simp: try_long_def gatedb_like_def Let_def bind_eq_Some_conv split: if_splits)
  then show ?thesis using parse_long_good assms(2) by fastforce
qed

lemma parse_option_good:
  assumes pl: "plain_args a" and i: "base_inv a flags st" "in_option a st" and g: "gatedb_like a"
    and p: "parse_option a (int (length (strs a))) fl st = Some x"
  shows "good_result x"
proof -
  note b = in_option_bounds [OF i]
  obtain l where l: "try_long a fl st = Some l"
      "(case l of Inl res \<Rightarrow> Some res | Inr st2 \<Rightarrow> short_option a (int (length (strs a))) st2) = Some x"
    using p by (auto simp: parse_option_def bind_eq_Some_conv)
  show ?thesis
  proof (cases l)
    case (Inl res)
    with l g show ?thesis using try_long_good by auto
  next
    case (Inr st2)
    then have "st2 = st" using try_long_ok [OF pl i, of fl] l(1) by auto
    with l Inr g b short_good [of a st x] show ?thesis by auto
  qed
qed

lemma gatedb_args_like:
  "gatedb_like (gatedb_args argv posix)" "call_args (gatedb_args argv posix) = gatedb_args argv posix"
  by (simp_all add: gatedb_like_def gatedb_args_def call_args_def)

lemma getopt_long_good:
  assumes pl: "plain_args a" and a: "a = gatedb_args argv posix" and inv: "parse_inv a FLAG_PERMUTE st"
    and r: "getopt_long a (int (length (strs a))) st = Some x"
  shows "good_result x"
proof -
  define fl where "fl = eff_flags a FLAG_PERMUTE st"
  define st0 where "st0 = (note_posix a st)\<lparr>optarg := None\<rparr>"
  let ?n = "int (length (strs a))"
  have ca: "call_args a = a" and g: "gatedb_like a" using gatedb_args_like a by simp_all
  have b: "base_inv a fl st0" and p: "deref a (place st0) 0 = NUL \<or> in_option a st0" and nr: "\<not> optreset st0"
    using inv by (simp_all add: parse_inv_def getopt_inv_def base_inv_optarg in_option_optarg ca fl_def st0_def)
  have "call_state a (note_posix a st) = st0"
    using base_inv_optind [OF b] nr by (simp add: call_state_def st0_def)
  define found where "found = (if deref a (place st0) 0 = NUL then scan_args a ?n fl st0 else Some (Go st0))"
  have "getopt_long a ?n st = (do { r \<leftarrow> found;
        (case r of Return st1 v \<Rightarrow> Some (st1, v) | Go st1 \<Rightarrow> parse_option a ?n fl st1) })"
    using pl nr \<open>call_state a (note_posix a st) = st0\<close> unfolding found_def getopt_long_def fl_def eff_flags_def
    by (simp add: getopt_internal_def Let_def plain_args_def ca)
  then obtain res where res: "found = Some res"
      "(case res of Return st1 v \<Rightarrow> Some (st1, v) | Go st1 \<Rightarrow> parse_option a ?n fl st1) = Some x"
    using r by (cases found) auto
  show ?thesis
  proof (cases res)
    case (Return st1 v)
    then have "v = -1 \<or> v = 1" using res(1) scan_return [of a ?n fl st0 st1 v] by (simp add: found_def split: if_splits)
    with Return res(2) show ?thesis by (auto simp: good_result_def)
  next
    case (Go st1)
    then have "base_inv a fl st1 \<and> in_option a st1"
      using res(1) p b scan_args_ok [OF pl b] by (auto simp: scan_ok_def found_def split: if_splits)
    moreover have "parse_option a ?n fl st1 = Some x" using Go res(2) by simp
    ultimately show ?thesis using parse_option_good [OF pl _ _ g] by blast
  qed
qed

section \<open>The loop ends\<close>

lemma char_of_result:
  assumes "good_result (st, r)"
  shows "sint (word_of_int r :: byte) = r"
  using assms by (simp add: good_result_def signed_of_int signed_take_bit_int_eq_self)

lemma path_arg_defined:
  assumes "parse_inv a fl st"
  shows "\<exists>p. path_arg a st = Some p"
proof -
  have "base_inv (call_args a) (eff_flags a fl st) (note_posix a st)"
    using assms by (simp add: parse_inv_def getopt_inv_def)
  then obtain A N O' where "at_arg (call_args a) (eff_flags a fl st) (note_posix a st) A N O'"
    unfolding base_inv_at_arg by blast
  then have r: "regions (note_posix a st) (length (strs a)) A N O'" by (simp add: at_arg_def)
  have "0 \<le> optind st \<and> optind st \<le> int (length (nargv st))"
    using regions_bounds [OF r] regions_length [OF r] by simp
  then show ?thesis by (auto simp: path_arg_def argv_at_def)
qed

lemma cmdline_loop_total:
  assumes "a = gatedb_args argv posix" "plain_args a" "parse_inv a FLAG_PERMUTE st"
  shows "\<exists>v c. cmdline_loop a st verbosity = Some (v, c)"
  using assms(3)
proof (induction "todo (call_args a) st" arbitrary: st verbosity rule: less_induct)
  case less
  obtain st' r where g: "getopt_long a (int (length (strs a))) st = Some (st', r)"
      and inv: "r \<noteq> -1 \<Longrightarrow> parse_inv a FLAG_PERMUTE st' \<and> todo (call_args a) st' < todo (call_args a) st"
    using getopt_internal_ok [OF assms(2) less.prems] by (auto simp: getopt_long_def split: if_splits)
  have good: "good_result (st', r)" by (rule getopt_long_good [OF assms(2,1) less.prems g])
  note ch = char_of_result [OF good]
  show ?case
  proof (cases "r = -1")
    case True
    with g show ?thesis by (subst cmdline_loop.simps) simp
  next
    case False
    note i = inv [OF False]
    obtain p where p: "path_arg a st' = Some p" using path_arg_defined i by blast
    have rec: "\<exists>v c. cmdline_loop a st' w = Some (v, c)" for w using less.hyps i by blast
    show ?thesis
    proof (cases "r = 118")
      case True
      then obtain q where "optarg st' = Some q" using good by (auto simp: good_result_def)
      with True g rec show ?thesis by (subst cmdline_loop.simps) simp
    next
      case no_v: False
      with g p rec False show ?thesis by (subst cmdline_loop.simps) (simp add: ch Let_def)
    qed
  qed
qed

section \<open>Properties\<close>

declare cmdline_loop.simps [code]

text \<open>
  Claim C29.  The command line is always decoded: for every argument vector without the byte 0xFF and
  without groups of letters that end in a dash, the loop over the options ends, never reads
  outside \<open>argv\<close> and never passes a null pointer to \<open>atoi\<close>, and selects one command.
\<close>

theorem cmdline_decoded:
  assumes "plain_args (gatedb_args argv posix)" "argv \<noteq> []"
  shows "\<exists>v c. cmdline_loop (gatedb_args argv posix) (getopt_init (length argv)) verbosity = Some (v, c)"
proof -
  have s: "strs (gatedb_args argv posix) = argv" by (simp add: gatedb_args_def)
  have "1 \<le> length (strs (gatedb_args argv posix))" using assms(2) by (simp add: s Suc_le_eq)
  from cmdline_loop_total [OF refl assms(1) parse_inv_init [OF this]] show ?thesis by (simp add: s)
qed

theorem cmdline_decoded_witness:
  "\<exists>v c. cmdline_loop (gatedb_args [''gatedb'', ''-v'', ''2'', ''--index'', ''db''] False) (getopt_init 5) 0 = Some (v, c)"
proof -
  have "plain_args (gatedb_args [''gatedb'', ''-v'', ''2'', ''--index'', ''db''] False)"
    by (simp add: plain_args_def gatedb_args_def opt_array_def)
  from cmdline_decoded [OF this, of 0] show ?thesis by (simp add: eval_nat_numeral)
qed

text \<open>
  The database of a command is the argument that follows the option: with the option
  first, \<open>gatedb -i db\<close> indexes \<open>db\<close>; with the database first, \<open>gatedb db -i\<close> passes the null
  pointer behind the last argument, although the parser accepts both orders.
\<close>

lemma database_before_option_lost:
  "cmdline_loop (gatedb_args [''gatedb'', ''-i'', ''db''] False) (getopt_init 3) 0 = Some (0, Index (Some ''db'')) \<and>
   cmdline_loop (gatedb_args [''gatedb'', ''db'', ''-i''] False) (getopt_init 3) 0 = Some (0, Index None)"
  by code_simp

end
