(* ===== verification/Gatedb_Correct.thy ===== *)
theory Gatedb_Correct
  imports Gatedb
begin

text \<open>
  Correctness of \<open>gatedb\<close>.  The locale \<open>sqlite_index\<close> adds to the behaviour of SQLite what the
  indexer relies on: a cursor delivers the selected rows one after the other, and an
  update of a row that the cursor does not have before it leaves the rest of the cursor alone; and
  transactions: what is written inside one reaches the file with its \<open>COMMIT\<close>.  It is interpreted
  on an engine with transactions over that of \<open>Ip_Database\<close>.
\<close>

section \<open>The behaviour of SQLite under a scan with updates\<close>

definition shows_text :: "('db, 'stmt) sqlite_api \<Rightarrow> 'stmt \<Rightarrow> sql_value list \<Rightarrow> bool" where
  "shows_text S s v \<longleftrightarrow>
     sq_column_int S (Some s) 0 = value_int (v ! 0) \<and>
     sq_column_text S (Some s) 1 = value_text (v ! 1) \<and>
     sq_column_text S (Some s) 2 = value_text (v ! 2)"

text \<open>
  The state of a connection towards its file: \<open>Free\<close>, outside a transaction and able to lock and
  write the file; \<open>Exclusive\<close>, inside an exclusive transaction on such a file; \<open>Busy\<close>, outside
  a transaction while another connection reads the file and does not end, so that it can be read but not
  written.  Of a connection in any \<open>Other\<close> state (a full or failing disk, say) nothing is known.
\<close>

datatype lock_state = Free | Exclusive | Busy | Other

text \<open>
  \<open>ip_rows\<close> are the rows that the connection sees, \<open>stored\<close> those in the file: what other connections
  see, and what remains when the connection is closed.
\<close>

locale sqlite_index = sqlite_ip S ip_rows
  for S :: "('db, 'stmt) sqlite_api" and ip_rows :: "'db \<Rightarrow> ip_row list option" +
  fixes cursor :: "'db \<Rightarrow> 'stmt \<Rightarrow> sql_value list list option"
    and stored :: "'db \<Rightarrow> ip_row list option"
    and lock :: "'db \<Rightarrow> lock_state"
  assumes select_unindexed: "ip_rows d = Some rows \<Longrightarrow>
      \<exists>s. sq_prepare S d unindexed_sql = (SQLITE_OK, Some s) \<and>
        cursor d s = Some (map text_row (filter unindexed rows))"
    and select_lint: "ip_rows d = Some rows \<Longrightarrow>
      \<exists>s. sq_prepare S d lint_sql = (SQLITE_OK, Some s) \<and>
        cursor d s = Some (map text_row (filter lint_matches rows))"
    and cursor_row: "ip_rows d = Some rows \<Longrightarrow> cursor d s = Some (v # vs) \<Longrightarrow>
      \<exists>d' s'. sq_step S d (Some s) = (d', Some s', SQLITE_ROW) \<and> ip_rows d' = Some rows \<and>
        stored d' = stored d \<and> lock d' = lock d \<and> cursor d' s' = Some vs \<and> shows_text S s' v"
    and cursor_end: "ip_rows d = Some rows \<Longrightarrow> cursor d s = Some [] \<Longrightarrow>
      \<exists>d' s'. sq_step S d (Some s) = (d', Some s', SQLITE_DONE) \<and> ip_rows d' = Some rows \<and>
        stored d' = stored d \<and> lock d' = lock d"
    and open_stored: "sq_open S p = (SQLITE_OK, d) \<Longrightarrow> stored d = ip_rows d"
    and begin_free: "lock d = Free \<Longrightarrow>
      \<exists>d'. sq_exec S d ''BEGIN EXCLUSIVE'' = (d', SQLITE_OK, None) \<and>
        ip_rows d' = ip_rows d \<and> stored d' = stored d \<and> lock d' = Exclusive"
    and exec_update: "ip_rows d = Some rows \<Longrightarrow> lock d = Exclusive \<Longrightarrow>
      \<exists>d'. sq_exec S d (update_sql a b i) = (d', SQLITE_OK, None) \<and>
        ip_rows d' = Some (map (update_row a b (sint i)) rows) \<and> stored d' = stored d \<and> lock d' = Exclusive \<and>
        (\<forall>s vs. cursor d s = Some vs \<longrightarrow> SqlInt (sint i) \<notin> hd ` set vs \<longrightarrow> cursor d' s = Some vs)"
    and commit_exclusive: "lock d = Exclusive \<Longrightarrow>
      \<exists>d'. sq_exec S d ''COMMIT'' = (d', SQLITE_OK, None) \<and>
        ip_rows d' = ip_rows d \<and> stored d' = ip_rows d \<and> lock d' = Free"
    and exec_busy: "lock d = Busy \<Longrightarrow> sql = ''BEGIN EXCLUSIVE'' \<or> sql = ''COMMIT'' \<or> sql = update_sql a b i \<Longrightarrow>
      \<exists>d' rc err. sq_exec S d sql = (d', rc, Some err) \<and> rc \<noteq> SQLITE_OK \<and>
        ip_rows d' = ip_rows d \<and> stored d' = stored d \<and> lock d' = Busy \<and> cursor d' = cursor d"

section \<open>What indexing means\<close>

text \<open>
  The two addresses of a row, when its texts can be converted; an end that cannot be
  converted stands for the start.
\<close>

definition row_range :: "bool \<Rightarrow> ip_row \<Rightarrow> (32 word \<times> 32 word) option" where
  "row_range big r =
     (case (row_start_text r, row_end_text r) of
        (SqlText s, SqlText e) \<Rightarrow>
          map_option (\<lambda>a. (a, case ip_number big e of Some b \<Rightarrow> b | None \<Rightarrow> a)) (ip_number big s)
      | _ \<Rightarrow> None)"

definition index_spec :: "bool \<Rightarrow> ip_row \<Rightarrow> ip_row" where
  "index_spec big r =
     (if unindexed r then
        (case row_range big r of
           Some (a, b) \<Rightarrow> r\<lparr>row_start := SqlInt (uint a), row_end := SqlInt (uint b)\<rparr>
         | None \<Rightarrow> r)
      else r)"

text \<open>
  A table that \<open>gatedb\<close> can index: row numbers are unique and fit into an \<open>int\<close>, and the rows
  without numbers have a start address.
\<close>

definition id32 :: "int \<Rightarrow> bool" where
  "id32 i \<longleftrightarrow> - (2 ^ 31) \<le> i \<and> i < 2 ^ 31"

definition indexable :: "bool \<Rightarrow> ip_row list \<Rightarrow> bool" where
  "indexable big rows \<longleftrightarrow> distinct (map row_id rows) \<and> list_all (id32 \<circ> row_id) rows \<and>
     list_all (\<lambda>r. row_range big r \<noteq> None) (filter unindexed rows)"

definition row_update :: "bool \<Rightarrow> ip_row \<Rightarrow> cstring" where
  "row_update big r =
     (case row_range big r of
        Some (a, b) \<Rightarrow> update_sql a b (word_of_int (row_id r))
      | None \<Rightarrow> '''')"

lemma id32_sint: "id32 i \<Longrightarrow> sint (word_of_int i :: 32 word) = i"
  by (simp add: id32_def signed_of_int signed_take_bit_int_eq_self)


lemma index_spec_id [simp]: "row_id (index_spec big r) = row_id r" "text_row (index_spec big r) = text_row r"
  by (auto simp: index_spec_def text_row_def split: option.split)

lemma not_unindexed_spec: "\<not> unindexed r \<Longrightarrow> index_spec big r = r"
  by (simp add: index_spec_def)

text \<open>Updating one row of the table is applying the specification to it.\<close>

lemma map_update_row:
  assumes "distinct (map row_id (xs @ r # ys))" "unindexed r" "row_range big r = Some (a, b)"
  shows "map (update_row a b (row_id r)) (xs @ r # ys) = xs @ index_spec big r # ys"
proof -
  have "map (update_row a b (row_id r)) zs = zs" if "row_id r \<notin> row_id ` set zs" for zs
    using that by (intro map_idI) (auto simp: update_row_def image_iff)
  moreover have "row_id r \<notin> row_id ` set xs" "row_id r \<notin> row_id ` set ys" using assms(1) by auto
  ultimately show ?thesis using assms(2,3) by (simp add: update_row_def index_spec_def)
qed

context sqlite_index
begin

lemma execute_plain:
  assumes "CHR ''%'' \<notin> set sql" "sq_exec S (w_db w) sql = (d, SQLITE_OK, None)"
  shows "database_execute S sql w = (w\<lparr>w_db := d, w_executed := w_executed w @ [sql]\<rparr>, SQLITE_OK)"
  using assms by (simp add: database_execute_def vmprintf_plain)

lemma index_row_spec:
  assumes r: "ip_rows (w_db w) = Some rows" "q_stmt q = Some s" "shows_text S s (text_row r)"
    and rg: "row_range big r = Some (a, b)" and id: "id32 (row_id r)" and tx: "lock (w_db w) = Exclusive"
  shows "\<exists>w'. index_row S big v q w = Some w' \<and> ip_rows (w_db w') = Some (map (update_row a b (row_id r)) rows) \<and>
    stored (w_db w') = stored (w_db w) \<and> lock (w_db w') = Exclusive \<and>
    w_live w' = w_live w \<and> w_executed w' = w_executed w @ [row_update big r] \<and>
    (\<forall>s vs. cursor (w_db w) s = Some vs \<longrightarrow> SqlInt (row_id r) \<notin> hd ` set vs \<longrightarrow> cursor (w_db w') s = Some vs)"
proof -
  obtain st et where t: "row_start_text r = SqlText st" "row_end_text r = SqlText et" and a: "ip_number big st = Some a"
      and b: "b = (case ip_number big et of Some x \<Rightarrow> x | None \<Rightarrow> a)"
    using rg by (auto simp: row_range_def split: sql_value.splits)
  have cols: "sq_column_int S (Some s) 0 = word_of_int (row_id r)" "sq_column_text S (Some s) 1 = Some st"
      "sq_column_text S (Some s) 2 = Some et"
    using r(3) t by (simp_all add: shows_text_def text_row_def)
  obtain bs where bs: "inet_pton st = Some bs" "htonl big (load32 big bs) = a"
    using a by (auto simp: ip_number_def)
  have b': "htonl big (load32 big (case inet_pton et of Some x \<Rightarrow> x | None \<Rightarrow> bs)) = b"
    using b bs(2) by (auto simp: ip_number_def split: option.splits)
  let ?sql = "update_sql a b (word_of_int (row_id r))"
  obtain d where d: "sq_exec S (w_db w) ?sql = (d, SQLITE_OK, None)"
      "ip_rows d = Some (map (update_row a b (row_id r)) rows)" "stored d = stored (w_db w)" "lock d = Exclusive"
      "\<forall>s vs. cursor (w_db w) s = Some vs \<longrightarrow> SqlInt (row_id r) \<notin> hd ` set vs \<longrightarrow> cursor d s = Some vs"
    using exec_update [OF r(1) tx, of a b "word_of_int (row_id r)"] id32_sint [OF id] by auto
  have ex: "database_execute S ?sql w' = (w'\<lparr>w_db := d, w_executed := w_executed w' @ [?sql]\<rparr>, SQLITE_OK)"
    if "w_db w' = w_db w" for w'
    using that d(1) by (intro execute_plain) (simp_all add: sql_texts_plain)
  have up: "row_update big r = ?sql" using rg by (simp add: row_update_def)
  show ?thesis
    using b' ex d up by (cases "inet_pton et"; cases "v \<ge> 1")
      (simp_all add: index_row_def r(2) cols [simplified] bs eprint_def Let_def)
qed

lemma step_cursor:
  assumes "ip_rows (w_db w) = Some rows" "q_stmt q = Some s" "cursor (w_db w) s = Some (v # vs)"
  shows "\<exists>q' s' d. query_step S q w = (q', w\<lparr>w_db := d\<rparr>, SQLITE_ROW) \<and> ip_rows d = Some rows \<and>
    stored d = stored (w_db w) \<and> lock d = lock (w_db w) \<and>
    q_stmt q' = Some s' \<and> cursor d s' = Some vs \<and> shows_text S s' v"
  using cursor_row [OF assms(1,3)] assms(2) by (auto simp: query_step_def)

lemma step_cursor_end:
  assumes "ip_rows (w_db w) = Some rows" "q_stmt q = Some s" "cursor (w_db w) s = Some []"
  shows "\<exists>q' s' d. query_step S q w = (q', w\<lparr>w_db := d\<rparr>, SQLITE_DONE) \<and> ip_rows d = Some rows \<and>
    stored d = stored (w_db w) \<and> lock d = lock (w_db w) \<and> q_stmt q' = Some s'"
  using cursor_end [OF assms(1,3)] assms(2) by (auto simp: query_step_def)

text \<open>The loop, with the rows already dealt with in front.\<close>

lemma index_loop_spec:
  assumes "ip_rows (w_db w) = Some (map (index_spec big) xs @ ys)" "q_stmt q = Some s"
    and "cursor (w_db w) s = Some (map text_row (filter unindexed ys))"
    and "indexable big (xs @ ys)" "lock (w_db w) = Exclusive"
  shows "\<exists>q' w' s'. index_loop S big v q w = Some (q', w') \<and> q_stmt q' = Some s' \<and>
    ip_rows (w_db w') = Some (map (index_spec big) (xs @ ys)) \<and> lock (w_db w') = Exclusive \<and> w_live w' = w_live w \<and>
    w_executed w' = w_executed w @ map (row_update big) (filter unindexed ys)"
  using assms
proof (induction "length (filter unindexed ys)" arbitrary: xs ys w q s)
  case 0
  then have "map (index_spec big) ys = ys" by (auto simp: filter_empty_conv intro!: map_idI not_unindexed_spec)
  moreover have "cursor (w_db w) s = Some []" using 0 by simp
  from step_cursor_end [OF 0(2,3) this] obtain q' s' d where
      "query_step S q w = (q', w\<lparr>w_db := d\<rparr>, SQLITE_DONE)" "ip_rows d = Some (map (index_spec big) xs @ ys)"
      "lock d = lock (w_db w)" "q_stmt q' = Some s'"
    by blast
  ultimately show ?case using 0 by (subst index_loop.simps) simp
next
  case (Suc n)
  from Suc.hyps(2) obtain r fs where f: "filter unindexed ys = r # fs" "length fs = n"
    by (cases "filter unindexed ys") auto
  obtain us zs where "ys = us @ r # zs" "\<forall>u\<in>set us. \<not> unindexed u" "unindexed r" "fs = filter unindexed zs"
    using filter_eq_ConsD [OF f(1)] by blast
  then have ys: "ys = us @ r # zs" "unindexed r" "filter unindexed us = []" and n: "n = length (filter unindexed zs)"
    using f(2) by (auto simp: filter_empty_conv)
  have us: "map (index_spec big) us = us" using ys(3) by (auto simp: filter_empty_conv intro!: map_idI not_unindexed_spec)
  have fu: "filter unindexed ys = r # filter unindexed zs" using ys by simp
  obtain q1 s1 d1 where st: "query_step S q w = (q1, w\<lparr>w_db := d1\<rparr>, SQLITE_ROW)" "q_stmt q1 = Some s1"
      "ip_rows d1 = Some (map (index_spec big) xs @ ys)" "cursor d1 s1 = Some (map text_row (filter unindexed zs))"
      "shows_text S s1 (text_row r)" "lock d1 = Exclusive"
    using step_cursor [OF Suc.prems(1,2)] Suc.prems(3,5) fu by auto
  obtain a b where rg: "row_range big r = Some (a, b)" using Suc.prems(4) ys by (auto simp: indexable_def)
  have id: "id32 (row_id r)" using Suc.prems(4) ys by (simp add: indexable_def)
  obtain w2 where w2: "index_row S big v q1 (w\<lparr>w_db := d1\<rparr>) = Some w2" "w_live w2 = w_live w"
      "ip_rows (w_db w2) = Some (map (update_row a b (row_id r)) (map (index_spec big) xs @ ys))"
      "w_executed w2 = w_executed w @ [row_update big r]"
      "\<forall>s vs. cursor d1 s = Some vs \<longrightarrow> SqlInt (row_id r) \<notin> hd ` set vs \<longrightarrow> cursor (w_db w2) s = Some vs"
      "lock (w_db w2) = Exclusive"
    using index_row_spec [of "w\<lparr>w_db := d1\<rparr>" _ q1 s1 r big a b v] st rg id by auto
  have dist: "distinct (map row_id (xs @ ys))" using Suc.prems(4) by (simp add: indexable_def)
  have "distinct (map row_id ((map (index_spec big) xs @ us) @ r # zs))"
    using dist ys by (simp add: o_def)
  from map_update_row [OF this ys(2) rg]
  have rows: "ip_rows (w_db w2) = Some (map (index_spec big) (xs @ us @ [r]) @ zs)"
    using w2(3) ys us by simp
  have "SqlInt (row_id r) \<notin> hd ` set (map text_row (filter unindexed zs))"
    using dist ys by (auto simp: text_row_def)
  with w2(5) st(4) have cur: "cursor (w_db w2) s1 = Some (map text_row (filter unindexed zs))" by blast
  have ix: "indexable big ((xs @ us @ [r]) @ zs)" using Suc.prems(4) ys by simp
  from Suc.hyps(1) [OF n rows st(2) cur ix w2(6)] st(1) w2 ys(1) fu show ?case
    by (subst index_loop.simps) auto
qed

lemma prepare_ok:
  assumes "CHR ''%'' \<notin> set sql" "sq_prepare S (w_db w) sql = (SQLITE_OK, Some s)"
  shows "query_prepare S sql query_new w = (\<lparr>q_error_code = 0, q_stmt = Some s\<rparr>, w\<lparr>w_live := w_live w + 1\<rparr>, None)"
  using assms by (simp add: query_prepare_def query_load_def query_finalize_def query_new_def vmprintf_plain)

lemma index_database_spec:
  assumes "sq_open S path = (SQLITE_OK, db)" "ip_rows db = Some rows" "lock db = Free" "indexable (ge_big_endian env) rows"
    and "w_live (t_world t) = 0"
  shows "\<exists>t'. index_database S env path t = Some (t', Inr 0) \<and>
    stored (w_db (t_world t')) = Some (map (index_spec (ge_big_endian env)) rows) \<and> lock (w_db (t_world t')) = Free \<and>
    w_executed (t_world t') = w_executed (t_world t) @ ''BEGIN EXCLUSIVE'' #
      map (row_update (ge_big_endian env)) (filter unindexed rows) @ [''COMMIT''] \<and>
    w_live (t_world t') = 0 \<and> t_open t' = t_open t"
proof -
  let ?w1 = "(t_world t)\<lparr>w_db := db\<rparr>" and ?big = "ge_big_endian env"
  let ?t1 = "t\<lparr>t_world := ?w1, t_open := t_open t + 1\<rparr>"
  have o: "open_database S path t = Some (?t1, True)" using assms(1) by (simp add: open_database_def)
  obtain d2 where b: "sq_exec S db ''BEGIN EXCLUSIVE'' = (d2, SQLITE_OK, None)" "ip_rows d2 = Some rows" "lock d2 = Exclusive"
    using begin_free [OF assms(3)] assms(2) by auto
  have d2: "database_execute S ''BEGIN EXCLUSIVE'' ?w1 =
      (?w1\<lparr>w_db := d2, w_executed := w_executed ?w1 @ [''BEGIN EXCLUSIVE'']\<rparr>, SQLITE_OK)"
    using b(1) by (intro execute_plain) simp_all
  let ?w2 = "?w1\<lparr>w_db := d2, w_executed := w_executed ?w1 @ [''BEGIN EXCLUSIVE'']\<rparr>"
  obtain s where s: "sq_prepare S d2 unindexed_sql = (SQLITE_OK, Some s)" "cursor d2 s = Some (map text_row (filter unindexed rows))"
    using select_unindexed [OF b(2)] by blast
  let ?q = "\<lparr>q_error_code = 0, q_stmt = Some s\<rparr>" and ?w3 = "?w2\<lparr>w_live := w_live ?w2 + 1\<rparr>"
  have p: "query_prepare S unindexed_sql query_new ?w2 = (?q, ?w3, None)"
    using s(1) by (intro prepare_ok) (simp_all add: sql_texts_plain)
  obtain q4 w4 s4 where l: "index_loop S ?big (t_verbosity t) ?q ?w3 = Some (q4, w4)" "q_stmt q4 = Some s4"
      "ip_rows (w_db w4) = Some (map (index_spec ?big) rows)" "lock (w_db w4) = Exclusive" "w_live w4 = w_live (t_world t) + 1"
      "w_executed w4 = w_executed (t_world t) @ ''BEGIN EXCLUSIVE'' # map (row_update ?big) (filter unindexed rows)"
    using index_loop_spec [of ?w3 ?big "[]" rows ?q s "t_verbosity t"] b(2,3) s(2) assms(4) by auto
  obtain d5 where c: "sq_exec S (w_db w4) ''COMMIT'' = (d5, SQLITE_OK, None)" "stored d5 = ip_rows (w_db w4)" "lock d5 = Free"
    using commit_exclusive [OF l(4)] by blast
  have d5: "database_execute S ''COMMIT'' w4 = (w4\<lparr>w_db := d5, w_executed := w_executed w4 @ [''COMMIT'']\<rparr>, SQLITE_OK)"
    using c(1) by (intro execute_plain) simp_all
  show ?thesis
    using l c(2,3) d5 assms(5) by (simp add: index_database_def o d2 [simplified] p [simplified] end_query_def query_finalize_def database_close_def)
qed

text \<open>
  When the file is busy: the failures of \<open>BEGIN\<close>, of every update and of \<open>COMMIT\<close> are printed, but the
  loop and the function go on.
\<close>

lemma execute_busy:
  assumes "lock (w_db w) = Busy" "sql = ''BEGIN EXCLUSIVE'' \<or> sql = ''COMMIT'' \<or> sql = update_sql a b i"
  shows "\<exists>w' rc. database_execute S sql w = (w', rc) \<and> rc \<noteq> SQLITE_OK \<and> ip_rows (w_db w') = ip_rows (w_db w) \<and>
    stored (w_db w') = stored (w_db w) \<and> lock (w_db w') = Busy \<and> cursor (w_db w') = cursor (w_db w) \<and> w_live w' = w_live w"
proof -
  have "CHR ''%'' \<notin> set sql" using assms(2) sql_texts_plain(4) by auto
  with exec_busy [OF assms] show ?thesis by (auto simp: database_execute_def vmprintf_plain eprint_def)
qed

lemma index_row_busy:
  assumes "lock (w_db w) = Busy" "q_stmt q = Some s" "shows_text S s (text_row r)" "row_range big r \<noteq> None"
  shows "\<exists>w'. index_row S big v q w = Some w' \<and> ip_rows (w_db w') = ip_rows (w_db w) \<and> stored (w_db w') = stored (w_db w) \<and>
    lock (w_db w') = Busy \<and> cursor (w_db w') = cursor (w_db w) \<and> w_live w' = w_live w"
proof -
  obtain st et where t: "row_start_text r = SqlText st" "row_end_text r = SqlText et" "ip_number big st \<noteq> None"
    using assms(4) by (auto simp: row_range_def split: sql_value.splits)
  have cols: "sq_column_text S (Some s) 1 = Some st" "sq_column_text S (Some s) 2 = Some et"
    using assms(3) t by (simp_all add: shows_text_def text_row_def)
  obtain bs where bs: "inet_pton st = Some bs" using t(3) by (auto simp: ip_number_def)
  define a where "a = htonl big (load32 big bs)"
  define b where "b = htonl big (load32 big (case inet_pton et of Some x \<Rightarrow> x | None \<Rightarrow> bs))"
  let ?sql = "update_sql a b (sq_column_int S (Some s) 0)"
  have ex: "\<exists>w2 rc. database_execute S ?sql w1 = (w2, rc) \<and> rc \<noteq> SQLITE_OK \<and> ip_rows (w_db w2) = ip_rows (w_db w) \<and>
      stored (w_db w2) = stored (w_db w) \<and> lock (w_db w2) = Busy \<and> cursor (w_db w2) = cursor (w_db w) \<and> w_live w2 = w_live w"
    if "w_db w1 = w_db w" "w_live w1 = w_live w" for w1
    using execute_busy [of w1 ?sql a b "sq_column_int S (Some s) 0"] assms(1) that by auto
  define w2 where "w2 = (case inet_pton et of Some x \<Rightarrow> eprint (st @ '' '' @ et) w
    | None \<Rightarrow> eprint (''Failed to convert IP address for record: '' @ dec_int (sint (sq_column_int S (Some s) 0)) @ '': '' @ et)
        (eprint (st @ '' '' @ et) w))"
  define w3 where "w3 = (if v \<ge> 1 then eprint ?sql w2 else w2)"
  have "w_db w3 = w_db w" "w_live w3 = w_live w" by (simp_all add: w3_def w2_def eprint_def split: option.split)
  then obtain w4 rc where w4: "database_execute S ?sql w3 = (w4, rc)" "rc \<noteq> SQLITE_OK" "ip_rows (w_db w4) = ip_rows (w_db w)"
      "stored (w_db w4) = stored (w_db w)" "lock (w_db w4) = Busy" "cursor (w_db w4) = cursor (w_db w)" "w_live w4 = w_live w"
    using ex by blast
  have "index_row S big v q w = Some (eprint (''Failed to execute query for record: '' @
      dec_int (sint (sq_column_int S (Some s) 0)) @ '': '' @ ?sql) w4)"
    using w4(1) [unfolded w3_def w2_def a_def b_def] w4(2) by (cases "inet_pton et"; cases "v \<ge> 1")
      (simp_all add: index_row_def assms(2) cols [simplified] bs Let_def a_def b_def)
  with w4(3-) show ?thesis by (simp add: eprint_def)
qed

lemma index_loop_busy:
  assumes "ip_rows (w_db w) = Some rows" "lock (w_db w) = Busy" "q_stmt q = Some s"
    and "cursor (w_db w) s = Some (map text_row rs)" "list_all (\<lambda>r. row_range big r \<noteq> None) rs"
  shows "\<exists>q' w' s'. index_loop S big v q w = Some (q', w') \<and> q_stmt q' = Some s' \<and>
    stored (w_db w') = stored (w_db w) \<and> lock (w_db w') = Busy \<and> w_live w' = w_live w"
  using assms
proof (induction rs arbitrary: w q s)
  case Nil
  then show ?case using step_cursor_end [of w rows q s] by (subst index_loop.simps) fastforce
next
  case (Cons r rs)
  obtain q1 s1 d1 where st: "query_step S q w = (q1, w\<lparr>w_db := d1\<rparr>, SQLITE_ROW)" "q_stmt q1 = Some s1"
      "ip_rows d1 = Some rows" "stored d1 = stored (w_db w)" "lock d1 = Busy" "cursor d1 s1 = Some (map text_row rs)"
      "shows_text S s1 (text_row r)"
    using step_cursor [OF Cons.prems(1,3)] Cons.prems(2,4) by auto
  have rr: "row_range big r \<noteq> None" using Cons.prems(5) by simp
  obtain w2 where w2: "index_row S big v q1 (w\<lparr>w_db := d1\<rparr>) = Some w2" "ip_rows (w_db w2) = Some rows"
      "stored (w_db w2) = stored (w_db w)" "lock (w_db w2) = Busy" "cursor (w_db w2) s1 = Some (map text_row rs)" "w_live w2 = w_live w"
    using index_row_busy [of "w\<lparr>w_db := d1\<rparr>" q1 s1 r big v] st rr by auto
  have rs: "list_all (\<lambda>r. row_range big r \<noteq> None) rs" using Cons.prems(5) by simp
  from Cons.IH [OF w2(2,4) st(2) w2(5) rs] show ?case
    using st(1) w2 by (subst index_loop.simps) auto
qed

lemma index_database_busy:
  assumes "sq_open S path = (SQLITE_OK, db)" "ip_rows db = Some rows" "lock db = Busy"
    and "list_all (\<lambda>r. row_range (ge_big_endian env) r \<noteq> None) (filter unindexed rows)" "w_live (t_world t) = 0"
  shows "\<exists>t'. index_database S env path t = Some (t', Inr 0) \<and> stored (w_db (t_world t')) = Some rows \<and>
    w_live (t_world t') = 0 \<and> t_open t' = t_open t"
proof -
  let ?w1 = "(t_world t)\<lparr>w_db := db\<rparr>" and ?big = "ge_big_endian env"
  let ?t1 = "t\<lparr>t_world := ?w1, t_open := t_open t + 1\<rparr>"
  have o: "open_database S path t = Some (?t1, True)" using assms(1) by (simp add: open_database_def)
  obtain w2 rc2 where w2: "database_execute S ''BEGIN EXCLUSIVE'' ?w1 = (w2, rc2)" "ip_rows (w_db w2) = Some rows"
      "stored (w_db w2) = Some rows" "lock (w_db w2) = Busy" "w_live w2 = 0"
    using execute_busy [of ?w1 "''BEGIN EXCLUSIVE''"] assms(2,3,5) open_stored [OF assms(1)] by auto
  obtain s where s: "sq_prepare S (w_db w2) unindexed_sql = (SQLITE_OK, Some s)"
      "cursor (w_db w2) s = Some (map text_row (filter unindexed rows))"
    using select_unindexed [OF w2(2)] by blast
  let ?q = "\<lparr>q_error_code = 0, q_stmt = Some s\<rparr>" and ?w3 = "w2\<lparr>w_live := w_live w2 + 1\<rparr>"
  have p: "query_prepare S unindexed_sql query_new w2 = (?q, ?w3, None)"
    using s(1) by (intro prepare_ok) (simp_all add: sql_texts_plain)
  obtain q4 w4 s4 where l: "index_loop S ?big (t_verbosity t) ?q ?w3 = Some (q4, w4)" "q_stmt q4 = Some s4"
      "stored (w_db w4) = Some rows" "lock (w_db w4) = Busy" "w_live w4 = 1"
    using index_loop_busy [of ?w3 rows ?q s "filter unindexed rows" ?big "t_verbosity t"] w2 s(2) assms(4) by auto
  obtain w5 rc5 where w5: "database_execute S ''COMMIT'' w4 = (w5, rc5)" "stored (w_db w5) = Some rows" "w_live w5 = 1"
    using execute_busy [of w4 "''COMMIT''"] l(3-5) by auto
  show ?thesis
    using l w5 by (simp add: index_database_def o w2(1) p end_query_def query_finalize_def database_close_def)
qed

text \<open>The check prints one line per row with an empty number and changes nothing.\<close>

lemma lint_loop_spec:
  assumes "ip_rows (w_db w) = Some rows" "q_stmt q = Some s" "cursor (w_db w) s = Some vs"
  shows "\<exists>q' w' s'. lint_loop S q w = Some (q', w') \<and> q_stmt q' = Some s' \<and> ip_rows (w_db w') = Some rows \<and>
    w_live w' = w_live w \<and> w_executed w' = w_executed w \<and>
    w_stderr w' = w_stderr w @ map (\<lambda>v. ''Unindexed IP: id='' @ dec_int (sint (value_int (v ! 0)))) vs"
  using assms
proof (induction vs arbitrary: w q s)
  case Nil
  from step_cursor_end [OF this] show ?case by (subst lint_loop.simps) fastforce
next
  case (Cons v vs)
  obtain q1 s1 d1 where st: "query_step S q w = (q1, w\<lparr>w_db := d1\<rparr>, SQLITE_ROW)" "q_stmt q1 = Some s1"
      "ip_rows d1 = Some rows" "cursor d1 s1 = Some vs" "shows_text S s1 v"
    using step_cursor [OF Cons.prems] by blast
  let ?l = "''Unindexed IP: id='' @ dec_int (sint (value_int (v ! 0)))"
  have "lint_loop S q w = lint_loop S q1 (eprint ?l (w\<lparr>w_db := d1\<rparr>))"
    using st(1,2,5) by (subst lint_loop.simps) (simp add: shows_text_def)
  with Cons.IH [of "eprint ?l (w\<lparr>w_db := d1\<rparr>)" q1 s1] st show ?case by (auto simp: eprint_def)
qed

lemma lint_database_spec:
  assumes "sq_open S path = (SQLITE_OK, db)" "ip_rows db = Some rows" "w_live (t_world t) = 0"
  shows "\<exists>t'. lint_database S path t = Some (t', Inr 0) \<and> ip_rows (w_db (t_world t')) = Some rows \<and>
    w_executed (t_world t') = w_executed (t_world t) \<and> t_open t' = t_open t \<and>
    w_stderr (t_world t') = w_stderr (t_world t) @
      map (\<lambda>r. ''Unindexed IP: id='' @ dec_int (sint (word_of_int (row_id r) :: 32 word))) (filter lint_matches rows)"
proof -
  let ?w1 = "(t_world t)\<lparr>w_db := db\<rparr>"
  let ?t1 = "t\<lparr>t_world := ?w1, t_open := t_open t + 1\<rparr>"
  have o: "open_database S path t = Some (?t1, True)" using assms(1) by (simp add: open_database_def)
  obtain s where s: "sq_prepare S db lint_sql = (SQLITE_OK, Some s)" "cursor db s = Some (map text_row (filter lint_matches rows))"
    using select_lint [OF assms(2)] by blast
  let ?q = "\<lparr>q_error_code = 0, q_stmt = Some s\<rparr>" and ?w3 = "?w1\<lparr>w_live := w_live ?w1 + 1\<rparr>"
  have p: "query_prepare S lint_sql query_new ?w1 = (?q, ?w3, None)"
    using s(1) by (intro prepare_ok) (simp_all add: sql_texts_plain)
  obtain q4 w4 s4 where "lint_loop S ?q ?w3 = Some (q4, w4)" "q_stmt q4 = Some s4" "ip_rows (w_db w4) = Some rows"
      "w_live w4 = 1" "w_executed w4 = w_executed (t_world t)"
      "w_stderr w4 = w_stderr (t_world t) @
        map (\<lambda>r. ''Unindexed IP: id='' @ dec_int (sint (word_of_int (row_id r) :: 32 word))) (filter lint_matches rows)"
    using lint_loop_spec [of ?w3 rows ?q s] assms s(2) by (auto simp: text_row_def)
  then show ?thesis
    using assms(3) by (simp add: lint_database_def o p [simplified] end_query_def query_finalize_def database_close_def)
qed

end

section \<open>The engine under a scan with updates\<close>

definition engine_cursor :: "ip_row list option \<Rightarrow> engine_stmt \<Rightarrow> sql_value list list option" where
  "engine_cursor d s =
     (case d of
        None \<Rightarrow> None
      | Some rows \<Rightarrow>
          (case s of
             Fresh (Lookup a) \<Rightarrow> None
           | Fresh c \<Rightarrow> Some (run_select c rows)
           | OnRow r rs \<Rightarrow> if list_all (\<lambda>v. length v = 3) rs then Some rs else None
           | Finished \<Rightarrow> Some []))"

lemma parse_update_sql: "parse_update (update_sql a b i) = Some (a, b, sint i)"
proof -
  have s: "update_sql a b i = ''UPDATE ip set start='' @ (dec_nat (unat a) @ '',end='' @
      (dec_nat (unat b) @ '' WHERE id='' @ dec_int (sint i)))"
    by (simp add: update_sql_def)
  have 1: "dropWhile is_digit (dec_nat n @ '',end='' @ x) = '',end='' @ x"
      "takeWhile is_digit (dec_nat n @ '',end='' @ x) = dec_nat n" for n x
    by (simp_all add: dropWhile_dec_nat takeWhile_dec_nat)
  have 2: "dropWhile is_digit (dec_nat n @ '' WHERE id='' @ x) = '' WHERE id='' @ x"
      "takeWhile is_digit (dec_nat n @ '' WHERE id='' @ x) = dec_nat n" for n x
    by (simp_all add: dropWhile_dec_nat takeWhile_dec_nat)
  show ?thesis
    unfolding parse_update_def s Let_def strip_append bind.bind_lunit 1 2
    by (simp add: atoi_dec_int)
qed

lemma update_keeps:
  assumes "i \<notin> row_id ` set (filter P rows)"
    and "\<And>r. row_id r = i \<Longrightarrow> \<not> P r \<Longrightarrow> \<not> P (update_row a b i r)"
  shows "filter P (map (update_row a b i) rows) = filter P rows"
  using assms by (induction rows) (auto simp: update_row_def split: if_splits)

lemma update_not_unindexed: "row_id r = i \<Longrightarrow> \<not> unindexed (update_row a b i r) \<and> \<not> lint_matches (update_row a b i r)"
  by (simp add: update_row_def unindexed_def lint_matches_def)

lemma text_row_ids: "SqlInt i \<notin> hd ` set (map text_row rows) \<longleftrightarrow> i \<notin> row_id ` set rows"
  by (simp add: image_image text_row_def image_iff)

lemma engine_update:
  "\<exists>d'. sq_exec (engine files) (Some rows) (update_sql a b i) = (d', SQLITE_OK, None) \<and>
     d' = Some (map (update_row a b (sint i)) rows) \<and>
     (\<forall>s vs. engine_cursor (Some rows) s = Some vs \<longrightarrow> SqlInt (sint i) \<notin> hd ` set vs \<longrightarrow> engine_cursor d' s = Some vs)"
proof -
  let ?d = "Some (map (update_row a b (sint i)) rows)"
  have "sq_exec (engine files) (Some rows) (update_sql a b i) = (?d, SQLITE_OK, None)"
    by (simp add: engine_def engine_exec_def parse_update_sql)
  moreover have "engine_cursor ?d s = Some vs"
    if "engine_cursor (Some rows) s = Some vs" "SqlInt (sint i) \<notin> hd ` set vs" for s vs
  proof (cases "s = Fresh SelectUnindexed \<or> s = Fresh SelectLint")
    case True
    have u: "filter P (map (update_row a b (sint i)) rows) = filter P rows"
      if "sint i \<notin> row_id ` set (filter P rows)" "P = unindexed \<or> P = lint_matches" for P
      using that update_not_unindexed by (intro update_keeps) auto
    from True that show ?thesis
      using u [of unindexed] u [of lint_matches] by (auto simp: engine_cursor_def text_row_ids simp del: set_map)
  next
    case False
    with that show ?thesis by (auto simp: engine_cursor_def split: engine_stmt.splits sql_command.splits)
  qed
  ultimately show ?thesis by blast
qed

text \<open>The rows before a cursor, and what a step makes of them.\<close>

lemma engine_cursorD:
  assumes "engine_cursor (Some rows) s = Some vs"
  shows "list_all (\<lambda>v. length v = 3) vs"
    and "sq_step (engine files) (Some rows) (Some s) = (case next_row vs of (s', rc) \<Rightarrow> (Some rows, Some s', rc))"
  using assms
  by (auto simp: engine_cursor_def engine_def text_row_def list_all_iff
      split: engine_stmt.splits sql_command.splits if_splits)

lemma engine_cursor_row:
  assumes "engine_cursor (Some rows) s = Some (v # vs)"
  shows "\<exists>d' s'. sq_step (engine files) (Some rows) (Some s) = (d', Some s', SQLITE_ROW) \<and> d' = Some rows \<and>
    engine_cursor d' s' = Some vs \<and> shows_text (engine files) s' v"
proof -
  have "sq_step (engine files) (Some rows) (Some s) = (Some rows, Some (OnRow v vs), SQLITE_ROW)"
    using engine_cursorD(2) [OF assms] by simp
  moreover have "engine_cursor (Some rows) (OnRow v vs) = Some vs" "length v = 3"
    using engine_cursorD(1) [OF assms] by (simp_all add: engine_cursor_def)
  moreover from this have "shows_text (engine files) (OnRow v vs) v"
    by (simp add: shows_text_def engine_def engine_column_def)
  ultimately show ?thesis by blast
qed

lemma engine_cursor_end:
  assumes "engine_cursor (Some rows) s = Some []"
  shows "\<exists>d' s'. sq_step (engine files) (Some rows) (Some s) = (d', Some s', SQLITE_DONE) \<and> d' = Some rows"
  using engine_cursorD(2) [OF assms] by simp

section \<open>The engine with transactions\<close>

record tx_db =
  e_rows :: "ip_row list option"
  e_stored :: "ip_row list option"
  e_lock :: lock_state

definition tx_exec :: "tx_db \<Rightarrow> cstring \<Rightarrow> tx_db \<times> int \<times> cstring option" where
  "tx_exec d s =
     (if s = ''BEGIN EXCLUSIVE'' then
        (if e_lock d = Free then (d\<lparr>e_lock := Exclusive\<rparr>, SQLITE_OK, None) else (d, 5, Some ''database is locked''))
      else if s = ''COMMIT'' then
        (if e_lock d = Exclusive then (d\<lparr>e_stored := e_rows d, e_lock := Free\<rparr>, SQLITE_OK, None)
         else (d, 1, Some ''cannot commit - no transaction is active''))
      else if e_lock d = Busy then (d, 5, Some ''database is locked'')
      else (case engine_exec (e_rows d) s of (rows, rc, err) \<Rightarrow>
        (d\<lparr>e_rows := rows, e_stored := (if e_lock d = Exclusive then e_stored d else rows)\<rparr>, rc, err)))"

definition tx_engine :: "lock_state \<Rightarrow> (cstring option \<Rightarrow> ip_row list option) \<Rightarrow> (tx_db, engine_stmt) sqlite_api" where
  "tx_engine l files = \<lparr>
     sq_open = (\<lambda>p. (SQLITE_OK, \<lparr>e_rows = files p, e_stored = files p, e_lock = l\<rparr>)),
     sq_vmprintf = (\<lambda>f. f),
     sq_exec = tx_exec,
     sq_prepare = (\<lambda>d. engine_prepare (e_rows d)),
     sq_step = (\<lambda>d s. case engine_step (e_rows d) s of (rows, s', rc) \<Rightarrow> (d\<lparr>e_rows := rows\<rparr>, s', rc)),
     sq_column_int = (\<lambda>s i. value_int (engine_column s i)),
     sq_column_text = (\<lambda>s i. value_text (engine_column s i)),
     sq_errmsg = (\<lambda>d. ''SQL logic error'') \<rparr>"

lemma tx_engine_simps:
  "sq_prepare (tx_engine l files) d = sq_prepare (engine files) (e_rows d)"
  "sq_step (tx_engine l files) d s = (case sq_step (engine files) (e_rows d) s of (rows, s', rc) \<Rightarrow> (d\<lparr>e_rows := rows\<rparr>, s', rc))"
  "sq_column_int (tx_engine l files) = sq_column_int (engine files)"
  "sq_column_text (tx_engine l files) = sq_column_text (engine files)"
  "sq_exec (tx_engine l files) = tx_exec"
  by (simp_all add: tx_engine_def engine_def)

lemma tx_engine_lib: "sqlite_lib (tx_engine l files)"
proof
  show "sq_step (tx_engine l files) d s = (d', s', rc) \<Longrightarrow> (s' = None) = (s = None)" for d s d' s' rc
    by (cases "(e_rows d, s)" rule: engine_step.cases) (auto simp: tx_engine_def split: prod.splits)
qed (simp_all add: tx_engine_def)

lemma tx_engine_ip: "sqlite_ip (tx_engine l files) e_rows"
proof (intro sqlite_ip.intro tx_engine_lib sqlite_ip_axioms.intro)
  fix d :: tx_db and rows r addr
  assume "e_rows d = Some rows" "r \<in> set rows" "lookup_matches addr r"
  from eng.lookup_row [OF this, of files]
  show "\<exists>s d' s' r'. sq_prepare (tx_engine l files) d (ip_lookup_sql addr) = (SQLITE_OK, Some s) \<and>
        sq_step (tx_engine l files) d (Some s) = (d', Some s', SQLITE_ROW) \<and>
        r' \<in> set rows \<and> lookup_matches addr r' \<and> shows_row (tx_engine l files) s' r'"
    by (auto simp: tx_engine_simps shows_row_def)
next
  fix d :: tx_db and rows addr
  assume "e_rows d = Some rows" "\<forall>r\<in>set rows. \<not> lookup_matches addr r"
  from eng.lookup_none [OF this, of files]
  show "\<exists>s d' s'. sq_prepare (tx_engine l files) d (ip_lookup_sql addr) = (SQLITE_OK, Some s) \<and>
        sq_step (tx_engine l files) d (Some s) = (d', Some s', SQLITE_DONE)"
    by (auto simp: tx_engine_simps)
qed

lemma update_not_transaction: "update_sql a b i \<noteq> ''BEGIN EXCLUSIVE''" "update_sql a b i \<noteq> ''COMMIT''"
  by (simp_all add: update_sql_def)

interpretation tx_eng: sqlite_index "tx_engine l files" e_rows "\<lambda>d. engine_cursor (e_rows d)" e_stored e_lock for l files
proof (intro sqlite_index.intro tx_engine_ip sqlite_index_axioms.intro)
  fix d :: tx_db and rows s v vs
  assume d: "e_rows d = Some rows"
  show "\<exists>s. sq_prepare (tx_engine l files) d unindexed_sql = (SQLITE_OK, Some s) \<and>
      engine_cursor (e_rows d) s = Some (map text_row (filter unindexed rows))"
    by (simp add: d tx_engine_def engine_prepare_def parse_select_def engine_cursor_def)
  show "\<exists>s. sq_prepare (tx_engine l files) d lint_sql = (SQLITE_OK, Some s) \<and>
      engine_cursor (e_rows d) s = Some (map text_row (filter lint_matches rows))"
    by (simp add: d tx_engine_def engine_prepare_def parse_select_def engine_cursor_def unindexed_sql_def lint_sql_def)
  show "\<exists>d' s'. sq_step (tx_engine l files) d (Some s) = (d', Some s', SQLITE_ROW) \<and> e_rows d' = Some rows \<and>
        e_stored d' = e_stored d \<and> e_lock d' = e_lock d \<and> engine_cursor (e_rows d') s' = Some vs \<and>
        shows_text (tx_engine l files) s' v"
    if "engine_cursor (e_rows d) s = Some (v # vs)"
    using engine_cursor_row [of rows s v vs files] that d by (auto simp: tx_engine_simps shows_text_def)
  show "\<exists>d' s'. sq_step (tx_engine l files) d (Some s) = (d', Some s', SQLITE_DONE) \<and> e_rows d' = Some rows \<and>
        e_stored d' = e_stored d \<and> e_lock d' = e_lock d"
    if "engine_cursor (e_rows d) s = Some []"
    using engine_cursor_end [of rows s files] that d by (auto simp: tx_engine_simps)
  show "\<exists>d'. sq_exec (tx_engine l files) d (update_sql a b i) = (d', SQLITE_OK, None) \<and>
        e_rows d' = Some (map (update_row a b (sint i)) rows) \<and> e_stored d' = e_stored d \<and> e_lock d' = Exclusive \<and>
        (\<forall>s vs. engine_cursor (e_rows d) s = Some vs \<longrightarrow> SqlInt (sint i) \<notin> hd ` set vs \<longrightarrow>
          engine_cursor (e_rows d') s = Some vs)"
    if "e_lock d = Exclusive" for a b i
    using engine_update [of files rows a b i] that
    by (auto simp: tx_engine_simps tx_exec_def d update_not_transaction engine_def)
next
  fix d :: tx_db
  show "\<exists>d'. sq_exec (tx_engine l files) d ''BEGIN EXCLUSIVE'' = (d', SQLITE_OK, None) \<and>
      e_rows d' = e_rows d \<and> e_stored d' = e_stored d \<and> e_lock d' = Exclusive" if "e_lock d = Free"
    using that by (simp add: tx_engine_simps tx_exec_def)
  show "\<exists>d'. sq_exec (tx_engine l files) d ''COMMIT'' = (d', SQLITE_OK, None) \<and>
      e_rows d' = e_rows d \<and> e_stored d' = e_rows d \<and> e_lock d' = Free" if "e_lock d = Exclusive"
    using that by (simp add: tx_engine_simps tx_exec_def)
  show "\<exists>d' rc err. sq_exec (tx_engine l files) d sql = (d', rc, Some err) \<and> rc \<noteq> SQLITE_OK \<and>
      e_rows d' = e_rows d \<and> e_stored d' = e_stored d \<and> e_lock d' = Busy \<and>
      (\<lambda>s. engine_cursor (e_rows d') s) = (\<lambda>s. engine_cursor (e_rows d) s)"
    if "e_lock d = Busy" "sql = ''BEGIN EXCLUSIVE'' \<or> sql = ''COMMIT'' \<or> sql = update_sql a b i" for sql a b i
    using that by (auto simp: tx_engine_simps tx_exec_def)
qed (auto simp: tx_engine_def)

section \<open>Properties\<close>

definition plain_row :: "int \<Rightarrow> cstring \<Rightarrow> cstring \<Rightarrow> ip_row" where
  "plain_row i s e = \<lparr>row_id = i, row_start_text = SqlText s, row_end_text = SqlText e,
     row_start = SqlNull, row_end = SqlNull, row_http_code = 403, row_http_message = SqlNull\<rparr>"

definition sample_env :: gatedb_env where
  "sample_env = \<lparr>ge_readable = (\<lambda>p. p = Some ''old''), ge_big_endian = False, ge_version = ''1'', ge_arch = ''x''\<rparr>"

definition sample_tool :: "'db \<Rightarrow> 'db tool" where
  "sample_tool d = \<lparr>t_world = \<lparr>w_db = d, w_live = 0, w_executed = [], w_stderr = []\<rparr>, t_open = 0,
     t_stdout = '''', t_verbosity = 0\<rparr>"

abbreviation new_tool :: "ip_row list option tool" where
  "new_tool \<equiv> sample_tool None"

definition plain_rows :: "ip_row list" where
  "plain_rows = [plain_row 1 ''10.0.0.1'' ''10.0.0.1'', plain_row 2 ''10.0.0.2'' ''x'']"

abbreviation plain_engine :: "lock_state \<Rightarrow> (tx_db, engine_stmt) sqlite_api" where
  "plain_engine l \<equiv> tx_engine l (\<lambda>p. Some plain_rows)"

abbreviation plain_db :: "lock_state \<Rightarrow> tx_db" where
  "plain_db l \<equiv> \<lparr>e_rows = Some plain_rows, e_stored = Some plain_rows, e_lock = l\<rparr>"

lemma sample_indexable: "indexable False plain_rows"
proof -
  have "inet_pton ''10.0.0.1'' \<noteq> None" "inet_pton ''10.0.0.2'' \<noteq> None" by code_simp+
  then show ?thesis
    by (auto simp: indexable_def plain_rows_def plain_row_def id32_def row_range_def ip_number_def)
qed

text \<open>
  Claim C11.  Indexing does what it promises, when the file can be locked and written: on a table with
  unique row numbers in which every row without numbers has a start address, \<open>index_database\<close> returns 0
  after exactly one transaction with one update per such row, in the order of the scan.  Then the file
  itself, not only the connection, holds these rows with the numbers of their addresses and all others
  as before; the transaction is over, and the statement and the connection are released.
\<close>

theorem index_database_indexes:
  assumes "sqlite_index S ip_rows cursor stored lock" "sq_open S path = (SQLITE_OK, db)" "ip_rows db = Some rows"
    and "lock db = Free" "indexable (ge_big_endian env) rows" "w_live (t_world t) = 0"
  shows "\<exists>t'. index_database S env path t = Some (t', Inr 0) \<and>
    stored (w_db (t_world t')) = Some (map (index_spec (ge_big_endian env)) rows) \<and> lock (w_db (t_world t')) = Free \<and>
    w_executed (t_world t') = w_executed (t_world t) @ ''BEGIN EXCLUSIVE'' #
      map (row_update (ge_big_endian env)) (filter unindexed rows) @ [''COMMIT''] \<and>
    w_live (t_world t') = 0 \<and> t_open t' = t_open t"
  using assms by (rule sqlite_index.index_database_spec)

theorem index_database_indexes_witness:
  "\<exists>t'. index_database (plain_engine Free) sample_env (Some ''db'') (sample_tool (plain_db Free)) = Some (t', Inr 0) \<and>
    e_stored (w_db (t_world t')) = Some (map (index_spec (ge_big_endian sample_env)) plain_rows) \<and>
    e_lock (w_db (t_world t')) = Free \<and>
    w_executed (t_world t') = w_executed (t_world (sample_tool (plain_db Free))) @ ''BEGIN EXCLUSIVE'' #
      map (row_update (ge_big_endian sample_env)) (filter unindexed plain_rows) @ [''COMMIT''] \<and>
    w_live (t_world t') = 0 \<and> t_open t' = t_open (sample_tool (plain_db Free))"
  by (rule index_database_indexes [OF tx_eng.sqlite_index_axioms, where db = "plain_db Free"])
    (simp_all add: tx_engine_def sample_env_def sample_tool_def sample_indexable)

text \<open>
  Claim C12.  Indexing a file that another connection keeps reading does nothing and says it succeeded:
  \<open>BEGIN EXCLUSIVE\<close>, every update and \<open>COMMIT\<close> fail, their results are ignored, the file is as it was
  and \<open>index_database\<close> returns 0, as it does after a complete run.
\<close>

theorem index_database_ignores_lock:
  assumes "sqlite_index S ip_rows cursor stored lock" "sq_open S path = (SQLITE_OK, db)" "ip_rows db = Some rows"
    and "lock db = Busy" "list_all (\<lambda>r. row_range (ge_big_endian env) r \<noteq> None) (filter unindexed rows)"
    and "w_live (t_world t) = 0"
  shows "\<exists>t'. index_database S env path t = Some (t', Inr 0) \<and> stored (w_db (t_world t')) = Some rows \<and>
    w_live (t_world t') = 0 \<and> t_open t' = t_open t"
  using assms by (rule sqlite_index.index_database_busy)

theorem index_database_ignores_lock_witness:
  "\<exists>t'. index_database (plain_engine Busy) sample_env (Some ''db'') (sample_tool (plain_db Busy)) = Some (t', Inr 0) \<and>
    e_stored (w_db (t_world t')) = Some plain_rows \<and>
    w_live (t_world t') = 0 \<and> t_open t' = t_open (sample_tool (plain_db Busy))"
  by (rule index_database_ignores_lock [OF tx_eng.sqlite_index_axioms, where db = "plain_db Busy"])
    (use sample_indexable in \<open>simp_all add: tx_engine_def sample_env_def sample_tool_def indexable_def\<close>)



text \<open>
  Claim C30.  The check prints one line for each row whose number is the empty text, in order,
  changes nothing and releases the statement and the connection.  A row whose numbers are
  null, as a plain insertion leaves them, is not reported although indexing would set them.
\<close>

theorem lint_database_reports:
  assumes "sqlite_index S ip_rows cursor stored lock" "sq_open S path = (SQLITE_OK, db)" "ip_rows db = Some rows"
    and "w_live (t_world t) = 0"
  shows "\<exists>t'. lint_database S path t = Some (t', Inr 0) \<and> ip_rows (w_db (t_world t')) = Some rows \<and>
    w_executed (t_world t') = w_executed (t_world t) \<and> t_open t' = t_open t \<and>
    w_stderr (t_world t') = w_stderr (t_world t) @
      map (\<lambda>r. ''Unindexed IP: id='' @ dec_int (sint (word_of_int (row_id r) :: 32 word)))
        (filter (\<lambda>r. row_start r = SqlText '''' \<or> row_end r = SqlText '''') rows)"
proof -
  have "sql_empty v \<longleftrightarrow> v = SqlText ''''" for v by (cases v) simp_all
  then have "lint_matches = (\<lambda>r. row_start r = SqlText '''' \<or> row_end r = SqlText '''')"
    by (simp add: lint_matches_def fun_eq_iff)
  with sqlite_index.lint_database_spec [OF assms] show ?thesis by simp
qed

theorem lint_database_reports_witness:
  "\<exists>t'. lint_database (tx_engine Free (\<lambda>p. Some [(plain_row 7 ''10.0.0.1'' ''10.0.0.1'')\<lparr>row_start := SqlText []\<rparr>, plain_row 8 ''x'' ''x'']))
      (Some ''db'') (sample_tool (plain_db Free)) = Some (t', Inr 0) \<and> w_stderr (t_world t') = [''Unindexed IP: id=7'']"
proof -
  let ?rows = "[(plain_row 7 ''10.0.0.1'' ''10.0.0.1'')\<lparr>row_start := SqlText []\<rparr>, plain_row 8 ''x'' ''x'']"
  let ?db = "\<lparr>e_rows = Some ?rows, e_stored = Some ?rows, e_lock = Free\<rparr>"
  have "sq_open (tx_engine Free (\<lambda>p. Some ?rows)) (Some ''db'') = (SQLITE_OK, ?db)" "e_rows ?db = Some ?rows"
    "w_live (t_world (sample_tool (plain_db Free))) = 0"
    by (simp_all add: tx_engine_def sample_tool_def)
  from lint_database_reports [OF tx_eng.sqlite_index_axioms this] obtain t' where
    "lint_database (tx_engine Free (\<lambda>p. Some ?rows)) (Some ''db'') (sample_tool (plain_db Free)) = Some (t', Inr 0)"
    "w_stderr (t_world t') = w_stderr (t_world (sample_tool (plain_db Free))) @
      map (\<lambda>r. ''Unindexed IP: id='' @ dec_int (sint (word_of_int (row_id r) :: 32 word)))
        (filter (\<lambda>r. row_start r = SqlText [] \<or> row_end r = SqlText []) ?rows)"
    by blast
  moreover have "dec_int (sint (word_of_int 7 :: 32 word)) = ''7''" by code_simp
  moreover have "filter (\<lambda>r. row_start r = SqlText [] \<or> row_end r = SqlText []) ?rows = [hd ?rows]" "row_id (hd ?rows) = 7"
    by (simp_all add: plain_row_def)
  ultimately show ?thesis by (auto simp: sample_tool_def)
qed



text \<open>
  Claim C28.  Creating a database never touches a file that can be read, returns 0 exactly when the
  file is new, can be opened and accepts the script, returns 1 otherwise, and leaves no
  connection open in any case.
\<close>

theorem create_database_outcome:
  assumes "sqlite_lib S" "sq_open S (Some p) = (orc, db)" "sq_exec S db db_sql = (db', xrc, err)"
    and "w_live (t_world t) = 0"
  shows "\<exists>t'. create_database S env (Some p) t =
      Some (t', Inr (if \<not> ge_readable env (Some p) \<and> orc = 0 \<and> xrc = SQLITE_OK then 0 else 1)) \<and>
    t_open t' = t_open t \<and>
    (w_db (t_world t'), w_executed (t_world t')) =
      (if ge_readable env (Some p) \<or> orc \<noteq> 0 then (w_db (t_world t), w_executed (t_world t))
       else (db', w_executed (t_world t) @ [db_sql]))"
proof -
  have "CHR ''%'' \<notin> set db_sql" by (simp add: db_sql_def)
  then have "sq_vmprintf S db_sql = db_sql" by (rule sqlite_lib.vmprintf_plain [OF assms(1)])
  with assms(2-4) show ?thesis
    by (auto simp: create_database_def open_database_def tool_print_def database_execute_def database_close_def
        eprint_def Let_def split: option.split)
qed

theorem create_database_outcome_witness:
  "\<exists>t'. create_database (engine (\<lambda>p. None)) sample_env (Some ''new'') new_tool =
      Some (t', Inr (if \<not> ge_readable sample_env (Some ''new'') \<and> SQLITE_OK = 0 \<and> SQLITE_OK = SQLITE_OK then 0 else 1)) \<and>
    t_open t' = t_open new_tool \<and>
    (w_db (t_world t'), w_executed (t_world t')) =
      (if ge_readable sample_env (Some ''new'') \<or> SQLITE_OK \<noteq> 0 then (w_db (t_world new_tool), w_executed (t_world new_tool))
       else (Some [], w_executed (t_world new_tool) @ [db_sql]))"
proof -
  have "parse_update db_sql = None" by (simp add: parse_update_def db_sql_def strip_def)
  then show ?thesis
    by (intro create_database_outcome [OF engine_lib, where err = None and db = None])
      (simp_all add: engine_def engine_exec_def sample_tool_def db_sql_def)
qed

end
