(* ===== verification/Ruby_Sqlite.thy ===== *)
theory Ruby_Sqlite
  imports Text_Numbers
begin

text \<open>
  The Ruby classes \<open>SQLite::DB\<close> and \<open>SQLite::SQLite3Stmt\<close>: \<open>src/src/ruby_sqlite.cpp\<close> and
  \<open>ruby_sqlite_stmt.cpp\<close>.  SQLite and the conversions of mruby are parameters.  The state holds
  the C structures behind the Ruby objects, by object number; a field that was never written is
  \<open>None\<close>, and reading it, like a column read that SQLite documents as undefined, gives the result
  \<open>None\<close> of the whole call.  A method returns a Ruby value or raises.
\<close>

section \<open>Values, errors and the library\<close>

datatype rvalue = Nil | Fixnum int | Flt "64 word" | Str cstring | Ary "rvalue list" | Obj nat

datatype rerror =
    InvalidDbHandle nat
  | InvalidStatementHandle nat
  | WrongArgumentType
  | TypeError
  | ArgumentError
  | PrepareFailed cstring
  | CannotCreate
  | OtherError cstring

text \<open>SQLite on a state \<open>'l\<close>; database and statement handles are numbers, null is \<open>None\<close>.\<close>

record 'l rsql =
  rs_open :: "cstring \<Rightarrow> 'l \<Rightarrow> 'l \<times> int \<times> nat option"
  rs_close :: "nat \<Rightarrow> 'l \<Rightarrow> 'l \<times> int"
  rs_prepare :: "nat \<Rightarrow> cstring \<Rightarrow> 'l \<Rightarrow> 'l \<times> int \<times> nat option"
  rs_finalize :: "nat \<Rightarrow> 'l \<Rightarrow> 'l \<times> int"
  rs_exec :: "nat \<Rightarrow> cstring \<Rightarrow> 'l \<Rightarrow> 'l \<times> int"
  rs_step :: "nat \<Rightarrow> 'l \<Rightarrow> 'l \<times> int"
  rs_errmsg :: "nat \<Rightarrow> 'l \<Rightarrow> cstring"
  rs_insert_rowid :: "nat \<Rightarrow> 'l \<Rightarrow> int"
  rs_column_count :: "nat \<Rightarrow> 'l \<Rightarrow> nat"
  rs_column_name :: "nat \<Rightarrow> nat \<Rightarrow> 'l \<Rightarrow> cstring"
  rs_column_defined :: "nat \<Rightarrow> int \<Rightarrow> 'l \<Rightarrow> bool"
  rs_column_type :: "nat \<Rightarrow> int \<Rightarrow> 'l \<Rightarrow> int"
  rs_column_int :: "nat \<Rightarrow> int \<Rightarrow> 'l \<Rightarrow> 32 word"
  rs_column_double :: "nat \<Rightarrow> int \<Rightarrow> 'l \<Rightarrow> 64 word"
  rs_column_blob :: "nat \<Rightarrow> int \<Rightarrow> 'l \<Rightarrow> cstring"
  rs_column_text :: "nat \<Rightarrow> int \<Rightarrow> 'l \<Rightarrow> cstring"
  rs_column_bytes :: "nat \<Rightarrow> int \<Rightarrow> 'l \<Rightarrow> nat"

text \<open>The implicit conversions of mruby for arguments that are not already of the type.\<close>

record mrb_conv =
  mc_to_str :: "rvalue \<Rightarrow> rerror + cstring"
  mc_integer :: "rvalue \<Rightarrow> rerror + int"

section \<open>State\<close>

record connection =
  c_handle :: "nat option option"
  c_rc :: "int option"
  c_dont_delete :: "bool option"

record statement =
  s_handle :: "nat option"
  s_connection :: nat

record 'l rb =
  rb_lib :: 'l
  rb_conns :: "nat \<Rightarrow> connection option"
  rb_stmts :: "nat \<Rightarrow> statement option"
  rb_next :: nat

type_synonym 'l call = "('l rb \<times> (rerror + rvalue)) option"

definition ret :: "'l rb \<Rightarrow> rvalue \<Rightarrow> 'l call" where
  "ret st v = Some (st, Inr v)"

definition raise :: "'l rb \<Rightarrow> rerror \<Rightarrow> 'l call" where
  "raise st e = Some (st, Inl e)"

definition put_conn :: "nat \<Rightarrow> connection \<Rightarrow> 'l rb \<Rightarrow> 'l rb" where
  "put_conn self c st = st\<lparr>rb_conns := (rb_conns st)(self := Some c)\<rparr>"

definition put_lib :: "'l \<Rightarrow> 'l rb \<Rightarrow> 'l rb" where
  "put_lib l st = st\<lparr>rb_lib := l\<rparr>"

text \<open>\<open>mrb_get_args\<close> with the formats \<open>S\<close> and \<open>i\<close>, and \<open>mrb_str_to_cstr\<close>.\<close>

definition get_str :: "mrb_conv \<Rightarrow> rvalue \<Rightarrow> rerror + cstring" where
  "get_str M v = (case v of Str s \<Rightarrow> Inr s | _ \<Rightarrow> mc_to_str M v)"

definition get_int :: "mrb_conv \<Rightarrow> rvalue \<Rightarrow> rerror + int" where
  "get_int M v = (case v of Fixnum i \<Rightarrow> Inr i | Str s \<Rightarrow> Inl TypeError | _ \<Rightarrow> mc_integer M v)"

definition to_cstr :: "cstring \<Rightarrow> rerror + cstring" where
  "to_cstr s = (if NUL \<in> set s then Inl ArgumentError else Inr s)"

section \<open>Connections\<close>

text \<open>The comparison \<open>c->dont_delete == false\<close> in the allocator stores nothing.\<close>

definition conn_allocator :: connection where
  "conn_allocator = \<lparr>c_handle = None, c_rc = None, c_dont_delete = None\<rparr>"

definition conn_deallocator :: "'l rsql \<Rightarrow> nat \<Rightarrow> 'l rb \<Rightarrow> 'l rb option" where
  "conn_deallocator L self st = do {
     c \<leftarrow> rb_conns st self;
     handle \<leftarrow> c_handle c;
     st1 \<leftarrow> (case handle of
        None \<Rightarrow> Some st
      | Some h \<Rightarrow> do {
          dont_delete \<leftarrow> c_dont_delete c;
          Some (if \<not> dont_delete then put_lib (fst (rs_close L h (rb_lib st))) st else st)
        });
     Some (st1\<lparr>rb_conns := (rb_conns st1)(self := None)\<rparr>)
   }"

text \<open>\<open>make_sqlite3_object\<close> wraps a handle of the caller; again the flag is only compared.\<close>

definition make_sqlite3_object :: "nat option \<Rightarrow> 'l rb \<Rightarrow> 'l call" where
  "make_sqlite3_object handle st =
     ret (put_conn (rb_next st) \<lparr>c_handle = Some handle, c_rc = None, c_dont_delete = None\<rparr>
            (st\<lparr>rb_next := rb_next st + 1\<rparr>)) (Obj (rb_next st))"

definition m_init :: "'l rsql \<Rightarrow> nat \<Rightarrow> 'l rb \<Rightarrow> 'l call" where
  "m_init L self st = do {
     st1 \<leftarrow> (case rb_conns st self of None \<Rightarrow> Some st | Some c \<Rightarrow> conn_deallocator L self st);
     ret (put_conn self conn_allocator st1) (Obj self)
   }"

text \<open>
  \<open>get_object\<close> gives a null pointer for an object that was not initialised, which every caller
  dereferences.  \<open>ENSURE_CONNECTION\<close> raises on a null handle; \<open>line\<close> is the line it names.
\<close>

definition ensure_connection ::
  "nat \<Rightarrow> 'l rb \<Rightarrow> nat \<Rightarrow> (connection \<Rightarrow> nat \<Rightarrow> 'l call) \<Rightarrow> 'l call" where
  "ensure_connection line st self body = do {
     c \<leftarrow> rb_conns st self;
     handle \<leftarrow> c_handle c;
     (case handle of None \<Rightarrow> raise st (InvalidDbHandle line) | Some h \<Rightarrow> body c h)
   }"

definition m_errno :: "nat \<Rightarrow> 'l rb \<Rightarrow> 'l call" where
  "m_errno self st = do {
     c \<leftarrow> rb_conns st self;
     rc \<leftarrow> c_rc c;
     ret st (Fixnum rc)
   }"

definition m_error :: "'l rsql \<Rightarrow> nat \<Rightarrow> 'l rb \<Rightarrow> 'l call" where
  "m_error L self st = ensure_connection 206 st self (\<lambda>c h. ret st (Str (rs_errmsg L h (rb_lib st))))"

definition probe_sql :: cstring where
  "probe_sql = ''select count(*) from sqlite_master''"

text \<open>Finalizing a statement that may be null.\<close>

definition finalize_opt :: "'l rsql \<Rightarrow> nat option \<Rightarrow> 'l \<Rightarrow> 'l \<times> int" where
  "finalize_opt L s l = (case s of None \<Rightarrow> (l, 0) | Some x \<Rightarrow> rs_finalize L x l)"

definition m_open :: "'l rsql \<Rightarrow> mrb_conv \<Rightarrow> (cstring \<Rightarrow> bool) \<Rightarrow> rvalue \<Rightarrow> nat \<Rightarrow> 'l rb \<Rightarrow> 'l call" where
  "m_open L M readable db self st =
     (case get_str M db of
        Inl e \<Rightarrow> raise st e
      | Inr s \<Rightarrow> do {
          c \<leftarrow> rb_conns st self;
          (case to_cstr s of
             Inl e \<Rightarrow> raise st e
           | Inr path \<Rightarrow>
               let (l1, rc1, handle) = rs_open L path (rb_lib st)
               in if readable path then do {
                    h \<leftarrow> handle;
                    let (l2, rc2, stmt) = rs_prepare L h probe_sql l1;
                    let (l3, _) = finalize_opt L stmt l2;
                    ret (put_conn self (c\<lparr>c_handle := Some handle, c_rc := Some rc2\<rparr>) (put_lib l3 st)) (Fixnum rc2)
                  }
                  else ret (put_conn self (c\<lparr>c_handle := Some handle, c_rc := Some rc1\<rparr>) (put_lib l1 st)) (Fixnum rc1))
        })"

definition m_close :: "'l rsql \<Rightarrow> nat \<Rightarrow> 'l rb \<Rightarrow> 'l call" where
  "m_close L self st = ensure_connection 248 st self (\<lambda>c h.
     let (l1, rc) = rs_close L h (rb_lib st);
         c1 = c\<lparr>c_rc := Some rc\<rparr>;
         c2 = (if rc = 0 then c1\<lparr>c_handle := Some None\<rparr> else c1)
     in ret (put_conn self c2 (put_lib l1 st)) (Fixnum rc))"

text \<open>\<open>make_sqlite3_stmt\<close>: a failed preparation raises and makes no object.\<close>

definition make_sqlite3_stmt :: "'l rsql \<Rightarrow> nat \<Rightarrow> nat \<Rightarrow> cstring \<Rightarrow> 'l rb \<Rightarrow> 'l call" where
  "make_sqlite3_stmt L conn db sql st =
     (case to_cstr sql of
        Inl e \<Rightarrow> raise st e
      | Inr zSQL \<Rightarrow>
          let (l1, rc, handle) = rs_prepare L db zSQL (rb_lib st);
              st1 = put_lib l1 st
          in if rc \<noteq> 0 then raise st1 (PrepareFailed (rs_errmsg L db l1))
             else ret (st1\<lparr>rb_stmts := (rb_stmts st1)(rb_next st1 := Some \<lparr>s_handle = handle, s_connection = conn\<rparr>),
                           rb_next := rb_next st1 + 1\<rparr>) (Obj (rb_next st1)))"

definition m_prepare :: "'l rsql \<Rightarrow> mrb_conv \<Rightarrow> rvalue \<Rightarrow> nat \<Rightarrow> 'l rb \<Rightarrow> 'l call" where
  "m_prepare L M sql self st =
     (case get_str M sql of
        Inl e \<Rightarrow> raise st e
      | Inr s \<Rightarrow> ensure_connection 279 st self (\<lambda>c h. make_sqlite3_stmt L self h s st))"

text \<open>
  \<open>mrb_check_type\<close> with \<open>MRB_TT_DATA\<close>, which raises for every value; the argument has been converted
  to a string before, in any case.  What would follow is translated all the same.
\<close>

definition check_type_data :: "rvalue \<Rightarrow> bool" where
  "check_type_data v = False"

definition m_finalize :: "'l rsql \<Rightarrow> mrb_conv \<Rightarrow> rvalue \<Rightarrow> nat \<Rightarrow> 'l rb \<Rightarrow> 'l call" where
  "m_finalize L M stmt_object self st =
     (case get_str M stmt_object of
        Inl e \<Rightarrow> raise st e
      | Inr s \<Rightarrow>
          if \<not> check_type_data (Str s) then raise st TypeError
          else
            (case stmt_object of
               Obj so \<Rightarrow> do {
                 c \<leftarrow> rb_conns st self;
                 stmt \<leftarrow> rb_stmts st so;
                 let (l1, rc) = finalize_opt L (s_handle stmt) (rb_lib st);
                 ret (put_conn self (c\<lparr>c_rc := Some rc\<rparr>)
                       (put_lib l1 (st\<lparr>rb_stmts := (rb_stmts st)(so := Some (stmt\<lparr>s_handle := None\<rparr>))\<rparr>))) (Fixnum rc)
               }
             | _ \<Rightarrow> raise st WrongArgumentType))"

text \<open>The shared body of \<open>m_begin\<close>, \<open>m_commit\<close>, \<open>m_rollback\<close> and \<open>m_exec\<close> behind the test of the handle.\<close>

definition exec_rc :: "'l rsql \<Rightarrow> cstring \<Rightarrow> nat \<Rightarrow> 'l rb \<Rightarrow> connection \<Rightarrow> nat \<Rightarrow> 'l call" where
  "exec_rc L sql self st c h =
     (let (l1, rc) = rs_exec L h sql (rb_lib st)
      in ret (put_conn self (c\<lparr>c_rc := Some rc\<rparr>) (put_lib l1 st)) (Fixnum rc))"

definition m_begin :: "'l rsql \<Rightarrow> nat \<Rightarrow> 'l rb \<Rightarrow> 'l call" where
  "m_begin L self st = ensure_connection 332 st self (exec_rc L ''BEGIN'' self st)"

definition m_commit :: "'l rsql \<Rightarrow> nat \<Rightarrow> 'l rb \<Rightarrow> 'l call" where
  "m_commit L self st = ensure_connection 350 st self (exec_rc L ''COMMIT'' self st)"

definition m_rollback :: "'l rsql \<Rightarrow> nat \<Rightarrow> 'l rb \<Rightarrow> 'l call" where
  "m_rollback L self st = ensure_connection 368 st self (exec_rc L ''ROLLBACK'' self st)"

definition m_exec :: "'l rsql \<Rightarrow> mrb_conv \<Rightarrow> rvalue \<Rightarrow> nat \<Rightarrow> 'l rb \<Rightarrow> 'l call" where
  "m_exec L M sql self st =
     (case get_str M sql of
        Inl e \<Rightarrow> raise st e
      | Inr s \<Rightarrow> ensure_connection 390 st self (\<lambda>c h.
          (case to_cstr s of Inl e \<Rightarrow> raise st e | Inr zSQL \<Rightarrow> exec_rc L zSQL self st c h)))"

definition m_insert_id :: "'l rsql \<Rightarrow> nat \<Rightarrow> 'l rb \<Rightarrow> 'l call" where
  "m_insert_id L self st = ensure_connection 412 st self (\<lambda>c h.
     ret st (Fixnum (sint (word_of_int (rs_insert_rowid L h (rb_lib st)) :: 32 word))))"

section \<open>Statements\<close>

definition stmt_deallocator :: "'l rsql \<Rightarrow> nat \<Rightarrow> 'l rb \<Rightarrow> 'l rb option" where
  "stmt_deallocator L self st = do {
     stmt \<leftarrow> rb_stmts st self;
     let (l1, _) = finalize_opt L (s_handle stmt) (rb_lib st);
     Some (put_lib l1 (st\<lparr>rb_stmts := (rb_stmts st)(self := None)\<rparr>))
   }"

definition m_stmt_init :: "'l rb \<Rightarrow> 'l call" where
  "m_stmt_init st = raise st CannotCreate"

definition ensure_statement ::
  "nat \<Rightarrow> 'l rb \<Rightarrow> nat \<Rightarrow> (nat \<Rightarrow> 'l call) \<Rightarrow> 'l call" where
  "ensure_statement line st self body = do {
     stmt \<leftarrow> rb_stmts st self;
     (case s_handle stmt of None \<Rightarrow> raise st (InvalidStatementHandle line) | Some h \<Rightarrow> body h)
   }"

definition m_step :: "'l rsql \<Rightarrow> nat \<Rightarrow> 'l rb \<Rightarrow> 'l call" where
  "m_step L self st = ensure_statement 156 st self (\<lambda>h.
     let (l1, rc) = rs_step L h (rb_lib st) in ret (put_lib l1 st) (Fixnum rc))"

definition m_columns :: "'l rsql \<Rightarrow> nat \<Rightarrow> 'l rb \<Rightarrow> 'l call" where
  "m_columns L self st = ensure_statement 165 st self (\<lambda>h.
     ret st (Fixnum (int (rs_column_count L h (rb_lib st)))))"

text \<open>
  Reading a column is undefined unless the statement is on a row that has the column.  In
  \<open>m_column_type\<close> the type tag of \<open>ordinal\<close> is read before anything has written it.
\<close>

definition read_column :: "'l rsql \<Rightarrow> nat \<Rightarrow> int \<Rightarrow> 'l rb \<Rightarrow> (unit \<Rightarrow> 'l call) \<Rightarrow> 'l call" where
  "read_column L h i st body = (if rs_column_defined L h i (rb_lib st) then body () else None)"

definition m_column_type :: "mrb_conv \<Rightarrow> rvalue \<Rightarrow> nat \<Rightarrow> 'l rb \<Rightarrow> 'l call" where
  "m_column_type M ordinal self st =
     (case get_int M ordinal of Inl e \<Rightarrow> raise st e | Inr i \<Rightarrow> None)"

definition column_value :: "'l rsql \<Rightarrow> nat \<Rightarrow> int \<Rightarrow> 'l rb \<Rightarrow> rvalue option" where
  "column_value L h i st =
     (let l = rb_lib st in
      if \<not> rs_column_defined L h i l then None
      else
        let t = rs_column_type L h i l
        in Some (if t = 1 then Fixnum (sint (rs_column_int L h i l))
                 else if t = 2 then Flt (rs_column_double L h i l)
                 else if t = 4 then Str (take (rs_column_bytes L h i l) (rs_column_blob L h i l))
                 else if t = 5 then Nil
                 else if t = 3 then Str (take (rs_column_bytes L h i l) (rs_column_text L h i l))
                 else Nil))"

definition m_column :: "'l rsql \<Rightarrow> mrb_conv \<Rightarrow> rvalue \<Rightarrow> nat \<Rightarrow> 'l rb \<Rightarrow> 'l call" where
  "m_column L M ordinal self st =
     (case get_int M ordinal of
        Inl e \<Rightarrow> raise st e
      | Inr i \<Rightarrow> ensure_statement 229 st self (\<lambda>h. do { v \<leftarrow> column_value L h i st; ret st v }))"

text \<open>
  The loop of \<open>m_each\<close>.  The block is arbitrary Ruby code: it may change the whole state and may
  raise, which ends the loop.  The handle is read again in every round.
\<close>

type_synonym 'l block = "rvalue \<Rightarrow> 'l rb \<Rightarrow> 'l call"

function each_loop :: "'l rsql \<Rightarrow> 'l block \<Rightarrow> nat \<Rightarrow> nat \<Rightarrow> nat \<Rightarrow> 'l rb \<Rightarrow> 'l call" where
  "each_loop L blk self cols i st =
     (if i < cols then do {
        stmt \<leftarrow> rb_stmts st self;
        h \<leftarrow> s_handle stmt;
        v \<leftarrow> column_value L h (int i) st;
        (st1, res) \<leftarrow> blk (Ary [Str (rs_column_name L h i (rb_lib st)), v]) st;
        (case res of Inl e \<Rightarrow> raise st1 e | Inr _ \<Rightarrow> each_loop L blk self cols (i + 1) st1)
      }
      else ret st Nil)"
  by pat_completeness auto
termination by (relation "measure (\<lambda>(L, blk, self, cols, i, st). cols - i)") auto

declare each_loop.simps [simp del]

definition m_each :: "'l rsql \<Rightarrow> 'l block \<Rightarrow> nat \<Rightarrow> 'l rb \<Rightarrow> 'l call" where
  "m_each L blk self st = ensure_statement 243 st self (\<lambda>h.
     each_loop L blk self (rs_column_count L h (rb_lib st)) 0 st)"

definition m_keys :: "'l rsql \<Rightarrow> nat \<Rightarrow> 'l rb \<Rightarrow> 'l call" where
  "m_keys L self st = ensure_statement 264 st self (\<lambda>h.
     ret st (Ary (map (\<lambda>i. Str (rs_column_name L h i (rb_lib st))) [0..<rs_column_count L h (rb_lib st)])))"

text \<open>The typed reads share the test of the ordinal, which lets negative ones through.\<close>

definition typed_column ::
  "nat \<Rightarrow> 'l rsql \<Rightarrow> mrb_conv \<Rightarrow> rvalue \<Rightarrow> nat \<Rightarrow> 'l rb \<Rightarrow> (nat \<Rightarrow> int \<Rightarrow> 'l \<Rightarrow> rvalue) \<Rightarrow> 'l call" where
  "typed_column line L M ordinal self st f =
     (case get_int M ordinal of
        Inl e \<Rightarrow> raise st e
      | Inr i \<Rightarrow> ensure_statement line st self (\<lambda>h.
          if i \<ge> int (rs_column_count L h (rb_lib st)) then ret st Nil
          else read_column L h i st (\<lambda>_. ret st (f h i (rb_lib st)))))"

definition m_column_text :: "'l rsql \<Rightarrow> mrb_conv \<Rightarrow> rvalue \<Rightarrow> nat \<Rightarrow> 'l rb \<Rightarrow> 'l call" where
  "m_column_text L M ordinal self st = typed_column 286 L M ordinal self st
     (\<lambda>h i l. Str (take (rs_column_bytes L h i l) (rs_column_text L h i l)))"

definition m_column_blob :: "'l rsql \<Rightarrow> mrb_conv \<Rightarrow> rvalue \<Rightarrow> nat \<Rightarrow> 'l rb \<Rightarrow> 'l call" where
  "m_column_blob L M ordinal self st = typed_column 312 L M ordinal self st
     (\<lambda>h i l. Str (take (rs_column_bytes L h i l) (rs_column_blob L h i l)))"

definition m_column_int :: "'l rsql \<Rightarrow> mrb_conv \<Rightarrow> rvalue \<Rightarrow> nat \<Rightarrow> 'l rb \<Rightarrow> 'l call" where
  "m_column_int L M ordinal self st = typed_column 338 L M ordinal self st
     (\<lambda>h i l. Fixnum (sint (rs_column_int L h i l)))"

definition m_column_double :: "'l rsql \<Rightarrow> mrb_conv \<Rightarrow> rvalue \<Rightarrow> nat \<Rightarrow> 'l rb \<Rightarrow> 'l call" where
  "m_column_double L M ordinal self st = typed_column 364 L M ordinal self st
     (\<lambda>h i l. Flt (rs_column_double L h i l))"

section \<open>The constants and the method tables\<close>

text \<open>The result codes and the storage classes that Ruby code sees as global constants.\<close>

definition sqlite_constants :: "(cstring \<times> int) list" where
  "sqlite_constants =
     [(''SQLITE_OK'', 0), (''SQLITE_ERROR'', 1), (''SQLITE_INTERNAL'', 2), (''SQLITE_PERM'', 3), (''SQLITE_ABORT'', 4),
      (''SQLITE_BUSY'', 5), (''SQLITE_LOCKED'', 6), (''SQLITE_NOMEM'', 7), (''SQLITE_READONLY'', 8),
      (''SQLITE_INTERRUPT'', 9), (''SQLITE_IOERR'', 10), (''SQLITE_CORRUPT'', 11), (''SQLITE_NOTFOUND'', 12),
      (''SQLITE_FULL'', 13), (''SQLITE_CANTOPEN'', 14), (''SQLITE_PROTOCOL'', 15), (''SQLITE_EMPTY'', 16),
      (''SQLITE_SCHEMA'', 17), (''SQLITE_TOOBIG'', 18), (''SQLITE_CONSTRAINT'', 19), (''SQLITE_MISMATCH'', 20),
      (''SQLITE_MISUSE'', 21), (''SQLITE_NOLFS'', 22), (''SQLITE_AUTH'', 23), (''SQLITE_ROW'', 100), (''SQLITE_DONE'', 101),
      (''SQLITE_INTEGER'', 1), (''SQLITE_FLOAT'', 2), (''SQLITE_BLOB'', 4), (''SQLITE_NULL'', 5), (''SQLITE_TEXT'', 3)]"

datatype db_method =
    DB_init | DB_open | DB_close | DB_prepare | DB_errno | DB_error | DB_finalize
  | DB_begin | DB_commit | DB_rollback | DB_exec | DB_insert_id

definition db_methods :: "(cstring \<times> db_method) list" where
  "db_methods = [(''initialize'', DB_init), (''open'', DB_open), (''close'', DB_close), (''prepare'', DB_prepare),
     (''errno'', DB_errno), (''error'', DB_error), (''finalize'', DB_finalize), (''begin'', DB_begin),
     (''commit'', DB_commit), (''rollback'', DB_rollback), (''exec'', DB_exec), (''insertId'', DB_insert_id)]"

datatype stmt_method =
    ST_init | ST_step | ST_each | ST_keys | ST_columns | ST_column | ST_column_text | ST_column_int | ST_column_double

text \<open>\<open>columnType\<close> is bound to \<open>m_columns\<close>; \<open>m_column_type\<close> and \<open>m_column_blob\<close> are not bound at all.\<close>

definition stmt_methods :: "(cstring \<times> stmt_method) list" where
  "stmt_methods = [(''initialize'', ST_init), (''step'', ST_step), (''each'', ST_each), (''keys'', ST_keys),
     (''columns'', ST_columns), (''columnType'', ST_columns), (''column'', ST_column), (''[]'', ST_column),
     (''columnText'', ST_column_text), (''columnInt'', ST_column_int), (''columnDouble'', ST_column_double)]"

text \<open>A call of a method with the first argument \<open>a\<close>; missing arguments are excluded by the arity.\<close>

fun call_db :: "'l rsql \<Rightarrow> mrb_conv \<Rightarrow> (cstring \<Rightarrow> bool) \<Rightarrow> db_method \<Rightarrow> rvalue \<Rightarrow> nat \<Rightarrow> 'l rb \<Rightarrow> 'l call" where
  "call_db L M rd DB_init a self st = m_init L self st"
| "call_db L M rd DB_open a self st = m_open L M rd a self st"
| "call_db L M rd DB_close a self st = m_close L self st"
| "call_db L M rd DB_prepare a self st = m_prepare L M a self st"
| "call_db L M rd DB_errno a self st = m_errno self st"
| "call_db L M rd DB_error a self st = m_error L self st"
| "call_db L M rd DB_finalize a self st = m_finalize L M a self st"
| "call_db L M rd DB_begin a self st = m_begin L self st"
| "call_db L M rd DB_commit a self st = m_commit L self st"
| "call_db L M rd DB_rollback a self st = m_rollback L self st"
| "call_db L M rd DB_exec a self st = m_exec L M a self st"
| "call_db L M rd DB_insert_id a self st = m_insert_id L self st"

fun call_stmt :: "'l rsql \<Rightarrow> mrb_conv \<Rightarrow> 'l block \<Rightarrow> stmt_method \<Rightarrow> rvalue \<Rightarrow> nat \<Rightarrow> 'l rb \<Rightarrow> 'l call" where
  "call_stmt L M blk ST_init a self st = m_stmt_init st"
| "call_stmt L M blk ST_step a self st = m_step L self st"
| "call_stmt L M blk ST_each a self st = m_each L blk self st"
| "call_stmt L M blk ST_keys a self st = m_keys L self st"
| "call_stmt L M blk ST_columns a self st = m_columns L self st"
| "call_stmt L M blk ST_column a self st = m_column L M a self st"
| "call_stmt L M blk ST_column_text a self st = m_column_text L M a self st"
| "call_stmt L M blk ST_column_int a self st = m_column_int L M a self st"
| "call_stmt L M blk ST_column_double a self st = m_column_double L M a self st"

end
