(* ===== verification/Ruby_Sqlite_Safe.thy ===== *)
theory Ruby_Sqlite_Safe
  imports Ruby_Sqlite
begin

text \<open>
  Safety of the handles behind the Ruby objects.  The locale \<open>sqlite_handles\<close> states which handles
  SQLite considers open: a connection is not closed while it has statements.  The relation \<open>rb_step\<close>
  is one action of a Ruby program or of the garbage collector that has a defined result.  In all
  states it reaches, every handle that was written into an object is alive; and it is shown which
  collections have no defined result: those of connections that were not closed.
\<close>

section \<open>The life of handles\<close>

locale sqlite_handles =
  fixes L :: "'l rsql" and dbs :: "'l \<Rightarrow> nat set" and stmts :: "'l \<Rightarrow> nat \<Rightarrow> nat option"
  assumes open_handles: "rs_open L p l = (l', rc, ho) \<Longrightarrow> stmts l' = stmts l \<and>
      (case ho of None \<Rightarrow> dbs l' = dbs l | Some h \<Rightarrow> h \<notin> dbs l \<and> dbs l' = insert h (dbs l))"
    and close_handles: "h \<in> dbs l \<Longrightarrow> rs_close L h l = (l', rc) \<Longrightarrow> stmts l' = stmts l \<and>
      (if h \<in> ran (stmts l) then rc \<noteq> 0 \<and> dbs l' = dbs l else rc = 0 \<and> dbs l' = dbs l - {h})"
    and prepare_handles: "h \<in> dbs l \<Longrightarrow> rs_prepare L h sql l = (l', rc, so) \<Longrightarrow> dbs l' = dbs l \<and>
      (case so of None \<Rightarrow> stmts l' = stmts l | Some s \<Rightarrow> stmts l s = None \<and> stmts l' = (stmts l)(s \<mapsto> h))"
    and prepare_failed: "h \<in> dbs l \<Longrightarrow> rs_prepare L h sql l = (l', rc, so) \<Longrightarrow> rc \<noteq> 0 \<Longrightarrow> so = None"
    and finalize_handles: "s \<in> dom (stmts l) \<Longrightarrow> rs_finalize L s l = (l', rc) \<Longrightarrow>
      dbs l' = dbs l \<and> stmts l' = (stmts l)(s := None)"
    and exec_handles: "h \<in> dbs l \<Longrightarrow> rs_exec L h sql l = (l', rc) \<Longrightarrow> dbs l' = dbs l \<and> stmts l' = stmts l"
    and step_handles: "s \<in> dom (stmts l) \<Longrightarrow> rs_step L s l = (l', rc) \<Longrightarrow> dbs l' = dbs l \<and> stmts l' = stmts l"

section \<open>The states of a Ruby program\<close>

inductive rb_step :: "'l rsql \<Rightarrow> mrb_conv \<Rightarrow> (cstring \<Rightarrow> bool) \<Rightarrow> 'l rb \<Rightarrow> 'l rb \<Rightarrow> bool"
  for L :: "'l rsql" and M :: mrb_conv and rd :: "cstring \<Rightarrow> bool" where
  New: "m_init L (rb_next st) (st\<lparr>rb_next := rb_next st + 1\<rparr>) = Some (st', r) \<Longrightarrow> rb_step L M rd st st'"
| Db: "call_db L M rd m a self st = Some (st', r) \<Longrightarrow> self < rb_next st \<Longrightarrow> rb_step L M rd st st'"
| Stmt: "call_stmt L M blk m a self st = Some (st', r) \<Longrightarrow> m \<noteq> ST_each \<Longrightarrow> rb_step L M rd st st'"
| Each: "m_each L blk self st = Some (st', r) \<Longrightarrow>
    (\<And>v s s' x. blk v s = Some (s', x) \<Longrightarrow> (rb_step L M rd)\<^sup>*\<^sup>* s s') \<Longrightarrow> rb_step L M rd st st'"
| CollectStmt: "stmt_deallocator L self st = Some st' \<Longrightarrow> rb_step L M rd st st'"
| CollectConn: "conn_deallocator L self st = Some st' \<Longrightarrow> rb_step L M rd st st'"

definition rb_init :: "'l \<Rightarrow> 'l rb" where
  "rb_init l = \<lparr>rb_lib = l, rb_conns = (\<lambda>_. None), rb_stmts = (\<lambda>_. None), rb_next = 0\<rparr>"

section \<open>The invariant\<close>

text \<open>
  The handles that were written into connections and statements, as partial functions of the object.
  A connection that was never opened has none: its field is not null, it has no value at all, and reading it
  is undefined.
\<close>

definition written_handle :: "'l rb \<Rightarrow> nat \<Rightarrow> nat option" where
  "written_handle st x = (case rb_conns st x of Some c \<Rightarrow> (case c_handle c of Some h \<Rightarrow> h | None \<Rightarrow> None) | None \<Rightarrow> None)"

definition stmt_handle :: "'l rb \<Rightarrow> nat \<Rightarrow> nat option" where
  "stmt_handle st x = (case rb_stmts st x of Some s \<Rightarrow> s_handle s | None \<Rightarrow> None)"

definition safe_core :: "nat set \<Rightarrow> (nat \<Rightarrow> nat option) \<Rightarrow> (nat \<Rightarrow> nat option) \<Rightarrow> (nat \<Rightarrow> nat option) \<Rightarrow> bool" where
  "safe_core D S ch sh \<longleftrightarrow> ran ch \<subseteq> D \<and> inj_on ch (dom ch) \<and> ran sh \<subseteq> dom S \<and> inj_on sh (dom sh) \<and> ran S \<subseteq> D"

definition rb_safe :: "('l \<Rightarrow> nat set) \<Rightarrow> ('l \<Rightarrow> nat \<Rightarrow> nat option) \<Rightarrow> 'l rb \<Rightarrow> bool" where
  "rb_safe dbs stmts st \<longleftrightarrow>
     safe_core (dbs (rb_lib st)) (stmts (rb_lib st)) (written_handle st) (stmt_handle st)"

lemma inj_drop: "inj_on m (dom m) \<Longrightarrow> inj_on (m(x := None)) (dom (m(x := None)))"
  by (auto simp: inj_on_def)

lemma inj_add: "inj_on m (dom m) \<Longrightarrow> v \<notin> ran m \<Longrightarrow> inj_on (m(x \<mapsto> v)) (dom (m(x \<mapsto> v)))"
  by (auto simp: inj_on_def ran_def dom_def)

lemma ran_drop: "ran (m(x := None)) \<subseteq> ran m"
  by (auto simp: ran_def)

lemma ran_drop_inj: "inj_on m (dom m) \<Longrightarrow> m x = Some v \<Longrightarrow> v \<notin> ran (m(x := None))"
  by (auto simp: ran_def inj_on_def dom_def)

lemma ran_add: "ran (m(x \<mapsto> v)) \<subseteq> insert v (ran m)"
  by (auto simp: ran_def)

text \<open>How the operations change the core of the invariant.\<close>

lemma core_open: "safe_core D S ch sh \<Longrightarrow> h \<notin> D \<Longrightarrow> safe_core (insert h D) S (ch(x \<mapsto> h)) sh"
  using ran_add [of ch x h] inj_add [of ch h x] unfolding safe_core_def by blast

lemma core_conn_drop: "safe_core D S ch sh \<Longrightarrow> safe_core D S (ch(x := None)) sh"
  using ran_drop [of ch x] inj_drop [of ch x] unfolding safe_core_def by blast

lemma core_close:
  "safe_core D S ch sh \<Longrightarrow> ch x = Some h \<Longrightarrow> h \<notin> ran S \<Longrightarrow> safe_core (D - {h}) S (ch(x := None)) sh"
  using ran_drop [of ch x] inj_drop [of ch x] ran_drop_inj [of ch x h] unfolding safe_core_def by blast

lemma core_prepare:
  "safe_core D S ch sh \<Longrightarrow> h \<in> D \<Longrightarrow> S s = None \<Longrightarrow> safe_core D (S(s \<mapsto> h)) ch (sh(x \<mapsto> s))"
  using ran_add [of sh x s] ran_add [of S s h] inj_add [of sh s x] unfolding safe_core_def by auto

lemma core_stmt_drop: "safe_core D S ch sh \<Longrightarrow> safe_core D S ch (sh(x := None))"
  using ran_drop [of sh x] inj_drop [of sh x] unfolding safe_core_def by blast

lemma core_finalize:
  "safe_core D S ch sh \<Longrightarrow> sh x = Some s \<Longrightarrow> safe_core D (S(s := None)) ch (sh(x := None))"
  using ran_drop [of sh x] ran_drop [of S s] inj_drop [of sh x] ran_drop_inj [of sh x s] unfolding safe_core_def by auto

lemma core_handles:
  "safe_core D S ch sh \<Longrightarrow> ch x = Some h \<Longrightarrow> h \<in> D"
  "safe_core D S ch sh \<Longrightarrow> sh x = Some s \<Longrightarrow> s \<in> dom S"
  unfolding safe_core_def by (blast intro: ranI)+

lemma written_handle_simps [simp]:
  "written_handle (put_lib l st) = written_handle st"
  "written_handle (st\<lparr>rb_next := n\<rparr>) = written_handle st"
  "written_handle (st\<lparr>rb_stmts := ss\<rparr>) = written_handle st"
  "written_handle (put_conn x c st) = (written_handle st)(x := (case c_handle c of Some h \<Rightarrow> h | None \<Rightarrow> None))"
  "written_handle (st\<lparr>rb_conns := (rb_conns st)(x := None)\<rparr>) = (written_handle st)(x := None)"
  by (auto simp: written_handle_def put_lib_def put_conn_def fun_eq_iff)

lemma stmt_handle_simps [simp]:
  "stmt_handle (put_lib l st) = stmt_handle st"
  "stmt_handle (st\<lparr>rb_next := n\<rparr>) = stmt_handle st"
  "stmt_handle (put_conn x c st) = stmt_handle st"
  "stmt_handle (st\<lparr>rb_conns := cs\<rparr>) = stmt_handle st"
  "stmt_handle (st\<lparr>rb_stmts := (rb_stmts st)(x := so)\<rparr>) = (stmt_handle st)(x := (case so of Some s \<Rightarrow> s_handle s | None \<Rightarrow> None))"
  by (auto simp: stmt_handle_def put_lib_def put_conn_def fun_eq_iff split: option.split)

lemma rb_lib_simps [simp]:
  "rb_lib (put_lib l st) = l" "rb_lib (put_conn x c st) = rb_lib st"
  by (simp_all add: put_lib_def put_conn_def)

lemma written_handleI: "rb_conns st x = Some c \<Longrightarrow> c_handle c = Some (Some h) \<Longrightarrow> written_handle st x = Some h"
  by (simp add: written_handle_def)

lemma stmt_handleI: "rb_stmts st x = Some s \<Longrightarrow> s_handle s = Some h \<Longrightarrow> stmt_handle st x = Some h"
  by (simp add: stmt_handle_def)

section \<open>Every operation preserves the invariant\<close>

lemmas call_defs = ret_def raise_def ensure_connection_def ensure_statement_def

lemma same_state:
  "m_errno self st = Some (st', r) \<Longrightarrow> st' = st"
  "m_error L self st = Some (st', r) \<Longrightarrow> st' = st"
  "m_insert_id L self st = Some (st', r) \<Longrightarrow> st' = st"
  by (auto simp: m_errno_def m_error_def m_insert_id_def call_defs bind_eq_Some_conv split: option.splits)

lemma typed_same: "typed_column n L M a self st f = Some (st', r) \<Longrightarrow> st' = st"
  by (auto simp: typed_column_def read_column_def call_defs bind_eq_Some_conv split: sum.splits option.splits if_splits)

lemma stmt_same:
  assumes "call_stmt L M blk m a self st = Some (st', r)" "m \<noteq> ST_each" "m \<noteq> ST_step"
  shows "st' = st"
  using assms typed_same
  by (cases m) (auto simp: m_stmt_init_def m_keys_def m_columns_def m_column_def m_column_text_def m_column_int_def
      m_column_double_def call_defs bind_eq_Some_conv split: sum.splits option.splits)

text \<open>What every operation and every block keeps, a whole program keeps.\<close>

lemma each_loop_keeps:
  assumes "\<And>v s s' x. blk v s = Some (s', x) \<Longrightarrow> P s \<Longrightarrow> P s'"
  shows "each_loop L blk self cols i st = Some (st', r) \<Longrightarrow> P st \<Longrightarrow> P st'"
proof (induction "cols - i" arbitrary: i st)
  case 0
  then show ?case by (subst (asm) each_loop.simps) (simp add: ret_def)
next
  case (Suc n)
  have "i < cols" using Suc.hyps(2) by simp
  then obtain v st1 res where "blk v st = Some (st1, res)"
      "(case res of Inl e \<Rightarrow> raise st1 e | Inr _ \<Rightarrow> each_loop L blk self cols (Suc i) st1) = Some (st', r)"
    using Suc.prems(1) unfolding each_loop.simps [of L blk self cols i st] by (auto simp: bind_eq_Some_conv)
  moreover from this assms Suc.prems have "P st1" by blast
  ultimately show ?case
    using Suc.hyps(1) [of "Suc i" st1] Suc.hyps(2) by (auto simp: raise_def split: sum.splits)
qed

lemma each_keeps:
  assumes "m_each L blk self st = Some (st', r)" "P st"
    and "\<And>v s s' x. blk v s = Some (s', x) \<Longrightarrow> P s \<Longrightarrow> P s'"
  shows "P st'"
proof -
  obtain s where s: "rb_stmts st self = Some s" using assms(1) by (auto simp: m_each_def call_defs bind_eq_Some_conv)
  show ?thesis
  proof (cases "s_handle s")
    case None
    with s assms(1,2) show ?thesis by (simp add: m_each_def call_defs)
  next
    case (Some h)
    with s assms(1) have "each_loop L blk self (rs_column_count L h (rb_lib st)) 0 st = Some (st', r)"
      by (simp add: m_each_def ensure_statement_def)
    from each_loop_keeps [of blk P, OF assms(3) this assms(2)] show ?thesis .
  qed
qed

lemma rtranclp_keeps: "(\<lambda>s t. r s t \<and> (P s \<longrightarrow> P t))\<^sup>*\<^sup>* s t \<Longrightarrow> P s \<Longrightarrow> P t"
  by (induction rule: rtranclp_induct) auto

lemma rb_step_keeps:
  assumes "rb_step L M rd st st'"
    and new: "\<And>s s' r. m_init L (rb_next s) (s\<lparr>rb_next := rb_next s + 1\<rparr>) = Some (s', r) \<Longrightarrow> P s \<Longrightarrow> P s'"
    and db: "\<And>s m a self s' r. P s \<Longrightarrow> call_db L M rd m a self s = Some (s', r) \<Longrightarrow> P s'"
    and stmt: "\<And>s blk m a self s' r. P s \<Longrightarrow> call_stmt L M blk m a self s = Some (s', r) \<Longrightarrow> m \<noteq> ST_each \<Longrightarrow> P s'"
    and cs: "\<And>s self s'. P s \<Longrightarrow> stmt_deallocator L self s = Some s' \<Longrightarrow> P s'"
    and cc: "\<And>s self s'. P s \<Longrightarrow> conn_deallocator L self s = Some s' \<Longrightarrow> P s'"
  shows "P st \<Longrightarrow> P st'"
  using assms(1)
proof (induction rule: rb_step.induct)
  case (Each blk self st st' r)
  show ?case
  proof (rule each_keeps [of L blk self st st' r P, OF Each.hyps Each.prems])
    fix v s s' x
    assume b: "blk v s = Some (s', x)" and s: "P s"
    show "P s'" by (rule rtranclp_keeps [OF Each.IH [OF b] s])
  qed
next
  case (New st st' r)
  show ?case by (rule new [OF New(1,2)])
next
  case (Db m a self st st' r)
  show ?case by (rule db [OF Db(3,1)])
next
  case (Stmt blk m a self st st' r)
  show ?case by (rule stmt [OF Stmt(3,1,2)])
next
  case (CollectStmt self st st')
  show ?case by (rule cs [OF CollectStmt(2,1)])
next
  case (CollectConn self st st')
  show ?case by (rule cc [OF CollectConn(2,1)])
qed

context sqlite_handles
begin

lemma safe_prepare_probe:
  assumes "h \<in> dbs l" "rs_prepare L h sql l = (l1, rc, so)" "finalize_opt L so l1 = (l2, rc')"
  shows "dbs l2 = dbs l \<and> stmts l2 = stmts l"
proof (cases so)
  case None
  with assms prepare_handles [OF assms(1,2)] show ?thesis by (simp add: finalize_opt_def)
next
  case (Some s)
  have p: "dbs l1 = dbs l" "stmts l s = None" "stmts l1 = (stmts l)(s \<mapsto> h)"
    using prepare_handles [OF assms(1,2)] Some by simp_all
  with assms(3) Some finalize_handles [of s l1 l2 rc'] show ?thesis by (simp add: finalize_opt_def fun_upd_idem)
qed

lemma safe_open:
  assumes "rb_safe dbs stmts st" "m_open L M rd db self st = Some (st', r)"
  shows "rb_safe dbs stmts st'"
proof (cases "\<exists>s path. get_str M db = Inr s \<and> to_cstr s = Inr path")
  case False
  with assms show ?thesis
    by (auto simp: m_open_def call_defs to_cstr_def bind_eq_Some_conv split: sum.splits if_splits)
next
  case True
  then obtain s path where sp: "get_str M db = Inr s" "to_cstr s = Inr path" by blast
  obtain l1 rc1 ho where o: "rs_open L path (rb_lib st) = (l1, rc1, ho)" by (cases "rs_open L path (rb_lib st)") auto
  obtain c where c: "rb_conns st self = Some c" using assms(2) sp by (auto simp: m_open_def bind_eq_Some_conv)
  have core: "safe_core (dbs l1) (stmts l1) ((written_handle st)(self := ho)) (stmt_handle st)"
    using assms(1) open_handles [OF o] core_open core_conn_drop by (cases ho) (auto simp: rb_safe_def)
  show ?thesis
  proof (cases "rd path")
    case False
    with assms(2) sp o c core show ?thesis by (auto simp: m_open_def call_defs rb_safe_def)
  next
    case True
    then obtain h where h: "ho = Some h" using assms(2) sp o c by (auto simp: m_open_def call_defs bind_eq_Some_conv)
    obtain l2 rc2 so where p: "rs_prepare L h probe_sql l1 = (l2, rc2, so)" by (cases "rs_prepare L h probe_sql l1") auto
    obtain l3 x where f: "finalize_opt L so l2 = (l3, x)" by fastforce
    have "h \<in> dbs l1" using open_handles [OF o] h by simp
    from safe_prepare_probe [OF this p f] core h True assms(2) sp o c p f show ?thesis
      by (auto simp: m_open_def call_defs rb_safe_def)
  qed
qed

lemma safe_close:
  assumes "rb_safe dbs stmts st" "m_close L self st = Some (st', r)"
  shows "rb_safe dbs stmts st'"
proof -
  obtain c ho where c: "rb_conns st self = Some c" "c_handle c = Some ho"
    using assms(2) by (auto simp: m_close_def call_defs bind_eq_Some_conv)
  show ?thesis
  proof (cases ho)
    case None
    with assms c show ?thesis by (simp add: m_close_def call_defs)
  next
    case (Some h)
    obtain l1 rc where cl: "rs_close L h (rb_lib st) = (l1, rc)" by fastforce
    have ch: "written_handle st self = Some h" using c Some by (simp add: written_handleI)
    have "h \<in> dbs (rb_lib st)" using assms(1) ch core_handles(1) unfolding rb_safe_def by blast
    note h = close_handles [OF this cl]
    have st': "st' = put_conn self (if rc = 0 then c\<lparr>c_rc := Some rc, c_handle := Some None\<rparr> else c\<lparr>c_rc := Some rc\<rparr>) (put_lib l1 st)"
      using assms(2) c Some cl by (auto simp: m_close_def call_defs)
    show ?thesis
      using h assms(1) ch c Some core_close [of "dbs (rb_lib st)" "stmts (rb_lib st)" "written_handle st" "stmt_handle st" self h]
      unfolding st' rb_safe_def by (auto simp: fun_upd_idem split: if_splits)
  qed
qed

lemma safe_exec_rc:
  assumes "rb_safe dbs stmts st" "rb_conns st self = Some c" "c_handle c = Some (Some h)"
    and "exec_rc L sql self st c h = Some (st', r)"
  shows "rb_safe dbs stmts st'"
proof -
  obtain l1 rc where e: "rs_exec L h sql (rb_lib st) = (l1, rc)" by fastforce
  have ch: "written_handle st self = Some h" using assms by (simp add: written_handleI)
  have "h \<in> dbs (rb_lib st)" using assms(1) ch core_handles(1) unfolding rb_safe_def by blast
  from exec_handles [OF this e] assms ch e show ?thesis
    by (auto simp: exec_rc_def call_defs rb_safe_def fun_upd_idem)
qed

lemma safe_prepare:
  assumes "rb_safe dbs stmts st" "m_prepare L M sql self st = Some (st', r)"
  shows "rb_safe dbs stmts st'"
proof (cases "\<exists>s z c h. get_str M sql = Inr s \<and> to_cstr s = Inr z \<and> rb_conns st self = Some c \<and> c_handle c = Some (Some h)")
  case False
  with assms show ?thesis
    by (auto simp: m_prepare_def make_sqlite3_stmt_def call_defs to_cstr_def bind_eq_Some_conv split: sum.splits option.splits if_splits)
next
  case True
  then obtain s z c h where a: "get_str M sql = Inr s" "to_cstr s = Inr z" "rb_conns st self = Some c" "c_handle c = Some (Some h)"
    by blast
  obtain l1 rc so where p: "rs_prepare L h z (rb_lib st) = (l1, rc, so)" by (cases "rs_prepare L h z (rb_lib st)") auto
  have "written_handle st self = Some h" using a by (simp add: written_handleI)
  then have h: "h \<in> dbs (rb_lib st)" using assms(1) core_handles(1) unfolding rb_safe_def by blast
  note ph = prepare_handles [OF h p] prepare_failed [OF h p]
  let ?st1 = "put_lib l1 st" let ?n = "rb_next st"
  have nx: "rb_next ?st1 = ?n" by (simp add: put_lib_def)
  show ?thesis
  proof (cases "rc = 0")
    case False
    with ph a p assms show ?thesis
      by (auto simp: m_prepare_def make_sqlite3_stmt_def call_defs rb_safe_def)
  next
    case True
    then have st': "st' = ?st1\<lparr>rb_stmts := (rb_stmts ?st1)(?n := Some \<lparr>s_handle = so, s_connection = self\<rparr>), rb_next := ?n + 1\<rparr>"
      using a p assms(2) nx by (auto simp: m_prepare_def make_sqlite3_stmt_def call_defs Let_def)
    have "safe_core (dbs l1) (stmts l1) (written_handle st) ((stmt_handle st)(?n := so))"
      using ph(1) assms(1) h core_prepare core_stmt_drop by (cases so) (auto simp: rb_safe_def)
    then show ?thesis unfolding st' rb_safe_def by simp
  qed
qed

lemma safe_conn_dealloc:
  assumes "rb_safe dbs stmts st" "conn_deallocator L self st = Some st'"
  shows "rb_safe dbs stmts st'"
proof -
  obtain c ho where c: "rb_conns st self = Some c" "c_handle c = Some ho"
    using assms(2) by (auto simp: conn_deallocator_def bind_eq_Some_conv)
  show ?thesis
  proof (cases "\<exists>h. ho = Some h \<and> c_dont_delete c = Some False")
    case False
    with assms c show ?thesis
      by (cases ho) (auto simp: conn_deallocator_def rb_safe_def core_conn_drop bind_eq_Some_conv)
  next
    case True
    then obtain h where h: "ho = Some h" "c_dont_delete c = Some False" by blast
    obtain l1 rc where cl: "rs_close L h (rb_lib st) = (l1, rc)" by fastforce
    have ch: "written_handle st self = Some h" using c h by (simp add: written_handleI)
    have "h \<in> dbs (rb_lib st)" using assms(1) ch core_handles(1) unfolding rb_safe_def by blast
    note hs = close_handles [OF this cl]
    have st': "st' = (put_lib l1 st)\<lparr>rb_conns := (rb_conns (put_lib l1 st))(self := None)\<rparr>"
      using assms(2) c h cl by (simp add: conn_deallocator_def)
    show ?thesis
      using hs assms(1) ch core_conn_drop
        core_close [of "dbs (rb_lib st)" "stmts (rb_lib st)" "written_handle st" "stmt_handle st" self h]
      unfolding st' rb_safe_def written_handle_simps stmt_handle_simps by (auto split: if_splits)
  qed
qed

lemma safe_stmt_finalize:
  assumes "rb_safe dbs stmts st" "rb_stmts st x = Some s" "finalize_opt L (s_handle s) (rb_lib st) = (l1, rc)"
  shows "safe_core (dbs l1) (stmts l1) (written_handle st) ((stmt_handle st)(x := None))"
proof (cases "s_handle s")
  case None
  with assms show ?thesis by (simp add: finalize_opt_def rb_safe_def core_stmt_drop)
next
  case (Some h)
  have sh: "stmt_handle st x = Some h" using assms(2) Some by (rule stmt_handleI)
  have "h \<in> dom (stmts (rb_lib st))" using assms(1) sh core_handles(2) unfolding rb_safe_def by blast
  then have "dbs l1 = dbs (rb_lib st)" "stmts l1 = (stmts (rb_lib st))(h := None)"
    using finalize_handles [of h "rb_lib st" l1 rc] assms(3) Some by (simp_all add: finalize_opt_def)
  with assms(1) sh core_finalize show ?thesis unfolding rb_safe_def by metis
qed

lemma safe_stmt_dealloc:
  assumes "rb_safe dbs stmts st" "stmt_deallocator L self st = Some st'"
  shows "rb_safe dbs stmts st'"
proof -
  obtain s where s: "rb_stmts st self = Some s" using assms(2) by (auto simp: stmt_deallocator_def bind_eq_Some_conv)
  obtain l1 rc where f: "finalize_opt L (s_handle s) (rb_lib st) = (l1, rc)" by fastforce
  show ?thesis
    using assms(2) s f safe_stmt_finalize [OF assms(1) s f] by (auto simp: stmt_deallocator_def rb_safe_def)
qed

lemma safe_init:
  assumes "rb_safe dbs stmts st" "m_init L self st = Some (st', r)"
  shows "rb_safe dbs stmts st'"
proof -
  obtain st1 where "rb_safe dbs stmts st1" "st' = put_conn self conn_allocator st1"
    using assms safe_conn_dealloc by (cases "rb_conns st self") (auto simp: m_init_def call_defs bind_eq_Some_conv)
  then show ?thesis by (simp add: rb_safe_def conn_allocator_def core_conn_drop)
qed

lemma safe_finalize:
  assumes "rb_safe dbs stmts st" "m_finalize L M a self st = Some (st', r)"
  shows "rb_safe dbs stmts st'"
  using assms by (auto simp: m_finalize_def check_type_data_def call_defs split: sum.splits)

lemma safe_step:
  assumes "rb_safe dbs stmts st" "m_step L self st = Some (st', r)"
  shows "rb_safe dbs stmts st'"
proof -
  obtain s where s: "rb_stmts st self = Some s" using assms(2) by (auto simp: m_step_def call_defs bind_eq_Some_conv)
  show ?thesis
  proof (cases "s_handle s")
    case None
    with assms s show ?thesis by (simp add: m_step_def call_defs)
  next
    case (Some h)
    have "stmt_handle st self = Some h" using s Some by (rule stmt_handleI)
    then have "h \<in> dom (stmts (rb_lib st))" using assms(1) core_handles(2) unfolding rb_safe_def by blast
    with assms s Some step_handles [of h "rb_lib st"] show ?thesis
      by (auto simp: m_step_def call_defs rb_safe_def split: prod.splits)
  qed
qed

lemma safe_exec:
  assumes "rb_safe dbs stmts st"
  shows "ensure_connection n st self (exec_rc L sql self st) = Some (st', r) \<Longrightarrow> rb_safe dbs stmts st'"
    and "m_exec L M a self st = Some (st', r) \<Longrightarrow> rb_safe dbs stmts st'"
proof -
  have *: "rb_safe dbs stmts st'"
    if "ensure_connection n st self body = Some (st', r)"
      "\<And>c h. rb_conns st self = Some c \<Longrightarrow> c_handle c = Some (Some h) \<Longrightarrow> body c h = Some (st', r) \<Longrightarrow> rb_safe dbs stmts st'"
    for n body r st'
    using that assms by (auto simp: ensure_connection_def raise_def bind_eq_Some_conv split: option.splits)
  show "ensure_connection n st self (exec_rc L sql self st) = Some (st', r) \<Longrightarrow> rb_safe dbs stmts st'"
    by (rule *) (use safe_exec_rc assms in blast)+
  show "m_exec L M a self st = Some (st', r) \<Longrightarrow> rb_safe dbs stmts st'"
  proof (cases "get_str M a")
    case (Inr s)
    assume "m_exec L M a self st = Some (st', r)"
    with Inr have "ensure_connection 390 st self (\<lambda>c h.
        (case to_cstr s of Inl e \<Rightarrow> raise st e | Inr zSQL \<Rightarrow> exec_rc L zSQL self st c h)) = Some (st', r)"
      by (simp add: m_exec_def)
    then show ?thesis
      by (rule *) (use safe_exec_rc [OF assms] assms in \<open>auto simp: raise_def split: sum.splits\<close>)
  qed (use assms in \<open>simp add: m_exec_def raise_def\<close>)
qed

lemma safe_call_db:
  assumes "rb_safe dbs stmts st" "call_db L M rd m a self st = Some (st', r)"
  shows "rb_safe dbs stmts st'"
proof (cases m)
  case DB_begin
  with assms show ?thesis by (simp only: call_db.simps m_begin_def) (rule safe_exec(1))
next
  case DB_commit
  with assms show ?thesis by (simp only: call_db.simps m_commit_def) (rule safe_exec(1))
next
  case DB_rollback
  with assms show ?thesis by (simp only: call_db.simps m_rollback_def) (rule safe_exec(1))
qed (use assms in \<open>auto intro: safe_init safe_open safe_close safe_prepare safe_finalize safe_exec(2) dest: same_state\<close>)

lemma safe_call_stmt:
  assumes "rb_safe dbs stmts st" "call_stmt L M blk m a self st = Some (st', r)" "m \<noteq> ST_each"
  shows "rb_safe dbs stmts st'"
proof (cases "m = ST_step")
  case True
  with assms safe_step show ?thesis by simp
next
  case False
  with assms stmt_same have "st' = st" by blast
  with assms show ?thesis by simp
qed

lemma safe_rb_step: "rb_step L M rd st st' \<Longrightarrow> rb_safe dbs stmts st \<Longrightarrow> rb_safe dbs stmts st'"
proof (erule rb_step_keeps)
  fix s s' r
  assume "m_init L (rb_next s) (s\<lparr>rb_next := rb_next s + 1\<rparr>) = Some (s', r)" "rb_safe dbs stmts s"
  moreover from this have "rb_safe dbs stmts (s\<lparr>rb_next := rb_next s + 1\<rparr>)" by (simp add: rb_safe_def)
  ultimately show "rb_safe dbs stmts s'" using safe_init by blast
qed (assumption | (rule safe_call_db safe_call_stmt safe_stmt_dealloc safe_conn_dealloc; assumption))+

lemma safe_init_state: "stmts l = (\<lambda>_. None) \<Longrightarrow> rb_safe dbs stmts (rb_init l)"
  by (simp add: rb_safe_def safe_core_def rb_init_def written_handle_def stmt_handle_def ran_def inj_on_def dom_def)

lemma safe_reachable:
  assumes "(rb_step L M rd)\<^sup>*\<^sup>* (rb_init l) st" "stmts l = (\<lambda>_. None)"
  shows "rb_safe dbs stmts st"
  using assms(1) by (induction rule: rtranclp_induct) (use safe_init_state [OF assms(2)] safe_rb_step in blast)+

end

section \<open>A library of handles\<close>

text \<open>
  The handle discipline of SQLite on its own: numbers are never used twice, statements belong to
  a database, columns are those of one fixed row.
\<close>

record handles =
  hs_next :: nat
  hs_dbs :: "nat list"
  hs_stmts :: "(nat \<times> nat) list"

text \<open>A handle is open if it is listed and was handed out.\<close>

definition handle_dbs :: "handles \<Rightarrow> nat set" where
  "handle_dbs l = {h \<in> set (hs_dbs l). h < hs_next l}"

definition handle_stmts :: "handles \<Rightarrow> nat \<Rightarrow> nat option" where
  "handle_stmts l s = (if s < hs_next l then map_of (hs_stmts l) s else None)"

definition handle_lib :: "handles rsql" where
  "handle_lib = \<lparr>
     rs_open = (\<lambda>p l. (l\<lparr>hs_next := hs_next l + 1, hs_dbs := hs_next l # hs_dbs l,
        hs_stmts := filter (\<lambda>x. fst x < hs_next l) (hs_stmts l)\<rparr>, 0, Some (hs_next l))),
     rs_close = (\<lambda>h l. if list_ex (\<lambda>x. handle_stmts l (fst x) = Some h) (hs_stmts l) then (l, 5) else (l\<lparr>hs_dbs := removeAll h (hs_dbs l)\<rparr>, 0)),
     rs_prepare = (\<lambda>h sql l. if sql = '''' then (l, 0, None)
        else (l\<lparr>hs_next := hs_next l + 1, hs_dbs := filter (\<lambda>x. x < hs_next l) (hs_dbs l),
               hs_stmts := (hs_next l, h) # hs_stmts l\<rparr>, 0, Some (hs_next l))),
     rs_finalize = (\<lambda>s l. (l\<lparr>hs_stmts := filter (\<lambda>x. fst x \<noteq> s) (hs_stmts l)\<rparr>, 0)),
     rs_exec = (\<lambda>h sql l. (l, 0)),
     rs_step = (\<lambda>s l. (l, 100)),
     rs_errmsg = (\<lambda>h l. ''not an error''),
     rs_insert_rowid = (\<lambda>h l. 7),
     rs_column_count = (\<lambda>s l. 2),
     rs_column_name = (\<lambda>s i l. if i = 0 then ''id'' else ''name''),
     rs_column_defined = (\<lambda>s i l. 0 \<le> i \<and> i < 2),
     rs_column_type = (\<lambda>s i l. if i = 0 then 1 else 3),
     rs_column_int = (\<lambda>s i l. 42),
     rs_column_double = (\<lambda>s i l. 0),
     rs_column_blob = (\<lambda>s i l. ''x''),
     rs_column_text = (\<lambda>s i l. ''x''),
     rs_column_bytes = (\<lambda>s i l. 1) \<rparr>"

lemma handle_stmts_mem: "handle_stmts l s = Some h \<Longrightarrow> s \<in> fst ` set (hs_stmts l)"
  by (auto simp: handle_stmts_def dest: map_of_SomeD split: if_splits intro: rev_image_eqI)

lemma handle_busy: "list_ex (\<lambda>x. handle_stmts l (fst x) = Some h) (hs_stmts l) \<longleftrightarrow> h \<in> ran (handle_stmts l)"
  unfolding list_ex_iff ran_def using handle_stmts_mem [of l _ h] by fastforce

lemma map_of_filter_fst: "map_of (filter (\<lambda>x. P (fst x)) xs) k = (if P k then map_of xs k else None)"
  by (induction xs) auto

lemma handle_stmts_hs_dbs: "handle_stmts (l\<lparr>hs_dbs := x\<rparr>) = handle_stmts l"
  by (simp add: handle_stmts_def fun_eq_iff)

interpretation handle_pool: sqlite_handles handle_lib handle_dbs handle_stmts
proof
  show "rs_close handle_lib h l = (l', rc) \<Longrightarrow> handle_stmts l' = handle_stmts l \<and>
      (if h \<in> ran (handle_stmts l) then rc \<noteq> 0 \<and> handle_dbs l' = handle_dbs l
       else rc = 0 \<and> handle_dbs l' = handle_dbs l - {h})" for h l l' rc
    using handle_stmts_hs_dbs [of "removeAll h (hs_dbs l)" l]
    by (auto simp: handle_lib_def handle_busy handle_dbs_def split: if_splits)
qed (auto simp: handle_lib_def handle_dbs_def handle_stmts_def fun_eq_iff
    map_of_filter_fst [where P = "\<lambda>k. k < n" for n] map_of_filter_fst [where P = "\<lambda>k. k \<noteq> s" for s] split: if_splits)

section \<open>Uninitialised connections\<close>

text \<open>No operation ever writes the flag \<open>dont_delete\<close>.\<close>

definition no_flags :: "'l rb \<Rightarrow> bool" where
  "no_flags st \<longleftrightarrow> (\<forall>x c. rb_conns st x = Some c \<longrightarrow> c_dont_delete c = None)"

lemma no_flags_simps [simp]:
  "no_flags (put_lib l st) = no_flags st" "no_flags (st\<lparr>rb_next := n\<rparr>) = no_flags st"
  "no_flags (st\<lparr>rb_stmts := ss\<rparr>) = no_flags st"
  by (simp_all add: no_flags_def put_lib_def)

lemma no_flags_put: "no_flags st \<Longrightarrow> c_dont_delete c = None \<Longrightarrow> no_flags (put_conn x c st)"
  by (simp add: no_flags_def put_conn_def)

lemma no_flagsD: "no_flags st \<Longrightarrow> rb_conns st x = Some c \<Longrightarrow> c_dont_delete c = None"
  by (simp add: no_flags_def)

lemma no_flags_drop: "no_flags st \<Longrightarrow> no_flags (st\<lparr>rb_conns := (rb_conns st)(x := None)\<rparr>)"
  by (simp add: no_flags_def)

lemma no_flags_dealloc: "no_flags st \<Longrightarrow> conn_deallocator L self st = Some st' \<Longrightarrow> no_flags st'"
  by (auto simp: conn_deallocator_def bind_eq_Some_conv no_flags_drop dest: no_flagsD split: option.splits)

lemma no_flags_init: "no_flags st \<Longrightarrow> m_init L self st = Some (st', r) \<Longrightarrow> no_flags st'"
  by (auto simp: m_init_def call_defs bind_eq_Some_conv conn_allocator_def no_flags_dealloc intro!: no_flags_put split: option.splits)

lemma no_flags_exec: "no_flags st \<Longrightarrow> rb_conns st self = Some c \<Longrightarrow> exec_rc L sql self st c h = Some (st', r) \<Longrightarrow> no_flags st'"
  by (auto simp: exec_rc_def call_defs no_flags_put no_flagsD split: prod.splits)

lemma no_flags_ensure:
  assumes "ensure_connection n st self body = Some (st', r)" "no_flags st"
    and "\<And>c h. rb_conns st self = Some c \<Longrightarrow> body c h = Some (st', r) \<Longrightarrow> no_flags st'"
  shows "no_flags st'"
  using assms by (auto simp: ensure_connection_def raise_def bind_eq_Some_conv split: option.splits)

lemma no_flags_open:
  assumes "no_flags st" "m_open L M rd a self st = Some (st', r)"
  shows "no_flags st'"
proof (cases "\<exists>s path. get_str M a = Inr s \<and> to_cstr s = Inr path")
  case False
  with assms show ?thesis
    by (auto simp: m_open_def call_defs to_cstr_def bind_eq_Some_conv split: sum.splits if_splits)
next
  case True
  then obtain s path where sp: "get_str M a = Inr s" "to_cstr s = Inr path" by blast
  obtain l1 rc1 ho where o: "rs_open L path (rb_lib st) = (l1, rc1, ho)" by (cases "rs_open L path (rb_lib st)") auto
  obtain c where c: "rb_conns st self = Some c" using assms(2) sp by (auto simp: m_open_def bind_eq_Some_conv)
  show ?thesis
  proof (cases "rd path")
    case False
    with assms sp o c show ?thesis by (auto simp: m_open_def call_defs no_flags_put no_flagsD)
  next
    case True
    then obtain h where h: "ho = Some h" using assms(2) sp o c by (auto simp: m_open_def call_defs bind_eq_Some_conv)
    with True assms sp o c show ?thesis
      by (auto simp: m_open_def call_defs no_flags_put no_flagsD split: prod.splits)
  qed
qed

lemma no_flags_close: "no_flags st \<Longrightarrow> m_close L self st = Some (st', r) \<Longrightarrow> no_flags st'"
  unfolding m_close_def
  by (erule no_flags_ensure) (auto simp: ret_def case_prod_beta Let_def no_flags_put no_flagsD)

lemma no_flags_prepare: "no_flags st \<Longrightarrow> m_prepare L M a self st = Some (st', r) \<Longrightarrow> no_flags st'"
proof (cases "get_str M a")
  case (Inr s)
  assume n: "no_flags st" and "m_prepare L M a self st = Some (st', r)"
  with Inr have "ensure_connection 279 st self (\<lambda>c h. make_sqlite3_stmt L self h s st) = Some (st', r)"
    by (simp add: m_prepare_def)
  then show ?thesis
    using n by (rule no_flags_ensure)
      (use n in \<open>auto simp: make_sqlite3_stmt_def to_cstr_def ret_def raise_def case_prod_beta Let_def split: if_splits\<close>)
qed (simp add: m_prepare_def raise_def)

lemma no_flags_m_exec: "no_flags st \<Longrightarrow> m_exec L M a self st = Some (st', r) \<Longrightarrow> no_flags st'"
proof (cases "get_str M a")
  case (Inr s)
  assume n: "no_flags st" and "m_exec L M a self st = Some (st', r)"
  with Inr have "ensure_connection 390 st self (\<lambda>c h.
      (case to_cstr s of Inl e \<Rightarrow> raise st e | Inr zSQL \<Rightarrow> exec_rc L zSQL self st c h)) = Some (st', r)"
    by (simp add: m_exec_def)
  then show ?thesis
    using n by (rule no_flags_ensure) (use n no_flags_exec in \<open>auto simp: to_cstr_def raise_def split: if_splits\<close>)
qed (simp add: m_exec_def raise_def)

lemma no_flags_call_db:
  assumes "no_flags st" "call_db L M rd m a self st = Some (st', r)"
  shows "no_flags st'"
proof -
  have ex: "ensure_connection n st self (exec_rc L sql self st) = Some (st', r) \<Longrightarrow> no_flags st'" for n sql
    by (erule no_flags_ensure) (use assms(1) no_flags_exec in blast)+
  have fin: "m_finalize L M a self st = Some (st', r) \<Longrightarrow> st' = st"
    by (auto simp: m_finalize_def check_type_data_def raise_def split: sum.splits)
  show ?thesis
  proof (cases m)
    case DB_begin
    with assms(2) ex show ?thesis by (simp add: m_begin_def)
  next
    case DB_commit
    with assms(2) ex show ?thesis by (simp add: m_commit_def)
  next
    case DB_rollback
    with assms(2) ex show ?thesis by (simp add: m_rollback_def)
  qed (use assms fin in \<open>auto intro: no_flags_init no_flags_open no_flags_close no_flags_prepare no_flags_m_exec
      dest: same_state\<close>)
qed

lemma no_flags_stmt:
  assumes "call_stmt L M blk m a self st = Some (st', r)" "m \<noteq> ST_each"
  shows "rb_conns st' = rb_conns st"
proof (cases "m = ST_step")
  case True
  with assms show ?thesis
    by (auto simp: m_step_def call_defs put_lib_def bind_eq_Some_conv case_prod_beta Let_def split: option.splits)
next
  case False
  with assms have "st' = st" using stmt_same by blast
  then show ?thesis by simp
qed

lemma no_flags_stmt_dealloc: "stmt_deallocator L self st = Some st' \<Longrightarrow> rb_conns st' = rb_conns st"
  by (auto simp: stmt_deallocator_def put_lib_def bind_eq_Some_conv case_prod_beta Let_def)

lemma no_flags_step: "rb_step L M rd st st' \<Longrightarrow> no_flags st \<Longrightarrow> no_flags st'"
proof (erule rb_step_keeps)
  show "m_init L (rb_next s) (s\<lparr>rb_next := rb_next s + 1\<rparr>) = Some (s', r) \<Longrightarrow> no_flags s \<Longrightarrow> no_flags s'" for s s' r
    using no_flags_init [of "s\<lparr>rb_next := rb_next s + 1\<rparr>" L "rb_next s" s' r] by simp
  show "call_stmt L M blk m a self s = Some (s', r) \<Longrightarrow> m \<noteq> ST_each \<Longrightarrow> no_flags s \<Longrightarrow> no_flags s'" for blk m a self s s' r
    using no_flags_stmt by (fastforce simp: no_flags_def)
  show "stmt_deallocator L self s = Some s' \<Longrightarrow> no_flags s \<Longrightarrow> no_flags s'" for self s s'
    using no_flags_stmt_dealloc by (fastforce simp: no_flags_def)
qed (use no_flags_call_db no_flags_dealloc in blast)+

lemma no_flags_reachable:
  assumes "(rb_step L M rd)\<^sup>*\<^sup>* (rb_init l) st"
  shows "no_flags st"
  using assms by (induction rule: rtranclp_induct) (auto simp: rb_init_def no_flags_def [of "rb_init l"] intro: no_flags_step, simp add: no_flags_def)

section \<open>Iteration over columns\<close>

text \<open>The pairs that \<open>m_each\<close> yields.\<close>

definition column_pair :: "'l rsql \<Rightarrow> nat \<Rightarrow> 'l rb \<Rightarrow> nat \<Rightarrow> rvalue" where
  "column_pair L h st i = Ary [Str (rs_column_name L h i (rb_lib st)), the (column_value L h (int i) st)]"

lemma column_value_lib: "rb_lib st' = rb_lib st \<Longrightarrow> column_value L h i st' = column_value L h i st"
  by (simp add: column_value_def)

lemma each_loop_fold:
  assumes "rb_stmts st self = Some s" "s_handle s = Some h" "i \<le> cols"
    and cols: "list_all (\<lambda>i. rs_column_defined L h (int i) (rb_lib st)) [0..<cols]"
    and blk: "\<And>v st. blk v st = Some (f v st, Inr Nil)"
    and keep: "\<And>v st. rb_lib (f v st) = rb_lib st \<and> rb_stmts (f v st) = rb_stmts st"
  shows "each_loop L blk self cols i st = Some (fold f (map (column_pair L h st) [i..<cols]) st, Inr Nil)"
  using assms(1,3) cols
proof (induction "cols - i" arbitrary: i st)
  case 0
  then show ?case by (subst each_loop.simps) (simp add: ret_def)
next
  case (Suc n)
  then have i: "i < cols" by simp
  let ?v = "column_pair L h st i" let ?st = "f ?v st"
  have k: "rb_lib ?st = rb_lib st" "rb_stmts ?st = rb_stmts st" using keep by blast+
  have "rs_column_defined L h (int i) (rb_lib st)" using Suc.prems(3) i by (simp add: list_all_iff)
  then obtain v where v: "column_value L h (int i) st = Some v" by (simp add: column_value_def Let_def)
  have pair: "column_pair L h ?st j = column_pair L h st j" for j
    using column_value_lib [OF k(1)] keep by (simp add: column_pair_def)
  have "each_loop L blk self cols i st = each_loop L blk self cols (Suc i) ?st"
    using i Suc.prems(1) assms(2) v by (subst each_loop.simps) (simp add: blk column_pair_def)
  also have "\<dots> = Some (fold f (map (column_pair L h ?st) [Suc i..<cols]) ?st, Inr Nil)"
    using Suc k i by (intro Suc.hyps(1)) simp_all
  also have "map (column_pair L h ?st) [Suc i..<cols] = map (column_pair L h st) [Suc i..<cols]"
    using pair by simp
  finally show ?case using i by (simp add: upt_conv_Cons)
qed

section \<open>Properties\<close>

abbreviation no_conv :: mrb_conv where
  "no_conv \<equiv> \<lparr>mc_to_str = (\<lambda>_. Inl TypeError), mc_integer = (\<lambda>_. Inl TypeError)\<rparr>"

definition empty_pool :: handles where
  "empty_pool = \<lparr>hs_next = 0, hs_dbs = [], hs_stmts = []\<rparr>"

lemma empty_pool_stmts: "handle_stmts empty_pool = (\<lambda>_. None)"
  by (simp add: handle_stmts_def empty_pool_def fun_eq_iff)

text \<open>A program that makes a connection, opens it and prepares a statement.\<close>

definition sample_conn :: "nat option option \<Rightarrow> int option \<Rightarrow> connection" where
  "sample_conn h rc = \<lparr>c_handle = h, c_rc = rc, c_dont_delete = None\<rparr>"

definition sample_st1 :: "handles rb" where
  "sample_st1 = \<lparr>rb_lib = empty_pool, rb_conns = [0 \<mapsto> sample_conn None None], rb_stmts = (\<lambda>_. None), rb_next = 1\<rparr>"

definition sample_st2 :: "handles rb" where
  "sample_st2 = \<lparr>rb_lib = \<lparr>hs_next = 1, hs_dbs = [0], hs_stmts = []\<rparr>, rb_conns = [0 \<mapsto> sample_conn (Some (Some 0)) (Some 0)],
     rb_stmts = (\<lambda>_. None), rb_next = 1\<rparr>"

definition sample_st3 :: "handles rb" where
  "sample_st3 = \<lparr>rb_lib = \<lparr>hs_next = 2, hs_dbs = [0], hs_stmts = [(1, 0)]\<rparr>, rb_conns = [0 \<mapsto> sample_conn (Some (Some 0)) (Some 0)],
     rb_stmts = [1 \<mapsto> \<lparr>s_handle = Some 1, s_connection = 0\<rparr>], rb_next = 2\<rparr>"

lemma sample_steps:
  "rb_step handle_lib no_conv (\<lambda>_. False) (rb_init empty_pool) sample_st1"
  "rb_step handle_lib no_conv (\<lambda>_. False) sample_st1 sample_st2"
  "rb_step handle_lib no_conv (\<lambda>_. False) sample_st2 sample_st3"
proof -
  show "rb_step handle_lib no_conv (\<lambda>_. False) (rb_init empty_pool) sample_st1"
    by (rule rb_step.New [where r = "Inr (Obj 0)"])
      (simp add: m_init_def rb_init_def put_conn_def conn_allocator_def ret_def sample_st1_def sample_conn_def)
  show "rb_step handle_lib no_conv (\<lambda>_. False) sample_st1 sample_st2"
    by (rule rb_step.Db [where m = DB_open and a = "Str ''db''" and self = 0 and r = "Inr (Fixnum 0)"])
      (simp_all add: m_open_def get_str_def to_cstr_def handle_lib_def put_conn_def put_lib_def ret_def
        sample_st1_def sample_st2_def sample_conn_def empty_pool_def)
  show "rb_step handle_lib no_conv (\<lambda>_. False) sample_st2 sample_st3"
    by (rule rb_step.Db [where m = DB_prepare and a = "Str ''x''" and self = 0 and r = "Inr (Obj 1)"])
      (simp_all add: m_prepare_def make_sqlite3_stmt_def get_str_def to_cstr_def handle_lib_def put_lib_def call_defs
        sample_st2_def sample_st3_def sample_conn_def Let_def numeral_2_eq_2)
qed

lemma sample_reachable:
  "(rb_step handle_lib no_conv (\<lambda>_. False))\<^sup>*\<^sup>* (rb_init empty_pool) sample_st1"
  "(rb_step handle_lib no_conv (\<lambda>_. False))\<^sup>*\<^sup>* (rb_init empty_pool) sample_st3"
  using sample_steps by (meson converse_rtranclp_into_rtranclp rtranclp.rtrancl_refl)+

text \<open>
  A connection object that is not closed cannot be collected: the deallocator reads the
  flag \<open>dont_delete\<close>, or already the handle of a connection that was never opened, which
  nothing has written, because the allocator compares the flag instead of assigning it.
\<close>

lemma collected_undefined_iff:
  assumes "(rb_step L M rd)\<^sup>*\<^sup>* (rb_init l) st" "rb_conns st x = Some c"
  shows "conn_deallocator L x st = None \<longleftrightarrow> c_handle c \<noteq> Some None"
  using no_flagsD [OF no_flags_reachable [OF assms(1)] assms(2)] assms(2)
  by (cases "c_handle c") (auto simp: conn_deallocator_def split: option.splits)

text \<open>
  Claim C13.  Consider any sequence of actions of a Ruby program on connections and statements and of
  collections of such objects, each with a defined result.  After it, a handle that was written into a
  connection is that of an open database, the handle of a statement is a live statement of an open database, and no two
  objects have the same handle: so no call is made on a closed or finalized handle, and none is
  released twice.  The next collection of a statement is always defined.  That of a connection is
  defined exactly if the connection was closed: if it is open or was never opened, the deallocator
  reads fields that nothing has written.
\<close>

theorem handles_alive:
  assumes "sqlite_handles L dbs stmts" "stmts l = (\<lambda>_. None)" "(rb_step L M rd)\<^sup>*\<^sup>* (rb_init l) st"
  shows "(\<forall>x c h. rb_conns st x = Some c \<longrightarrow> c_handle c = Some (Some h) \<longrightarrow> h \<in> dbs (rb_lib st)) \<and>
    (\<forall>x y c d h. rb_conns st x = Some c \<longrightarrow> rb_conns st y = Some d \<longrightarrow> c_handle c = Some (Some h) \<longrightarrow>
      c_handle d = Some (Some h) \<longrightarrow> x = y) \<and>
    (\<forall>x s h. rb_stmts st x = Some s \<longrightarrow> s_handle s = Some h \<longrightarrow> (\<exists>d\<in>dbs (rb_lib st). stmts (rb_lib st) h = Some d)) \<and>
    (\<forall>x y s t h. rb_stmts st x = Some s \<longrightarrow> rb_stmts st y = Some t \<longrightarrow> s_handle s = Some h \<longrightarrow>
      s_handle t = Some h \<longrightarrow> x = y) \<and>
    (\<forall>x s. rb_stmts st x = Some s \<longrightarrow> stmt_deallocator L x st \<noteq> None) \<and>
    (\<forall>x c. rb_conns st x = Some c \<longrightarrow> (conn_deallocator L x st \<noteq> None \<longleftrightarrow> c_handle c = Some None))"
proof -
  have core: "safe_core (dbs (rb_lib st)) (stmts (rb_lib st)) (written_handle st) (stmt_handle st)"
    using sqlite_handles.safe_reachable [OF assms(1,3,2)] by (simp add: rb_safe_def)
  have "h \<in> dbs (rb_lib st)" if "rb_conns st x = Some c" "c_handle c = Some (Some h)" for x c h
    using core_handles(1) [OF core written_handleI [OF that]] .
  moreover have "x = y" if "rb_conns st x = Some c" "rb_conns st y = Some d" "c_handle c = Some (Some h)" "c_handle d = Some (Some h)"
    for x y c d h
    using core written_handleI [OF that(1,3)] written_handleI [OF that(2,4)] by (auto simp: safe_core_def inj_on_def dom_def)
  moreover have "\<exists>d\<in>dbs (rb_lib st). stmts (rb_lib st) h = Some d" if "rb_stmts st x = Some s" "s_handle s = Some h" for x s h
    using core_handles(2) [OF core stmt_handleI [OF that]] core by (auto simp: safe_core_def dom_def ran_def)
  moreover have "x = y" if "rb_stmts st x = Some s" "rb_stmts st y = Some t" "s_handle s = Some h" "s_handle t = Some h" for x y s t h
    using core stmt_handleI [OF that(1,3)] stmt_handleI [OF that(2,4)] by (auto simp: safe_core_def inj_on_def dom_def)
  moreover have "stmt_deallocator L x st \<noteq> None" if "rb_stmts st x = Some s" for x s
    using that by (simp add: stmt_deallocator_def case_prod_beta)
  moreover have "conn_deallocator L x st \<noteq> None \<longleftrightarrow> c_handle c = Some None" if "rb_conns st x = Some c" for x c
    using collected_undefined_iff [OF assms(3) that] by simp
  ultimately show ?thesis by blast
qed

theorem handles_alive_witness:
  "0 \<in> handle_dbs (rb_lib sample_st3) \<and>
   conn_deallocator handle_lib 0 sample_st3 = None \<and> stmt_deallocator handle_lib 1 sample_st3 \<noteq> None"
proof -
  note alive = handles_alive [OF handle_pool.sqlite_handles_axioms empty_pool_stmts sample_reachable(2)]
  have "rb_conns sample_st3 0 = Some (sample_conn (Some (Some 0)) (Some 0))"
    "rb_stmts sample_st3 1 = Some \<lparr>s_handle = Some 1, s_connection = 0\<rparr>" "c_handle (sample_conn (Some (Some 0)) (Some 0)) = Some (Some 0)"
    by (simp_all add: sample_st3_def sample_conn_def)
  note here = this
  note collect = alive [THEN conjunct2, THEN conjunct2, THEN conjunct2, THEN conjunct2, THEN conjunct1]
    alive [THEN conjunct2, THEN conjunct2, THEN conjunct2, THEN conjunct2, THEN conjunct2]
  show ?thesis
  proof (intro conjI)
    show "0 \<in> handle_dbs (rb_lib sample_st3)"
      using alive [THEN conjunct1, rule_format, OF here(1,3)] .
    show "conn_deallocator handle_lib 0 sample_st3 = None"
      using collect(2) [rule_format, OF here(1)] here(3) by simp
    show "stmt_deallocator handle_lib 1 sample_st3 \<noteq> None"
      using collect(1) [rule_format, OF here(2)] .
  qed
qed



text \<open>
  On a row, \<open>each\<close> yields the pairs of column name and value once each and in order; it
  returns nil after the last one.  The values are those of \<open>[]\<close>.
\<close>

lemma m_each_yields_columns:
  assumes "rb_stmts st self = Some s" "s_handle s = Some h"
    and "list_all (\<lambda>i. rs_column_defined L h (int i) (rb_lib st)) [0..<rs_column_count L h (rb_lib st)]"
    and "\<And>v st. blk v st = Some (f v st, Inr Nil)"
    and "\<And>v st. rb_lib (f v st) = rb_lib st \<and> rb_stmts (f v st) = rb_stmts st"
  shows "m_each L blk self st =
      Some (fold f (map (column_pair L h st) [0..<rs_column_count L h (rb_lib st)]) st, Inr Nil) \<and>
    list_all (\<lambda>i. m_column L M (Fixnum (int i)) self st = Some (st, Inr (the (column_value L h (int i) st))))
      [0..<rs_column_count L h (rb_lib st)]"
proof -
  let ?n = "rs_column_count L h (rb_lib st)"
  have "each_loop L blk self ?n 0 st = Some (fold f (map (column_pair L h st) [0..<?n]) st, Inr Nil)"
    by (rule each_loop_fold [OF assms(1,2) _ assms(3,4,5)]) simp
  moreover have "m_column L M (Fixnum (int i)) self st = Some (st, Inr (the (column_value L h (int i) st)))" if "i < ?n" for i
  proof -
    have "rs_column_defined L h (int i) (rb_lib st)" using that assms(3) by (simp add: list_all_iff)
    then obtain v where "column_value L h (int i) st = Some v" by (simp add: column_value_def Let_def)
    then show ?thesis using assms(1,2) by (simp add: m_column_def get_int_def ensure_statement_def ret_def)
  qed
  ultimately show ?thesis using assms(1,2) by (simp add: m_each_def ensure_statement_def list_all_iff)
qed

text \<open>
  The method \<open>finalize\<close> of a connection raises for every argument, so that statements can only be
  finalized by the garbage collector; and \<open>columnType\<close> returns the number of columns.
\<close>

lemma m_finalize_raises: "\<exists>e. m_finalize L M a self st = Some (st, Inl e)"
  by (simp add: m_finalize_def check_type_data_def raise_def split: sum.split)

lemma columnType_counts:
  "map_of stmt_methods ''columnType'' = Some m \<Longrightarrow> call_stmt L M blk m a self st = m_columns L self st"
  by (simp add: stmt_methods_def split: if_splits)

end
