(* ===== verification/Ruby_VM.thy ===== *)
theory Ruby_VM
  imports Ruby_Sqlite
begin

text \<open>
  The wrapper of the Ruby interpreter (\<open>src/src/ruby.cpp\<close>, \<open>ruby.hpp\<close>): creation and destruction
  of a virtual machine, running byte code, texts and files, and the description of an exception
  by its text and a backtrace.  The interpreter is a record of functions on a state of any type.

  \<open>None\<close> is undefined behaviour: a null state or file, a frame outside the call stack, or the
  missing result of \<open>loadExtensions\<close>.
\<close>

section \<open>The interpreter\<close>

text \<open>
  Instruction pointers count instructions; a null pointer is \<open>None\<close>.  Classes, symbols, code
  bodies and exceptions are numbers.
\<close>

datatype proc_body = CFunc | Irep nat

record rproc =
  pr_body :: proc_body
  pr_target_class :: nat

record callinfo =
  ci_proc :: "rproc option"
  ci_err :: "int option"
  ci_pc :: int
  ci_mid :: nat
  ci_target_class :: nat

text \<open>
  \<open>mr_callinfo\<close> is the array from \<open>cibase\<close> to \<open>ciend\<close>.  The functions that run code give whether
  the resulting value is the undefined one (\<open>mrb_undef_p\<close>).
\<close>

record 'm mruby =
  mr_open :: "'m option"
  mr_define_module :: "cstring \<Rightarrow> 'm \<Rightarrow> 'm"
  mr_define_class :: "cstring \<Rightarrow> cstring \<Rightarrow> cstring list \<Rightarrow> 'm \<Rightarrow> 'm"
  mr_define_const :: "cstring \<Rightarrow> int \<Rightarrow> 'm \<Rightarrow> 'm"
  mr_gv_set :: "cstring \<Rightarrow> cstring \<Rightarrow> 'm \<Rightarrow> 'm"
  mr_load_irep :: "byte list \<Rightarrow> 'm \<Rightarrow> bool \<times> 'm"
  mr_load_text :: "cstring \<Rightarrow> cstring \<Rightarrow> 'm \<Rightarrow> bool \<times> 'm"
  mr_exc :: "'m \<Rightarrow> nat option"
  mr_ciidx :: "nat \<Rightarrow> 'm \<Rightarrow> int"
  mr_lastpc :: "nat \<Rightarrow> 'm \<Rightarrow> int"
  mr_inspect :: "nat \<Rightarrow> 'm \<Rightarrow> cstring option \<times> 'm"
  mr_callinfo :: "'m \<Rightarrow> callinfo list"
  mr_iseq :: "nat \<Rightarrow> 'm \<Rightarrow> int"
  mr_filename :: "nat \<Rightarrow> 32 word \<Rightarrow> 'm \<Rightarrow> cstring option"
  mr_line :: "nat \<Rightarrow> 32 word \<Rightarrow> 'm \<Rightarrow> int"
  mr_sym2name :: "nat \<Rightarrow> 'm \<Rightarrow> cstring option"
  mr_class_name :: "nat \<Rightarrow> 'm \<Rightarrow> cstring option"

section \<open>Formatted output\<close>

definition BUFF_LEN :: nat where "BUFF_LEN = 1024"

definition broken_text :: cstring where "broken_text = ''<broken vsnprintf>''"

text \<open>Writing a text into a buffer at the start.\<close>

definition overwrite :: "cstring \<Rightarrow> cstring \<Rightarrow> cstring" where
  "overwrite s buff = s @ drop (length s) buff"

text \<open>
  \<open>vsnprintf\<close> of the text \<open>out\<close> that the format gives: at most \<open>n - 1\<close> characters and a NUL are
  stored, the length of the whole text is returned.  A library that does not know the length
  returns a negative number (\<open>None\<close> here).
\<close>

definition vsnprintf :: "nat \<Rightarrow> cstring option \<Rightarrow> cstring \<Rightarrow> cstring \<times> int" where
  "vsnprintf n out buff =
     (case out of
        None \<Rightarrow> (buff, -1)
      | Some t \<Rightarrow> (overwrite (take (n - 1) t @ [NUL]) buff, int (length t)))"

text \<open>\<open>buff\<close> is the uninitialised array of \<open>BUFF_LEN\<close> characters.\<close>

definition format :: "cstring \<Rightarrow> cstring option \<Rightarrow> cstring \<Rightarrow> cstring" where
  "format buff out buffer =
     (let maxlen = BUFF_LEN - 1;
          (buff1, vlen) = vsnprintf maxlen out buff;
          (buff2, bytes) =
            (if vlen \<ge> int maxlen then (buff1[maxlen - 1 := NUL], maxlen)
             else if vlen \<ge> 0 then (buff1[nat vlen := NUL], nat vlen)
             else
               let vlen' = length broken_text;
                   maxlen' = maxlen - 1;
                   bytes = (if vlen' < maxlen' then vlen' else maxlen')
               in ((overwrite (take bytes broken_text) buff1)[bytes := NUL], bytes))
      in buffer @ take bytes buff2)"

section \<open>Backtrace\<close>

text \<open>The instruction at which the frame \<open>i\<close> stands.\<close>

definition frame_pc :: "callinfo list \<Rightarrow> int \<Rightarrow> int \<Rightarrow> nat \<Rightarrow> int option" where
  "frame_pc cibase ciidx pc0 i =
     (case ci_err (cibase ! i) of
        Some pc \<Rightarrow> Some pc
      | None \<Rightarrow>
          if int i + 1 \<le> ciidx then
            if i + 1 < length cibase then Some (ci_pc (cibase ! (i + 1)) - 1) else None
          else Some pc0)"

text \<open>The texts of one frame: \<open>"\t[%d] "\<close>, then the place with the method, then a line feed.\<close>

definition frame_head :: "nat \<Rightarrow> cstring" where
  "frame_head i = [CHR 0x09] @ ''['' @ dec_int (int i) @ ''] ''"

definition frame_text :: "'m mruby \<Rightarrow> 'm \<Rightarrow> callinfo \<Rightarrow> rproc \<Rightarrow> cstring \<Rightarrow> int \<Rightarrow> cstring" where
  "frame_text R m ci proc filename lineno =
     (let sep = (if ci_target_class ci = pr_target_class proc then ''.'' else ''#'') in
      case mr_sym2name R (ci_mid ci) m of
        Some meth \<Rightarrow>
          (case mr_class_name R (pr_target_class proc) m of
             Some cn \<Rightarrow> filename @ '':'' @ dec_int lineno @ '':in '' @ cn @ sep @ meth
           | None \<Rightarrow> filename @ '':'' @ dec_int lineno @ '':in '' @ meth)
      | None \<Rightarrow> filename @ '':'' @ dec_int lineno)"

text \<open>
  One turn of the loop, for the frame \<open>i\<close>, on the flag \<open>tracehead\<close> and the text so far; \<open>buff\<close> is
  the content of the stack array in the calls of \<open>format\<close>.
\<close>

definition backtrace_step ::
  "'m mruby \<Rightarrow> cstring \<Rightarrow> 'm \<Rightarrow> int \<Rightarrow> int \<Rightarrow> nat \<Rightarrow> bool \<times> cstring \<Rightarrow> (bool \<times> cstring) option" where
  "backtrace_step R buff m ciidx pc0 i st =
     (let cibase = mr_callinfo R m in
      if i \<ge> length cibase then None
      else case ci_proc (cibase ! i) of
        None \<Rightarrow> Some st
      | Some proc \<Rightarrow>
          (case pr_body proc of
             CFunc \<Rightarrow> Some st
           | Irep irep \<Rightarrow> do {
               pc \<leftarrow> frame_pc cibase ciidx pc0 i;
               let offset = word_of_int (pc - mr_iseq R irep m);
               let filename = mr_filename R irep offset m;
               let lineno = mr_line R irep offset m;
               if lineno = -1 then Some st
               else
                 let filename' = (case filename of None \<Rightarrow> ''(unknown)'' | Some f \<Rightarrow> f);
                     (tracehead, backtrace) = st;
                     backtrace1 = (if tracehead then format buff (Some (''trace:'' @ [CHR 0x0A])) backtrace else backtrace);
                     backtrace2 = format buff (Some (frame_head i)) backtrace1;
                     backtrace3 = format buff (Some (frame_text R m (cibase ! i) proc filename' lineno)) backtrace2
                 in Some (False, format buff (Some [CHR 0x0A]) backtrace3)
             }))"

fun backtrace_loop ::
  "'m mruby \<Rightarrow> cstring \<Rightarrow> 'm \<Rightarrow> int \<Rightarrow> int \<Rightarrow> nat \<Rightarrow> bool \<times> cstring \<Rightarrow> (bool \<times> cstring) option" where
  "backtrace_loop R buff m ciidx pc0 0 st = Some st"
| "backtrace_loop R buff m ciidx pc0 (Suc i) st =
     backtrace_step R buff m ciidx pc0 i st \<bind> backtrace_loop R buff m ciidx pc0 i"

definition output_backtrace ::
  "'m mruby \<Rightarrow> cstring \<Rightarrow> 'm \<Rightarrow> int \<Rightarrow> int \<Rightarrow> cstring \<Rightarrow> cstring option" where
  "output_backtrace R buff m ciidx pc0 backtrace =
     (let ciidx' = (if ciidx \<ge> int (length (mr_callinfo R m)) then 10 else ciidx)
      in map_option snd (backtrace_loop R buff m ciidx' pc0 (nat (ciidx' + 1)) (True, backtrace)))"

section \<open>Virtual machines\<close>

text \<open>\<open>vm_contexts\<close> counts the compiler contexts not freed.\<close>

record 'm vm =
  my_vm :: "'m option"
  my_error :: cstring
  my_backtrace :: cstring
  vm_contexts :: int

definition define_constants :: "'m mruby \<Rightarrow> (cstring \<times> int) list \<Rightarrow> 'm \<Rightarrow> 'm" where
  "define_constants R cs m = fold (\<lambda>(n, v). mr_define_const R n v) cs m"

definition vm_new :: "'m mruby \<Rightarrow> 'm vm option" where
  "vm_new R = do {
     m \<leftarrow> mr_open R;
     let m1 = mr_define_module R ''SQLite'' m;
     let m2 = define_constants R sqlite_constants (mr_define_class R ''SQLite'' ''DB'' (map fst db_methods) m1);
     let m3 = mr_define_class R ''SQLite'' ''SQLite3Stmt'' (map fst stmt_methods) m2;
     Some \<lparr>my_vm = Some m3, my_error = '''', my_backtrace = '''', vm_contexts = 0\<rparr>
   }"

definition vm_delete :: "'m vm \<Rightarrow> 'm vm" where
  "vm_delete vm = (if my_vm vm \<noteq> None then vm\<lparr>my_vm := None\<rparr> else vm)"

definition getBacktrace :: "'m mruby \<Rightarrow> cstring \<Rightarrow> 'm vm \<Rightarrow> 'm vm option" where
  "getBacktrace R buff vm = do {
     m \<leftarrow> my_vm vm;
     case mr_exc R m of
       None \<Rightarrow> Some vm
     | Some exc \<Rightarrow> do {
         let ciidx = mr_ciidx R exc m;
         let code = mr_lastpc R exc m;
         backtrace \<leftarrow> output_backtrace R buff m ciidx code '''';
         let (s, m1) = mr_inspect R exc m;
         Some (vm\<lparr>my_vm := Some m1, my_backtrace := backtrace, my_error := (case s of None \<Rightarrow> '''' | Some t \<Rightarrow> t)\<rparr>)
       }
   }"

text \<open>What the three functions below do with the result of the interpreter.\<close>

definition execute_result :: "'m mruby \<Rightarrow> cstring \<Rightarrow> bool \<times> 'm \<Rightarrow> 'm vm \<Rightarrow> (bool \<times> 'm vm) option" where
  "execute_result R buff v_m vm =
     (let (undef, m) = v_m;
          vm1 = vm\<lparr>my_vm := Some m, vm_contexts := vm_contexts vm - 1\<rparr>
      in if mr_exc R m \<noteq> None \<and> \<not> undef then map_option (Pair False) (getBacktrace R buff vm1)
         else Some (True, vm1))"

definition executeByteCode :: "'m mruby \<Rightarrow> cstring \<Rightarrow> byte list \<Rightarrow> 'm vm \<Rightarrow> (bool \<times> 'm vm) option" where
  "executeByteCode R buff code vm = do {
     m \<leftarrow> my_vm vm;
     execute_result R buff (mr_load_irep R code m) (vm\<lparr>vm_contexts := vm_contexts vm + 1\<rparr>)
   }"

definition executeCode :: "'m mruby \<Rightarrow> cstring \<Rightarrow> cstring \<Rightarrow> 'm vm \<Rightarrow> (bool \<times> 'm vm) option" where
  "executeCode R buff code vm = do {
     m \<leftarrow> my_vm vm;
     execute_result R buff (mr_load_text R ''inproc-code'' code m) (vm\<lparr>vm_contexts := vm_contexts vm + 1\<rparr>)
   }"

text \<open>\<open>files\<close> gives the texts of the files that can be opened; closing the null file is undefined.\<close>

definition executeFile ::
  "'m mruby \<Rightarrow> cstring \<Rightarrow> (cstring \<Rightarrow> cstring option) \<Rightarrow> cstring \<Rightarrow> 'm vm \<Rightarrow> (bool \<times> 'm vm) option" where
  "executeFile R buff files filename vm = do {
     m \<leftarrow> my_vm vm;
     content \<leftarrow> files filename;
     execute_result R buff (mr_load_text R filename content m) (vm\<lparr>vm_contexts := vm_contexts vm + 1\<rparr>)
   }"

text \<open>\<open>loadExtensions\<close> has no \<open>return\<close> on the path of success.\<close>

definition loadExtensions :: "'m mruby \<Rightarrow> cstring \<Rightarrow> byte list \<Rightarrow> 'm vm \<Rightarrow> (bool \<times> 'm vm) option" where
  "loadExtensions R buff ruby_lib_bytecode vm = do {
     (ok, vm1) \<leftarrow> executeByteCode R buff ruby_lib_bytecode vm;
     if ok = False then Some (False, vm1) else None
   }"

definition setGlobalVariable :: "'m mruby \<Rightarrow> cstring \<Rightarrow> cstring \<Rightarrow> 'm vm \<Rightarrow> 'm vm option" where
  "setGlobalVariable R name value vm = do {
     m \<leftarrow> my_vm vm;
     Some (vm\<lparr>my_vm := Some (mr_gv_set R name value m)\<rparr>)
   }"

end
