(* ===== verification/Ruby_VM_Correct.thy ===== *)
theory Ruby_VM_Correct
  imports Ruby_VM
begin

text \<open>
  Properties of the wrapper of the Ruby interpreter: what \<open>format\<close> appends whatever the stack
  array holds, the backtrace as a list of lines, and the result and the description of an error
  that running a text gives.
\<close>

section \<open>Formatted output\<close>

text \<open>
  What \<open>format\<close> appends.  A text that does not fit is cut after 1022 characters; the NUL that
  ends it in the array is appended with it.
\<close>

definition clip :: "cstring \<Rightarrow> cstring" where
  "clip t = (if length t < 1023 then t else take 1022 t @ [NUL])"

lemma length_clip: "length (clip t) = min (length t) 1023"
  by (simp add: clip_def)

lemma take_update_overwrite:
  assumes "length s \<le> length buff"
  shows "take (length s) ((overwrite s buff)[length s := x]) = s"
  using assms by (simp add: overwrite_def list_update_append)

lemma format_clips:
  assumes "length buff = BUFF_LEN"
  shows "format buff (Some t) buffer = buffer @ clip t"
proof (cases "length t < 1023")
  case True
  have "take (length t) ((overwrite (t @ [NUL]) buff)[length t := NUL]) = t"
    using True assms by (simp add: overwrite_def list_update_append BUFF_LEN_def)
  then show ?thesis using True by (simp add: format_def vsnprintf_def BUFF_LEN_def clip_def)
next
  case False
  have "take 1023 ((overwrite (take 1022 t @ [NUL]) buff)[1022 := NUL]) = take 1022 t @ [NUL]"
    using False assms by (simp add: overwrite_def list_update_append BUFF_LEN_def)
  then show ?thesis using False by (simp add: format_def vsnprintf_def BUFF_LEN_def clip_def)
qed

lemma format_broken:
  assumes "length buff = BUFF_LEN"
  shows "format buff None buffer = buffer @ broken_text"
proof -
  have "length broken_text = 18" by (simp add: broken_text_def)
  then show ?thesis
    using take_update_overwrite [of broken_text buff NUL] assms
    by (simp add: format_def vsnprintf_def BUFF_LEN_def)
qed

section \<open>Backtrace\<close>

text \<open>The line of a frame, for frames of Ruby code whose line is known.\<close>

definition frame_line :: "'m mruby \<Rightarrow> 'm \<Rightarrow> int \<Rightarrow> int \<Rightarrow> nat \<Rightarrow> cstring option" where
  "frame_line R m ciidx pc0 i =
     (let cibase = mr_callinfo R m in
      case ci_proc (cibase ! i) of
        None \<Rightarrow> None
      | Some proc \<Rightarrow>
          (case pr_body proc of
             CFunc \<Rightarrow> None
           | Irep irep \<Rightarrow>
               (let offset = word_of_int (the (frame_pc cibase ciidx pc0 i) - mr_iseq R irep m);
                    lineno = mr_line R irep offset m
                in if lineno = -1 then None
                   else Some (clip (frame_head i) @
                     clip (frame_text R m (cibase ! i) proc
                       (case mr_filename R irep offset m of None \<Rightarrow> ''(unknown)'' | Some f \<Rightarrow> f) lineno) @
                     [CHR 0x0A]))))"

definition frame_lines :: "'m mruby \<Rightarrow> 'm \<Rightarrow> int \<Rightarrow> int \<Rightarrow> nat \<Rightarrow> cstring list" where
  "frame_lines R m ciidx pc0 n = List.map_filter (frame_line R m ciidx pc0) (rev [0..<n])"

text \<open>The backtrace: a headline and the lines from the innermost frame outwards, or nothing.\<close>

definition trace_text :: "'m mruby \<Rightarrow> 'm \<Rightarrow> int \<Rightarrow> int \<Rightarrow> cstring" where
  "trace_text R m ciidx pc0 =
     (let top = (if ciidx \<ge> int (length (mr_callinfo R m)) then 10 else ciidx);
          lines = frame_lines R m top pc0 (nat (top + 1))
      in if lines = [] then '''' else ''trace:'' @ [CHR 0x0A] @ concat lines)"

lemma frame_lines_Suc:
  "frame_lines R m c p (Suc n) =
     (case frame_line R m c p n of None \<Rightarrow> [] | Some l \<Rightarrow> [l]) @ frame_lines R m c p n"
  by (simp add: frame_lines_def map_filter_simps split: option.splits)

lemma frame_pc_defined: "i < length cibase \<Longrightarrow> c < int (length cibase) \<Longrightarrow> frame_pc cibase c p i \<noteq> None"
  by (auto simp: frame_pc_def split: option.splits)

lemma backtrace_step_line:
  assumes "length buff = BUFF_LEN" "i < length (mr_callinfo R m)" "c < int (length (mr_callinfo R m))"
  shows "backtrace_step R buff m c p i (hd_flag, bt) =
    Some (case frame_line R m c p i of
       None \<Rightarrow> (hd_flag, bt)
     | Some l \<Rightarrow> (False, bt @ (if hd_flag then ''trace:'' @ [CHR 0x0A] else '''') @ l))"
proof -
  obtain pc where pc: "frame_pc (mr_callinfo R m) c p i = Some pc"
    using frame_pc_defined [OF assms(2,3)] by blast
  have "clip (''trace:'' @ [CHR 0x0A]) = ''trace:'' @ [CHR 0x0A]" "clip [CHR 0x0A] = [CHR 0x0A]"
    by (simp_all add: clip_def)
  then show ?thesis
    using assms(2) pc
    by (auto simp: backtrace_step_def frame_line_def format_clips [OF assms(1)] Let_def
      split: option.splits proc_body.splits)
qed

lemma backtrace_loop_lines:
  assumes "length buff = BUFF_LEN" "n \<le> length (mr_callinfo R m)" "c < int (length (mr_callinfo R m))"
  shows "map_option snd (backtrace_loop R buff m c p n (hd_flag, bt)) =
    Some (bt @ (if hd_flag \<and> frame_lines R m c p n \<noteq> [] then ''trace:'' @ [CHR 0x0A] else '''') @
      concat (frame_lines R m c p n))"
  using assms(2)
proof (induction n arbitrary: hd_flag bt)
  case 0
  then show ?case by (simp add: frame_lines_def map_filter_simps)
next
  case (Suc n)
  have step: "backtrace_step R buff m c p n (hd_flag, bt) =
      Some (case frame_line R m c p n of
         None \<Rightarrow> (hd_flag, bt)
       | Some l \<Rightarrow> (False, bt @ (if hd_flag then ''trace:'' @ [CHR 0x0A] else '''') @ l))"
    using backtrace_step_line [OF assms(1) _ assms(3), of n] Suc.prems by simp
  show ?case
  proof (cases "frame_line R m c p n")
    case None
    then show ?thesis using Suc.IH [of hd_flag bt] Suc.prems by (simp add: step frame_lines_Suc)
  next
    case (Some l)
    then show ?thesis
      using Suc.IH [of False "bt @ (if hd_flag then ''trace:'' @ [CHR 0x0A] else []) @ l"] Suc.prems step
      by (cases hd_flag) (auto simp: frame_lines_Suc)
  qed
qed

lemma output_backtrace_text:
  assumes "length buff = BUFF_LEN" "11 \<le> length (mr_callinfo R m)"
  shows "output_backtrace R buff m c p bt = Some (bt @ trace_text R m c p)"
proof -
  define top where "top = (if int (length (mr_callinfo R m)) \<le> c then 10 else c)"
  have "top < int (length (mr_callinfo R m))" "nat (top + 1) \<le> length (mr_callinfo R m)"
    using assms(2) by (auto simp: top_def)
  then show ?thesis
    using backtrace_loop_lines [OF assms(1), of "nat (top + 1)" R m top p True bt]
    unfolding output_backtrace_def trace_text_def Let_def top_def [symmetric] by auto
qed

section \<open>Running code\<close>

text \<open>
  Claim C39.  Running a text with \<open>executeCode\<close> always returns and frees its compiler context.  If
  the interpreter leaves an exception and a proper value, the result is \<open>false\<close>,
  \<open>backtrace()\<close> has a headline and one line for each frame of Ruby code whose line is known, from
  the innermost outwards, and \<open>error()\<close> is the text of the exception.  Otherwise the result is
  \<open>true\<close> and both texts are as before; this is so also when there is an exception and the value is
  undefined, as the interpreter reports a text that does not compile.  The contents of the stack
  array do not matter.  (The array of call frames has at least 32 places.)
\<close>

theorem executeCode_reports:
  assumes "my_vm vm = Some m" "mr_load_text R ''inproc-code'' code m = (undef, m')"
    and "length buff = BUFF_LEN" "11 \<le> length (mr_callinfo R m')"
  shows "\<exists>vm'. executeCode R buff code vm = Some (mr_exc R m' = None \<or> undef, vm') \<and>
    vm_contexts vm' = vm_contexts vm \<and>
    (case mr_exc R m' of
       Some exc \<Rightarrow>
         if undef then my_error vm' = my_error vm \<and> my_backtrace vm' = my_backtrace vm \<and> my_vm vm' = Some m'
         else my_backtrace vm' = trace_text R m' (mr_ciidx R exc m') (mr_lastpc R exc m') \<and>
           (my_error vm', my_vm vm') =
             (case mr_inspect R exc m' of (s, m'') \<Rightarrow> (case s of None \<Rightarrow> '''' | Some t \<Rightarrow> t, Some m''))
     | None \<Rightarrow> my_error vm' = my_error vm \<and> my_backtrace vm' = my_backtrace vm \<and> my_vm vm' = Some m')"
  using assms(1,2) output_backtrace_text [OF assms(3,4)]
  by (auto simp: executeCode_def execute_result_def getBacktrace_def Let_def split: option.splits prod.splits)

text \<open>
  An interpreter whose state is whether an exception is pending: the text \<open>raise\<close> raises, the text
  \<open>(\<close> does not compile, all others finish.
\<close>

definition sample_frame :: callinfo where
  "sample_frame = \<lparr>ci_proc = Some \<lparr>pr_body = Irep 0, pr_target_class = 1\<rparr>, ci_err = None, ci_pc = 5, ci_mid = 2, ci_target_class = 3\<rparr>"

definition sample_ruby :: "bool mruby" where
  "sample_ruby = \<lparr>mr_open = Some False, mr_define_module = (\<lambda>_ m. m), mr_define_class = (\<lambda>_ _ _ m. m),
     mr_define_const = (\<lambda>_ _ m. m), mr_gv_set = (\<lambda>_ _ m. m), mr_load_irep = (\<lambda>_ m. (False, m)),
     mr_load_text = (\<lambda>_ code m. if code = ''raise'' then (False, True) else if code = ''('' then (True, True) else (False, m)),
     mr_exc = (\<lambda>m. if m then Some 0 else None), mr_ciidx = (\<lambda>_ _. 0), mr_lastpc = (\<lambda>_ _. 4),
     mr_inspect = (\<lambda>_ m. (Some ''error'', m)), mr_callinfo = (\<lambda>_. replicate 32 sample_frame),
     mr_iseq = (\<lambda>_ _. 1), mr_filename = (\<lambda>_ _ _. Some ''a.rb''), mr_line = (\<lambda>_ pc _. uint pc),
     mr_sym2name = (\<lambda>_ _. Some ''go''), mr_class_name = (\<lambda>_ _. Some ''Car'')\<rparr>"

definition sample_vm :: "bool vm" where
  "sample_vm = \<lparr>my_vm = Some False, my_error = [], my_backtrace = [], vm_contexts = 0\<rparr>"

theorem executeCode_reports_witness:
  "\<exists>vm'. executeCode sample_ruby (replicate BUFF_LEN NUL) ''raise'' sample_vm = Some (False, vm') \<and>
    vm_contexts vm' = 0 \<and> my_backtrace vm' = trace_text sample_ruby True 0 4 \<and> my_error vm' = ''error'' \<and>
    my_vm vm' = Some True"
  using executeCode_reports [of sample_vm False sample_ruby "''raise''" False True "replicate BUFF_LEN NUL"]
  by (simp add: sample_vm_def sample_ruby_def)

lemma sample_trace: "trace_text sample_ruby True 0 4 = ''trace:'' @ [CHR 0x0A, CHR 0x09] @ ''[0] a.rb:3:in Car#go'' @ [CHR 0x0A]"
  by code_simp

text \<open>A text that does not compile is reported as a success.\<close>

lemma executeCode_ignores_syntax_errors:
  assumes "my_vm vm = Some m" "mr_load_text R ''inproc-code'' code m = (True, m')"
  shows "\<exists>vm'. executeCode R buff code vm = Some (True, vm') \<and> my_error vm' = my_error vm"
  using assms by (auto simp: executeCode_def execute_result_def)

text \<open>\<open>loadExtensions\<close> has a result only when it fails.\<close>

lemma loadExtensions_result: "loadExtensions R buff lib vm = Some (ok, vm') \<Longrightarrow> \<not> ok"
  by (auto simp: loadExtensions_def split: Option.bind_splits if_splits)

lemma executeFile_missing: "files name = None \<Longrightarrow> executeFile R buff files name vm = None"
  by (simp add: executeFile_def bind_eq_None_conv)

end
