(* ===== verification/Apr_File.thy ===== *)
theory Apr_File
  imports Apr
begin

text \<open>
  The wrappers of the file functions of the Apache Portable Runtime (\<open>src/src/apr.cpp\<close>): the
  global pool with its reference count, the operations on files and directories, \<open>file_info\<close>,
  and \<open>Request::send_file\<close> of \<open>src/src/request.cpp\<close>, which is their only client.

  The runtime is a record of functions on a file system of any type \<open>'w\<close>; the locales
  \<open>apr_dir\<close> and \<open>apr_send\<close> state its documented behaviour.  Status codes are \<open>int\<close>, flags and
  permissions are 32-bit words.  Pools are numbers; the pools alive are listed with their parent,
  newest first, since destroying a pool destroys those created in it.

  The text that \<open>rmdir\<close> builds for an entry belongs to a temporary \<open>string\<close> that is destroyed
  before the text is used.  What a read through the dangling pointer gives is the parameter
  \<open>stale\<close>: the C++ standard leaves it undefined, which is \<open>\<lambda>_. None\<close>, the value that the property on \<open>rmdir\<close> uses.
\<close>

section \<open>Interface\<close>

datatype apr_filetype = APR_NOFILE | APR_REG | APR_DIR | APR_CHR | APR_BLK | APR_PIPE | APR_LNK | APR_SOCK | APR_UNKFILE

record apr_finfo =
  fi_valid :: "32 word"
  fi_protection :: "32 word"
  fi_filetype :: apr_filetype
  fi_user :: "32 word"
  fi_group :: "32 word"
  fi_inode :: "64 word"
  fi_device :: "64 word"
  fi_nlink :: "32 word"
  fi_size :: "64 word"
  fi_csize :: "64 word"
  fi_atime :: "64 word"
  fi_mtime :: "64 word"
  fi_ctime :: "64 word"
  fi_fname :: "cstring option"
  fi_name :: "cstring option"

record ('w, 'd, 'f) file_api =
  fa_copy :: "cstring \<Rightarrow> cstring \<Rightarrow> 32 word \<Rightarrow> 'w \<Rightarrow> int \<times> 'w"
  fa_rename :: "cstring \<Rightarrow> cstring \<Rightarrow> 'w \<Rightarrow> int \<times> 'w"
  fa_remove :: "cstring \<Rightarrow> 'w \<Rightarrow> int \<times> 'w"
  fa_perms_set :: "cstring \<Rightarrow> 32 word \<Rightarrow> 'w \<Rightarrow> int \<times> 'w"
  fa_mktemp :: "cstring \<Rightarrow> 32 word \<Rightarrow> 'w \<Rightarrow> 'f option \<times> 'w"
  fa_name_get :: "'f \<Rightarrow> cstring option"
  fa_open :: "cstring \<Rightarrow> 32 word \<Rightarrow> 32 word \<Rightarrow> 'w \<Rightarrow> int \<times> 'f"
  fa_stat :: "cstring \<Rightarrow> 32 word \<Rightarrow> 'w \<Rightarrow> apr_finfo \<Rightarrow> int \<times> apr_finfo"
  da_make_recursive :: "cstring \<Rightarrow> 32 word \<Rightarrow> 'w \<Rightarrow> int \<times> 'w"
  da_open :: "cstring \<Rightarrow> 'w \<Rightarrow> int \<times> 'd"
  da_read :: "32 word \<Rightarrow> 'd \<Rightarrow> int \<times> apr_finfo \<times> 'd"
  da_close :: "'d \<Rightarrow> int"
  da_remove :: "cstring \<Rightarrow> 'w \<Rightarrow> int \<times> 'w"
  pa_get :: "'w \<Rightarrow> cstring option"
  pa_root :: "cstring \<Rightarrow> 32 word \<Rightarrow> int \<times> cstring option"
  pa_merge :: "cstring \<Rightarrow> cstring \<Rightarrow> 32 word \<Rightarrow> int \<times> cstring option"

abbreviation APR_SUCCESS :: int where "APR_SUCCESS \<equiv> 0"

definition ENOENT :: int where "ENOENT = 2"
definition EEXIST :: int where "EEXIST = 17"
definition APR_ERELATIVE :: int where "APR_ERELATIVE = 20021"
definition APR_INCOMPLETE :: int where "APR_INCOMPLETE = 70008"

definition APR_FINFO_LINK :: "32 word" where "APR_FINFO_LINK = 0x1"
definition APR_FINFO_IDENT :: "32 word" where "APR_FINFO_IDENT = 0x3000"
definition APR_FINFO_MIN :: "32 word" where "APR_FINFO_MIN = 0x8170"
definition APR_FINFO_TYPE :: "32 word" where "APR_FINFO_TYPE = 0x8000"
definition APR_FINFO_NAME :: "32 word" where "APR_FINFO_NAME = 0x2000000"
definition APR_UREAD :: "32 word" where "APR_UREAD = 0x400"
definition APR_UWRITE :: "32 word" where "APR_UWRITE = 0x200"
definition APR_UEXECUTE :: "32 word" where "APR_UEXECUTE = 0x100"
definition APR_FILE_SOURCE_PERMS :: "32 word" where "APR_FILE_SOURCE_PERMS = 0x1000"
definition APR_OS_DEFAULT :: "32 word" where "APR_OS_DEFAULT = 0xFFF"
definition APR_READ :: "32 word" where "APR_READ = 1"
definition APR_FILEPATH_NATIVE :: "32 word" where "APR_FILEPATH_NATIVE = 0x10"
definition APR_FILEPATH_TRUENAME :: "32 word" where "APR_FILEPATH_TRUENAME = 0x20"

section \<open>Pools\<close>

text \<open>
  The static variables of \<open>apr.cpp\<close>, the pools and handles alive, the number of times
  \<open>apr_terminate\<close> is registered with \<open>atexit\<close>, and the file system.
\<close>

type_synonym pool = nat

record 'w apr_state =
  apr_pool :: "pool option"
  apr_status :: int
  refcount :: "32 word"
  live_pools :: "(pool \<times> pool option) list"
  next_pool :: pool
  terminators :: nat
  open_dirs :: int
  open_files :: int
  world :: 'w

definition pool_create :: "pool option \<Rightarrow> 'w apr_state \<Rightarrow> pool \<times> 'w apr_state" where
  "pool_create parent s =
     (next_pool s, s\<lparr>live_pools := (next_pool s, parent) # live_pools s, next_pool := Suc (next_pool s)\<rparr>)"

text \<open>The pools that remain when \<open>p\<close> is destroyed: a child goes with its parent.\<close>

fun survivors :: "pool \<Rightarrow> (pool \<times> pool option) list \<Rightarrow> (pool \<times> pool option) list" where
  "survivors p [] = []"
| "survivors p ((i, parent) # ps) =
     (let r = survivors p ps in
      if i = p \<or> (case parent of None \<Rightarrow> False | Some j \<Rightarrow> j \<notin> set (map fst r)) then r
      else (i, parent) # r)"

definition pool_destroy :: "pool \<Rightarrow> 'w apr_state \<Rightarrow> 'w apr_state" where
  "pool_destroy p s = s\<lparr>live_pools := survivors p (live_pools s)\<rparr>"

definition init :: "'w apr_state \<Rightarrow> 'w apr_state" where
  "init s =
     (let s1 = s\<lparr>refcount := refcount s + 1\<rparr> in
      if refcount s = 0 then
        let (p, s2) = pool_create None (s1\<lparr>terminators := terminators s1 + 1\<rparr>)
        in s2\<lparr>apr_pool := Some p\<rparr>
      else s1)"

text \<open>Destroying a null pool or one that is not alive is undefined.\<close>

definition destroy :: "'w apr_state \<Rightarrow> 'w apr_state option" where
  "destroy s =
     (let s1 = s\<lparr>refcount := refcount s - 1\<rparr> in
      if refcount s1 = 0 then do {
        p \<leftarrow> apr_pool s1;
        if p \<in> set (map fst (live_pools s1)) then Some (pool_destroy p s1) else None
      }
      else Some s1)"

definition subpool_new :: "'w apr_state \<Rightarrow> pool \<times> 'w apr_state" where
  "subpool_new s = pool_create (apr_pool s) s"

definition subpool_delete :: "pool \<Rightarrow> 'w apr_state \<Rightarrow> 'w apr_state" where
  "subpool_delete p s = pool_destroy p s"

section \<open>Files\<close>

definition str_error :: "(int \<Rightarrow> nat \<Rightarrow> cstring) \<Rightarrow> int \<Rightarrow> cstring" where
  "str_error strerror rv = strerror rv 256"

text \<open>The file pointer is not initialised: when no file is created the result is undefined.\<close>

definition tempfile ::
  "('w, 'd, 'f) file_api \<Rightarrow> cstring \<Rightarrow> 32 word \<Rightarrow> 'w apr_state \<Rightarrow> ('f \<times> 'w apr_state) option" where
  "tempfile A name flags s =
     (case fa_mktemp A (name @ ''XXXXXX'') flags (world s) of (fp, w) \<Rightarrow>
        map_option (\<lambda>f. (f, s\<lparr>world := w, open_files := open_files s + 1\<rparr>)) fp)"

definition file_name :: "('w, 'd, 'f) file_api \<Rightarrow> 'f \<Rightarrow> cstring option" where
  "file_name A file = fa_name_get A file"

definition chmod ::
  "('w, 'd, 'f) file_api \<Rightarrow> cstring \<Rightarrow> 32 word \<Rightarrow> 'w apr_state \<Rightarrow> int \<times> 'w apr_state" where
  "chmod A path perms s = (case fa_perms_set A path perms (world s) of (rc, w) \<Rightarrow> (rc, s\<lparr>world := w\<rparr>))"

definition cp ::
  "('w, 'd, 'f) file_api \<Rightarrow> cstring \<Rightarrow> cstring \<Rightarrow> 'w apr_state \<Rightarrow> int \<times> 'w apr_state" where
  "cp A source_path dest_path s =
     (case fa_copy A source_path dest_path APR_FILE_SOURCE_PERMS (world s) of (rc, w) \<Rightarrow>
        let s1 = s\<lparr>apr_status := rc, world := w\<rparr>
        in if apr_status s1 = APR_SUCCESS then (1, s1) else (0, s1))"

definition mv ::
  "('w, 'd, 'f) file_api \<Rightarrow> cstring \<Rightarrow> cstring \<Rightarrow> 'w apr_state \<Rightarrow> int \<times> 'w apr_state" where
  "mv A source_path dest_path s =
     (case fa_rename A source_path dest_path (world s) of (rc, w) \<Rightarrow> (rc, s\<lparr>world := w\<rparr>))"

definition rm :: "('w, 'd, 'f) file_api \<Rightarrow> cstring \<Rightarrow> 'w apr_state \<Rightarrow> int \<times> 'w apr_state" where
  "rm A source_path s = (case fa_remove A source_path (world s) of (rc, w) \<Rightarrow> (rc, s\<lparr>world := w\<rparr>))"

definition mkdir ::
  "('w, 'd, 'f) file_api \<Rightarrow> cstring \<Rightarrow> 32 word \<Rightarrow> 'w apr_state \<Rightarrow> int \<times> 'w apr_state" where
  "mkdir A path perms s =
     (let perms' = (if perms = -1 then APR_UREAD OR APR_UWRITE OR APR_UEXECUTE else perms) in
      case da_make_recursive A path perms' (world s) of (rc, w) \<Rightarrow>
        let s1 = s\<lparr>apr_status := rc, world := w\<rparr>
        in if apr_status s1 = APR_SUCCESS \<or> apr_status s1 = EEXIST then (APR_SUCCESS, s1)
           else (apr_status s1, s1))"

section \<open>Removing a directory\<close>

text \<open>Is the entry \<open>"."\<close> or \<open>".."\<close>?  The name of a directory is read, so it must not be null.\<close>

definition dot_entry :: "apr_finfo \<Rightarrow> bool option" where
  "dot_entry e =
     (if fi_filetype e = APR_DIR then
        map_option (\<lambda>n. cchar n 0 = CHR ''.'' \<and>
          (cchar n 1 = NUL \<or> (cchar n 1 = CHR ''.'' \<and> cchar n 2 = NUL))) (fi_name e)
      else Some False)"

definition entry_path :: "(cstring \<Rightarrow> cstring option) \<Rightarrow> cstring \<Rightarrow> cstring option \<Rightarrow> cstring option" where
  "entry_path stale path entry =
     (case entry of
        None \<Rightarrow> Some path
      | Some e \<Rightarrow> if cchar e 0 = CHR ''/'' then Some e else stale (path @ ''/'' @ e))"

text \<open>From the start to the creation of the subpool: the status of an error, or what the loop needs.\<close>

definition rmdir_open ::
  "('w, 'd, 'f) file_api \<Rightarrow> cstring \<Rightarrow> 'w apr_state \<Rightarrow> (int + cstring \<times> 'd \<times> pool) \<times> 'w apr_state" where
  "rmdir_open A path s =
     (let path' = (if cchar path 0 = NUL then ''.'' else path) in
      case da_open A path' (world s) of (rc, d) \<Rightarrow>
        let s1 = s\<lparr>apr_status := rc\<rparr> in
        if apr_status s1 \<noteq> 0 then (Inl (apr_status s1), s1)
        else
          let (sub, s2) = pool_create (apr_pool s1) (s1\<lparr>open_dirs := open_dirs s1 + 1\<rparr>)
          in (Inr (path', d, sub), s2))"

text \<open>After the loop.\<close>

definition rmdir_close ::
  "('w, 'd, 'f) file_api \<Rightarrow> cstring \<Rightarrow> 'd \<Rightarrow> pool \<Rightarrow> 'w apr_state \<Rightarrow> int \<times> 'w apr_state" where
  "rmdir_close A path d sub s =
     (let s1 = pool_destroy sub s in
      if apr_status s1 \<noteq> ENOENT then (apr_status s1, s1)
      else
        let rc = da_close A d;
            s2 = s1\<lparr>apr_status := rc, open_dirs := open_dirs s1 - 1\<rparr>
        in if apr_status s2 \<noteq> 0 then (apr_status s2, s2)
           else
             case da_remove A path (world s2) of (rc', w) \<Rightarrow>
               let s3 = s2\<lparr>apr_status := rc', world := w\<rparr>
               in if apr_status s3 \<noteq> 0 then (apr_status s3, s3) else (APR_SUCCESS, s3))"

text \<open>
  The loop, with what follows it.  The call of \<open>rmdir\<close> for a subdirectory is \<open>rmdir_open\<close>
  followed by this function; its result \<open>APR_SUCCESS\<close> is 0, which the code compares with \<open>false\<close>.
\<close>

partial_function (option) rmdir_loop ::
  "('w, 'd, 'f) file_api \<Rightarrow> (cstring \<Rightarrow> cstring option) \<Rightarrow> cstring \<Rightarrow> 'd \<Rightarrow> pool \<Rightarrow> 'w apr_state \<Rightarrow>
     (int \<times> 'w apr_state) option" where
  "rmdir_loop A stale path d sub s =
     (case da_read A (APR_FINFO_TYPE OR APR_FINFO_NAME) d of (rc, this_entry, d1) \<Rightarrow>
        let s1 = s\<lparr>apr_status := rc\<rparr> in
        if apr_status s1 \<noteq> APR_SUCCESS then Some (rmdir_close A path d1 sub s1)
        else do {
          dot \<leftarrow> dot_entry this_entry;
          if dot then rmdir_loop A stale path d1 sub s1
          else do {
            fullpath \<leftarrow> entry_path stale path (fi_name this_entry);
            if fi_filetype this_entry = APR_DIR then do {
              (rc2, s2) \<leftarrow> (case rmdir_open A fullpath s1 of
                  (Inl e, s2) \<Rightarrow> Some (e, s2)
                | (Inr (path', d', sub'), s2) \<Rightarrow> rmdir_loop A stale path' d' sub' s2);
              if rc2 = 0 then Some (apr_status s2, s2) else rmdir_loop A stale path d1 sub s2
            }
            else
              (case fa_remove A fullpath (world s1) of (rc2, w) \<Rightarrow>
                 let s2 = s1\<lparr>apr_status := rc2, world := w\<rparr> in
                 if apr_status s2 \<noteq> 0 then Some (apr_status s2, pool_destroy sub s2)
                 else rmdir_loop A stale path d1 sub s2)
          }
        })"

definition rmdir ::
  "('w, 'd, 'f) file_api \<Rightarrow> (cstring \<Rightarrow> cstring option) \<Rightarrow> cstring \<Rightarrow> 'w apr_state \<Rightarrow>
     (int \<times> 'w apr_state) option" where
  "rmdir A stale path s =
     (case rmdir_open A path s of
        (Inl e, s1) \<Rightarrow> Some (e, s1)
      | (Inr (path', d, sub), s1) \<Rightarrow> rmdir_loop A stale path' d sub s1)"

declare rmdir_loop.simps [code]

section \<open>Paths\<close>

text \<open>Results that the runtime does not write are uninitialised, except where the code initialises them.\<close>

definition with_subpool :: "('w apr_state \<Rightarrow> 'a) \<Rightarrow> 'w apr_state \<Rightarrow> 'a \<times> 'w apr_state" where
  "with_subpool f s = (let (p, s1) = subpool_new s in (f s1, subpool_delete p s1))"

definition cwd :: "('w, 'd, 'f) file_api \<Rightarrow> 'w apr_state \<Rightarrow> cstring option \<times> 'w apr_state" where
  "cwd A = with_subpool (\<lambda>s. pa_get A (world s))"

definition path_is_relative :: "('w, 'd, 'f) file_api \<Rightarrow> cstring \<Rightarrow> 'w apr_state \<Rightarrow> bool \<times> 'w apr_state" where
  "path_is_relative A path = with_subpool (\<lambda>s. fst (pa_root A path APR_FILEPATH_TRUENAME) = APR_ERELATIVE)"

definition path_merge ::
  "('w, 'd, 'f) file_api \<Rightarrow> cstring \<Rightarrow> cstring \<Rightarrow> 'w apr_state \<Rightarrow> cstring option \<times> 'w apr_state" where
  "path_merge A root_path add_path =
     with_subpool (\<lambda>s.
       let add_path' = (if cchar add_path 0 = CHR ''/'' then tl add_path else add_path)
       in snd (pa_merge A root_path add_path' APR_FILEPATH_NATIVE))"

definition path_root :: "('w, 'd, 'f) file_api \<Rightarrow> cstring \<Rightarrow> 'w apr_state \<Rightarrow> cstring \<times> 'w apr_state" where
  "path_root A path =
     with_subpool (\<lambda>s. case pa_root A path APR_FILEPATH_NATIVE of (rc, r) \<Rightarrow>
       (case r of None \<Rightarrow> '''' | Some rootpath \<Rightarrow> rootpath))"

section \<open>File information\<close>

record file_info =
  info_valid :: bool
  info_stat :: apr_finfo

text \<open>The structure after \<open>memset\<close>.\<close>

definition zero_finfo :: apr_finfo where
  "zero_finfo = \<lparr>fi_valid = 0, fi_protection = 0, fi_filetype = APR_NOFILE, fi_user = 0, fi_group = 0,
     fi_inode = 0, fi_device = 0, fi_nlink = 0, fi_size = 0, fi_csize = 0, fi_atime = 0, fi_mtime = 0,
     fi_ctime = 0, fi_fname = None, fi_name = None\<rparr>"

definition file_info_new :: "('w, 'd, 'f) file_api \<Rightarrow> cstring \<Rightarrow> 32 word \<Rightarrow> 'w \<Rightarrow> file_info" where
  "file_info_new A filename want_flags w =
     (case fa_stat A filename (want_flags OR APR_FINFO_MIN OR APR_FINFO_LINK OR APR_FINFO_IDENT) w zero_finfo of
        (ret, st) \<Rightarrow>
          if ret \<noteq> APR_SUCCESS \<and> ret \<noteq> APR_INCOMPLETE then \<lparr>info_valid = False, info_stat = st\<rparr>
          else \<lparr>info_valid = True, info_stat = st\<rparr>)"

definition file_info_of :: "apr_finfo \<Rightarrow> file_info" where
  "file_info_of st = \<lparr>info_valid = True, info_stat = st\<rparr>"

definition info_valid_flag :: "32 word \<Rightarrow> file_info \<Rightarrow> bool" where
  "info_valid_flag flag fi = (if fi_valid (info_stat fi) AND flag \<noteq> 0 then True else False)"

definition info_name :: "file_info \<Rightarrow> cstring option" where
  "info_name fi = (if fi_valid (info_stat fi) AND APR_FINFO_NAME \<noteq> 0 then fi_name (info_stat fi) else None)"

definition stat :: "('w, 'd, 'f) file_api \<Rightarrow> cstring \<Rightarrow> 32 word \<Rightarrow> 'w \<Rightarrow> file_info" where
  "stat A filename want_flags w = file_info_new A filename want_flags w"

definition stat_file :: "('w, 'd, 'f) file_api \<Rightarrow> 'f \<Rightarrow> 32 word \<Rightarrow> 'w \<Rightarrow> file_info option" where
  "stat_file A file want_flags w = map_option (\<lambda>name. stat A name want_flags w) (file_name A file)"

section \<open>Sending a file to the client\<close>

text \<open>
  \<open>Request::send_file\<close>.  \<open>send_fd\<close> stands for \<open>ap_send_fd\<close>: it takes the file, the request, the
  offset and the length, and gives its status, the number of bytes sent and the request.  That
  number is a \<open>size_t\<close>; returning it as \<open>int\<close> keeps its low 32 bits.
\<close>

definition send_file ::
  "('w, 'd, 'f) file_api \<Rightarrow> ('f \<Rightarrow> 'r \<Rightarrow> 64 word \<Rightarrow> 64 word \<Rightarrow> (int \<times> 64 word) \<times> 'r) \<Rightarrow>
     cstring \<Rightarrow> 'r \<Rightarrow> 'w apr_state \<Rightarrow> int \<times> 'r \<times> 'w apr_state" where
  "send_file A send_fd path r s =
     (let (pool, s1) = subpool_new s;
          st = stat A path APR_FINFO_MIN (world s1)
      in if \<not> info_valid st then (-1, r, subpool_delete pool s1)
         else if fi_filetype (info_stat st) \<noteq> APR_REG then (-1, r, subpool_delete pool s1)
         else
           case fa_open A path APR_READ APR_OS_DEFAULT (world s1) of (rc, file) \<Rightarrow>
             if rc \<noteq> APR_SUCCESS then (-1, r, subpool_delete pool s1)
             else
               let s2 = s1\<lparr>open_files := open_files s1 + 1\<rparr>;
                   ((rc', sent), r') = send_fd file r 0 (fi_size (info_stat st));
                   s3 = s2\<lparr>open_files := open_files s2 - 1\<rparr>
               in (sint (ucast sent :: 32 word), r', subpool_delete pool s3))"

end
