(* ===== verification/Apr_File_Correct.thy ===== *)
theory Apr_File_Correct
  imports Apr_File
begin

text \<open>
  Properties of the file wrappers: the global pool lives exactly as long as \<open>init\<close> and
  \<open>destroy\<close> are nested, \<open>rmdir\<close> is defined for empty directories only,
  and \<open>send_file\<close> delivers a regular file.  The locales \<open>apr_dir\<close> and \<open>apr_send\<close> state what the
  runtime documents; both are interpreted on a file system kept as a list of paths.
\<close>

section \<open>Pools\<close>

text \<open>Every pool is younger than the pools listed after it, and its parent is one of them.\<close>

fun wf_pools :: "(pool \<times> pool option) list \<Rightarrow> bool" where
  "wf_pools [] \<longleftrightarrow> True"
| "wf_pools ((i, parent) # ps) \<longleftrightarrow>
     list_all (\<lambda>q. fst q < i) ps \<and>
     (case parent of None \<Rightarrow> True | Some j \<Rightarrow> j \<in> set (map fst ps)) \<and> wf_pools ps"

definition pools_ok :: "'w apr_state \<Rightarrow> bool" where
  "pools_ok s \<longleftrightarrow> wf_pools (live_pools s) \<and> list_all (\<lambda>q. fst q < next_pool s) (live_pools s) \<and>
     (case apr_pool s of None \<Rightarrow> True | Some p \<Rightarrow> p \<in> set (map fst (live_pools s)))"

lemma survivors_other: "wf_pools ps \<Longrightarrow> p \<notin> set (map fst ps) \<Longrightarrow> survivors p ps = ps"
  by (induction p ps rule: survivors.induct) (auto simp: Let_def split: option.splits)

text \<open>A pool that is created and destroyed leaves no trace but its number.\<close>

lemma survivors_new:
  assumes "pools_ok s"
  shows "survivors (next_pool s) ((next_pool s, parent) # live_pools s) = live_pools s"
proof -
  have "next_pool s \<notin> set (map fst (live_pools s))"
    using assms by (auto simp: pools_ok_def list_all_iff)
  then show ?thesis using assms by (simp add: pools_ok_def survivors_other)
qed

lemma pools_ok_create:
  assumes "pools_ok s" "parent = apr_pool s"
  shows "pools_ok (snd (pool_create parent s))"
  using assms by (auto simp: pools_ok_def pool_create_def list_all_iff split: option.splits)

lemma pools_ok_cong:
  "live_pools s' = live_pools s \<Longrightarrow> next_pool s' = next_pool s \<Longrightarrow> apr_pool s' = apr_pool s \<Longrightarrow>
     pools_ok s' = pools_ok s"
  by (simp add: pools_ok_def cong: option.case_cong)

section \<open>The life of the global pool\<close>

datatype apr_call = CallInit | CallDestroy

fun run_calls :: "apr_call list \<Rightarrow> 'w apr_state \<Rightarrow> 'w apr_state option" where
  "run_calls [] s = Some s"
| "run_calls (CallInit # cs) s = run_calls cs (init s)"
| "run_calls (CallDestroy # cs) s = destroy s \<bind> run_calls cs"

text \<open>The nesting after some calls, when no \<open>destroy\<close> comes before its \<open>init\<close>.\<close>

fun nesting :: "nat \<Rightarrow> apr_call list \<Rightarrow> nat option" where
  "nesting d [] = Some d"
| "nesting d (CallInit # cs) = nesting (Suc d) cs"
| "nesting d (CallDestroy # cs) = (case d of 0 \<Rightarrow> None | Suc d' \<Rightarrow> nesting d' cs)"

text \<open>The state between two calls, \<open>d\<close> deep.\<close>

definition held :: "nat \<Rightarrow> 'w apr_state \<Rightarrow> bool" where
  "held d s \<longleftrightarrow> refcount s = of_nat d \<and>
     (if d = 0 then live_pools s = [] else \<exists>p. apr_pool s = Some p \<and> live_pools s = [(p, None)])"

lemma of_nat_32_eq_0: "n < 2 ^ 32 \<Longrightarrow> (of_nat n :: 32 word) = 0 \<longleftrightarrow> n = 0"
  by (auto simp: word_of_nat_eq_0_iff dvd_eq_mod_eq_0)

lemma held_init:
  assumes "held d s" "d < 2 ^ 32"
  shows "held (Suc d) (init s)"
  using assms of_nat_32_eq_0 [of d]
  by (auto simp: held_def init_def pool_create_def Let_def add.commute)

lemma held_destroy:
  assumes "held (Suc d) s" "d < 2 ^ 32"
  shows "\<exists>s'. destroy s = Some s' \<and> held d s'"
  using assms of_nat_32_eq_0 [of d]
  by (auto simp: held_def destroy_def pool_destroy_def Let_def)

lemma held_run:
  assumes "held d s" "nesting d cs = Some n" "d + length cs < 2 ^ 32"
  shows "\<exists>s'. run_calls cs s = Some s' \<and> held n s'"
  using assms
proof (induction cs arbitrary: d s)
  case (Cons c cs)
  show ?case
  proof (cases c)
    case CallInit
    then show ?thesis using Cons.IH [OF held_init [OF Cons.prems(1)]] Cons.prems by simp
  next
    case CallDestroy
    then obtain d' where d: "d = Suc d'" "nesting d' cs = Some n"
      using Cons.prems(2) by (auto split: nat.splits)
    then obtain s' where "destroy s = Some s'" "held d' s'"
      using held_destroy [of d' s] Cons.prems by auto
    then show ?thesis using Cons.IH [of d' s'] d Cons.prems(3) CallDestroy by simp
  qed
qed simp

lemma nesting_le: "nesting d cs = Some n \<Longrightarrow> n \<le> d + length cs"
proof (induction cs arbitrary: d)
  case (Cons c cs)
  then show ?case by (cases c) (force split: nat.splits)+
qed simp

definition apr_start :: "'w \<Rightarrow> 'w apr_state" where
  "apr_start w = \<lparr>apr_pool = None, apr_status = 0, refcount = 0, live_pools = [], next_pool = 1,
     terminators = 0, open_dirs = 0, open_files = 0, world = w\<rparr>"

text \<open>
  In a program that never calls \<open>destroy\<close> before the matching \<open>init\<close>, no call of
  \<open>destroy\<close> touches a pool that is not alive.  While \<open>n > 0\<close> calls of \<open>init\<close> are open, \<open>pool()\<close>
  gives a pool that is alive, and it is the only one; when all are closed, none is left.
\<close>

lemma global_pool_alive:
  assumes "nesting 0 cs = Some n" "length cs < 2 ^ 32"
  shows "\<exists>s. run_calls cs (apr_start w) = Some s \<and> unat (refcount s) = n \<and>
    (if n = 0 then live_pools s = [] else \<exists>p. apr_pool s = Some p \<and> live_pools s = [(p, None)])"
proof -
  have start: "held 0 (apr_start w)" by (simp add: held_def apr_start_def)
  obtain s where s: "run_calls cs (apr_start w) = Some s" "held n s"
    using held_run [OF start assms(1)] assms(2) by auto
  have "n < 2 ^ 32" using nesting_le [OF assms(1)] assms(2) by simp
  then show ?thesis using s by (auto simp: held_def unat_of_nat)
qed

text \<open>A \<open>destroy\<close> too many makes the next \<open>init\<close> skip the creation of the pool.\<close>

lemma unmatched_destroy:
  "map_option (\<lambda>s. (refcount s, apr_pool s)) (run_calls [CallDestroy, CallInit] (apr_start w)) = Some (0, None)"
  by (simp add: init_def destroy_def apr_start_def)

section \<open>Directories\<close>

text \<open>
  \<open>listing w p\<close> is the sequence of entries of the directory \<open>p\<close>, if \<open>p\<close> is a directory that can be
  read; \<open>rest d\<close> are the entries an open directory has still to give.  Reading past the last one
  gives \<open>ENOENT\<close>.  Removing an entry of a directory leaves that directory in place, and the
  removal of a file never removes a directory.
\<close>

locale apr_dir =
  fixes A :: "('w, 'd, 'f) file_api"
    and listing :: "'w \<Rightarrow> cstring \<Rightarrow> apr_finfo list option"
    and rest :: "'d \<Rightarrow> apr_finfo list"
  assumes open_ok: "listing w p = Some es \<Longrightarrow> \<exists>d. da_open A p w = (0, d) \<and> rest d = es"
    and open_err: "listing w p = None \<Longrightarrow> fst (da_open A p w) \<noteq> 0"
    and read_entry: "rest d = e # es \<Longrightarrow> \<exists>d'. da_read A flags d = (0, e, d') \<and> rest d' = es"
    and read_end: "rest d = [] \<Longrightarrow> fst (da_read A flags d) = ENOENT"
    and close_ok: "da_close A d = 0"
    and dir_removed: "da_remove A p w = (0, w') \<Longrightarrow> listing w' p = None"
    and dir_kept: "da_remove A (p @ ''/'' @ n) w = (0, w') \<Longrightarrow> CHR ''/'' \<notin> set n \<Longrightarrow> n \<noteq> ''.'' \<Longrightarrow>
      n \<noteq> ''..'' \<Longrightarrow> listing w p \<noteq> None \<Longrightarrow> listing w' p \<noteq> None"
    and file_removal: "fa_remove A q w = (rc, w') \<Longrightarrow> listing w p \<noteq> None \<Longrightarrow> listing w' p \<noteq> None"

definition is_dot :: "apr_finfo \<Rightarrow> bool" where
  "is_dot e \<longleftrightarrow> fi_filetype e = APR_DIR \<and> (fi_name e = Some ''.'' \<or> fi_name e = Some ''..'')"

text \<open>The names a directory can hold.\<close>

definition named_entry :: "apr_finfo \<Rightarrow> bool" where
  "named_entry e \<longleftrightarrow> (case fi_name e of None \<Rightarrow> False | Some n \<Rightarrow> n \<noteq> '''' \<and> NUL \<notin> set n \<and> CHR ''/'' \<notin> set n)"

definition flat_entry :: "apr_finfo \<Rightarrow> bool" where
  "flat_entry e \<longleftrightarrow> named_entry e \<and> (is_dot e \<or> fi_filetype e \<noteq> APR_DIR)"

abbreviation sub_path :: "cstring \<Rightarrow> apr_finfo \<Rightarrow> cstring" where
  "sub_path path e \<equiv> path @ ''/'' @ the (fi_name e)"

text \<open>The reference: remove the files in order, up to the first that cannot be removed.\<close>

fun remove_files :: "('w, 'd, 'f) file_api \<Rightarrow> cstring \<Rightarrow> apr_finfo list \<Rightarrow> 'w \<Rightarrow> int \<times> 'w" where
  "remove_files A path [] w = (0, w)"
| "remove_files A path (e # es) w =
     (if is_dot e then remove_files A path es w
      else case fa_remove A (sub_path path e) w of (rc, w') \<Rightarrow>
        if rc \<noteq> 0 then (rc, w') else remove_files A path es w')"

lemma cchar_zero: "n \<noteq> '''' \<Longrightarrow> cchar n 0 = hd n"
  by (cases n) simp_all

lemma dots_iff:
  assumes "NUL \<notin> set n"
  shows "cchar n 0 = CHR ''.'' \<and> (cchar n 1 = NUL \<or> (cchar n 1 = CHR ''.'' \<and> cchar n 2 = NUL)) \<longleftrightarrow>
    n = ''.'' \<or> n = ''..''"
proof -
  have end1: "cchar n i = NUL \<longleftrightarrow> length n \<le> i" for i
    using assms by (metis cchar_end cchar_in linorder_not_less nth_mem)
  show ?thesis
    unfolding end1 by (cases n; cases "tl n"; cases "tl (tl n)") (auto simp: cchar_def)
qed

lemma dot_entry_named:
  assumes "named_entry e"
  shows "dot_entry e = Some (is_dot e)"
proof -
  obtain n where n: "fi_name e = Some n" "NUL \<notin> set n"
    using assms by (auto simp: named_entry_def split: option.splits)
  show ?thesis using dots_iff [OF n(2)] by (simp only: dot_entry_def is_dot_def n(1)) simp
qed

lemma entry_path_named:
  assumes "named_entry e"
  shows "entry_path stale path (fi_name e) = stale (sub_path path e)"
proof -
  obtain n where "fi_name e = Some n" "n \<noteq> []" "CHR ''/'' \<notin> set n"
    using assms by (auto simp: named_entry_def split: option.splits)
  then show ?thesis by (cases n) (auto simp: entry_path_def)
qed

context apr_dir
begin

text \<open>One turn of the loop.\<close>

lemma loop_dot:
  assumes "rest d = e # es" "named_entry e" "is_dot e"
  shows "\<exists>d'. rest d' = es \<and>
    rmdir_loop A stale path d sub s = rmdir_loop A stale path d' sub (s\<lparr>apr_status := 0\<rparr>)"
proof -
  obtain d' where "da_read A (APR_FINFO_TYPE OR APR_FINFO_NAME) d = (0, e, d')" "rest d' = es"
    using read_entry [OF assms(1)] by blast
  then show ?thesis
    using assms(2,3) by (subst rmdir_loop.simps) (auto simp: dot_entry_named)
qed

lemma loop_file:
  assumes "rest d = e # es" "named_entry e" "fi_filetype e \<noteq> APR_DIR"
    and "fa_remove A (sub_path path e) (world s) = (rc, w)"
  shows "\<exists>d'. rest d' = es \<and> rmdir_loop A Some path d sub s =
    (let s' = s\<lparr>apr_status := rc, world := w\<rparr>
     in if rc \<noteq> 0 then Some (rc, pool_destroy sub s') else rmdir_loop A Some path d' sub s')"
proof -
  obtain d' where "da_read A (APR_FINFO_TYPE OR APR_FINFO_NAME) d = (0, e, d')" "rest d' = es"
    using read_entry [OF assms(1)] by blast
  then show ?thesis
    using assms(2-4) by (subst rmdir_loop.simps) (auto simp: dot_entry_named is_dot_def entry_path_named Let_def)
qed

lemma loop_subdirectory:
  assumes "rest d = e # es" "named_entry e" "fi_filetype e = APR_DIR" "\<not> is_dot e"
    and "rmdir A Some (sub_path path e) (s\<lparr>apr_status := 0\<rparr>) = Some (0, s')"
  shows "rmdir_loop A Some path d sub s = Some (apr_status s', s')"
proof -
  obtain d' where "da_read A (APR_FINFO_TYPE OR APR_FINFO_NAME) d = (0, e, d')"
    using read_entry [OF assms(1)] by blast
  then show ?thesis
    using assms(2-5) unfolding rmdir_def
    by (subst rmdir_loop.simps) (auto simp: dot_entry_named entry_path_named split: prod.splits sum.splits)
qed

lemma loop_end:
  assumes "rest d = []" "da_remove A path (world s) = (rc, w)"
  shows "rmdir_loop A stale path d sub s =
    Some (rc, pool_destroy sub s\<lparr>apr_status := rc, open_dirs := open_dirs s - 1, world := w\<rparr>)"
proof -
  obtain e d' where "da_read A (APR_FINFO_TYPE OR APR_FINFO_NAME) d = (ENOENT, e, d')"
    using read_end [OF assms(1)] by (metis prod.collapse)
  then show ?thesis using assms(2)
    by (subst rmdir_loop.simps)
      (auto simp: rmdir_close_def pool_destroy_def ENOENT_def close_ok Let_def split: prod.splits)
qed

text \<open>The loop over entries that are files, \<open>"."\<close> or \<open>".."\<close>.\<close>

lemma loop_flat:
  assumes "rest d = pre @ es" "list_all flat_entry pre" "remove_files A path pre (world s) = (rc, w)"
  shows "if rc \<noteq> 0
    then rmdir_loop A Some path d sub s = Some (rc, pool_destroy sub (s\<lparr>apr_status := rc, world := w\<rparr>))
    else \<exists>d' rc'. rest d' = es \<and> rmdir_loop A Some path d sub s =
      rmdir_loop A Some path d' sub (s\<lparr>apr_status := rc', world := w\<rparr>)"
  using assms
proof (induction pre arbitrary: d s)
  case Nil
  then have "rest d = es \<and> s = s\<lparr>apr_status := apr_status s, world := w\<rparr> \<and> rc = 0" by simp
  then show ?case by metis
next
  case (Cons e pre)
  have e: "named_entry e" "rest d = e # pre @ es" using Cons.prems by (simp_all add: flat_entry_def)
  show ?case
  proof (cases "is_dot e")
    case True
    obtain d1 where d1: "rest d1 = pre @ es"
        "rmdir_loop A Some path d sub s = rmdir_loop A Some path d1 sub (s\<lparr>apr_status := 0\<rparr>)"
      using loop_dot [OF e(2,1) True] by blast
    show ?thesis using Cons.IH [OF d1(1), of "s\<lparr>apr_status := 0\<rparr>"] Cons.prems True d1(2)
      by (cases "rc = 0") auto
  next
    case False
    then have plain: "fi_filetype e \<noteq> APR_DIR" using Cons.prems(2) by (simp add: flat_entry_def)
    obtain rc1 w1 where rm: "fa_remove A (sub_path path e) (world s) = (rc1, w1)" by fastforce
    obtain d1 where d1: "rest d1 = pre @ es" "rmdir_loop A Some path d sub s =
        (let s' = s\<lparr>apr_status := rc1, world := w1\<rparr>
         in if rc1 \<noteq> 0 then Some (rc1, pool_destroy sub s') else rmdir_loop A Some path d1 sub s')"
      using loop_file [OF e(2,1) plain rm] by blast
    show ?thesis
    proof (cases "rc1 = 0")
      case True
      then show ?thesis
        using Cons.IH [OF d1(1), of "s\<lparr>apr_status := rc1, world := w1\<rparr>"] Cons.prems rm d1(2) False
        by (cases "rc = 0") auto
    next
      case fails: False
      then have "rc = rc1 \<and> w = w1" using Cons.prems(3) rm False by auto
      then show ?thesis using d1(2) fails by (simp add: Let_def)
    qed
  qed
qed

lemma rmdir_open_ok:
  assumes "listing (world s) path = Some es" "path \<noteq> ''''" "NUL \<notin> set path" "pools_ok s"
  obtains d s1 where "rmdir_open A path s = (Inr (path, d, next_pool s), s1)" "rest d = es" "world s1 = world s"
    "open_dirs s1 = open_dirs s + 1" "survivors (next_pool s) (live_pools s1) = live_pools s"
    "length (live_pools s1) = Suc (length (live_pools s))" "pools_ok s1"
proof -
  obtain d where d: "da_open A path (world s) = (0, d)" "rest d = es" using open_ok [OF assms(1)] by blast
  define s0 where "s0 = s\<lparr>apr_status := 0, open_dirs := open_dirs s + 1\<rparr>"
  have ok: "pools_ok s0" using assms(4) pools_ok_cong [of s0 s] by (simp add: s0_def)
  have "cchar path 0 \<noteq> NUL" using assms(2,3) by (metis cchar_zero hd_in_set)
  then have "rmdir_open A path s = (Inr (path, d, next_pool s), snd (pool_create (apr_pool s0) s0))"
    using d(1) by (simp add: rmdir_open_def pool_create_def s0_def)
  then show thesis
    using that [of d "snd (pool_create (apr_pool s0) s0)"] d(2) survivors_new [OF assms(4)] pools_ok_create [OF ok]
    by (simp add: pool_create_def s0_def)
qed

lemma rmdir_flat:
  assumes "listing (world s) path = Some es" "list_all flat_entry es"
    and "path \<noteq> ''''" "NUL \<notin> set path" "pools_ok s" "remove_files A path es (world s) = (rc, w)"
  shows "\<exists>rc' s'. rmdir A Some path s = Some (rc', s') \<and> apr_status s' = rc' \<and> live_pools s' = live_pools s \<and>
    (if rc \<noteq> 0 then rc' = rc \<and> world s' = w \<and> open_dirs s' = open_dirs s + 1
     else da_remove A path w = (rc', world s') \<and> open_dirs s' = open_dirs s)"
proof -
  obtain d s1 where s1: "rmdir_open A path s = (Inr (path, d, next_pool s), s1)" "rest d = es"
      "world s1 = world s" "open_dirs s1 = open_dirs s + 1"
      "survivors (next_pool s) (live_pools s1) = live_pools s"
    using rmdir_open_ok [OF assms(1,3-5)] by blast
  note loop = loop_flat [of d es "[]" path s1 rc w "next_pool s"]
  show ?thesis
  proof (cases "rc = 0")
    case True
    then obtain d' rc1 where "rest d' = []" "rmdir_loop A Some path d (next_pool s) s1 =
        rmdir_loop A Some path d' (next_pool s) (s1\<lparr>apr_status := rc1, world := w\<rparr>)"
      using loop assms(2,6) s1(2,3) by auto
    moreover obtain rc2 w2 where "da_remove A path w = (rc2, w2)" by fastforce
    ultimately show ?thesis
      using loop_end [of d' path "s1\<lparr>apr_status := rc1, world := w\<rparr>" rc2 w2] s1 True
      by (simp add: rmdir_def pool_destroy_def)
  next
    case False
    then show ?thesis using loop assms(2,6) s1 by (simp add: rmdir_def pool_destroy_def)
  qed
qed

text \<open>
  Where the dangling pointer reads nothing, \<open>rmdir\<close> is defined only for directories without
  entries of their own.
\<close>

lemma loop_undefined:
  assumes "rest d = es" "list_all named_entry es"
  shows "rmdir_loop A (\<lambda>_. None) path d sub s = None \<longleftrightarrow> \<not> list_all is_dot es"
  using assms
proof (induction es arbitrary: d s)
  case Nil
  then show ?case using loop_end [of d path s] by (cases "da_remove A path (world s)") simp
next
  case (Cons e es)
  have e: "named_entry e" using Cons.prems by simp
  show ?case
  proof (cases "is_dot e")
    case True
    obtain d' where "rest d' = es" "rmdir_loop A (\<lambda>_. None) path d sub s =
        rmdir_loop A (\<lambda>_. None) path d' sub (s\<lparr>apr_status := 0\<rparr>)"
      using loop_dot [OF Cons.prems(1) e True] by blast
    then show ?thesis using Cons.IH [of d'] Cons.prems(2) True by simp
  next
    case False
    obtain d' where "da_read A (APR_FINFO_TYPE OR APR_FINFO_NAME) d = (0, e, d')"
      using read_entry [OF Cons.prems(1)] by blast
    then show ?thesis using False e
      by (subst rmdir_loop.simps) (simp add: dot_entry_named entry_path_named)
  qed
qed

lemma rmdir_undefined:
  assumes "listing (world s) path = Some es" "list_all named_entry es" "path \<noteq> []" "NUL \<notin> set path" "pools_ok s"
  shows "rmdir A (\<lambda>_. None) path s = None \<longleftrightarrow> \<not> list_all is_dot es"
proof -
  obtain d s1 where "rmdir_open A path s = (Inr (path, d, next_pool s), s1)" "rest d = es"
    using rmdir_open_ok [OF assms(1,3-5)] by blast
  then show ?thesis using loop_undefined [OF _ assms(2)] by (simp add: rmdir_def)
qed

lemma loop_dots:
  assumes "rest d = es" "list_all named_entry es" "list_all is_dot es" "da_remove A path (world s) = (rc, w)"
  shows "rmdir_loop A stale path d sub s =
    Some (rc, pool_destroy sub s\<lparr>apr_status := rc, open_dirs := open_dirs s - 1, world := w\<rparr>)"
  using assms
proof (induction es arbitrary: d s)
  case Nil
  then show ?case using loop_end by blast
next
  case (Cons e es)
  have e: "named_entry e" "is_dot e" using Cons.prems(2,3) by simp_all
  obtain d' where d': "rest d' = es" "rmdir_loop A stale path d sub s = rmdir_loop A stale path d' sub (s\<lparr>apr_status := 0\<rparr>)"
    using loop_dot [OF Cons.prems(1)] e by blast
  then show ?case using Cons.IH [of d' "s\<lparr>apr_status := 0\<rparr>"] Cons.prems by (simp add: pool_destroy_def)
qed

lemma rmdir_empty:
  assumes "listing (world s) path = Some es" "list_all named_entry es" "list_all is_dot es"
    and "path \<noteq> []" "NUL \<notin> set path" "pools_ok s" "da_remove A path (world s) = (rc, w)"
  shows "\<exists>s'. rmdir A stale path s = Some (rc, s') \<and> world s' = w \<and> apr_status s' = rc \<and>
    live_pools s' = live_pools s \<and> open_dirs s' = open_dirs s"
proof -
  obtain d s1 where "rmdir_open A path s = (Inr (path, d, next_pool s), s1)" "rest d = es" "world s1 = world s"
      "open_dirs s1 = open_dirs s + 1" "survivors (next_pool s) (live_pools s1) = live_pools s"
    using rmdir_open_ok [OF assms(1,4-6)] by blast
  then show ?thesis using loop_dots [OF _ assms(2,3), of d path s1 rc w stale "next_pool s"] assms(7)
    by (simp add: rmdir_def pool_destroy_def)
qed

lemma remove_files_keeps:
  "remove_files A q es w = (rc, w') \<Longrightarrow> listing w p \<noteq> None \<Longrightarrow> listing w' p \<noteq> None"
  by (induction es arbitrary: w) (auto dest: file_removal split: if_splits prod.splits)

end

section \<open>A file system of paths\<close>

text \<open>
  The interface on a list of nodes: directories, and files with their bytes, by path.  An open
  directory is the list of entries not yet read, an open file is its bytes.
\<close>

datatype node = Dir | File "byte list"

type_synonym tree = "(cstring \<times> node) list"

definition entry_of :: "apr_filetype \<Rightarrow> cstring \<Rightarrow> apr_finfo" where
  "entry_of ty n = zero_finfo\<lparr>fi_valid := APR_FINFO_TYPE OR APR_FINFO_NAME, fi_filetype := ty, fi_name := Some n\<rparr>"

definition node_type :: "node \<Rightarrow> apr_filetype" where
  "node_type x = (case x of Dir \<Rightarrow> APR_DIR | File bs \<Rightarrow> APR_REG)"

text \<open>The nodes directly below a directory.\<close>

definition children :: "tree \<Rightarrow> cstring \<Rightarrow> apr_finfo list" where
  "children w p = map (\<lambda>(q, x). entry_of (node_type x) (drop (length p + 1) q))
     (filter (\<lambda>(q, x). take (length p + 1) q = p @ ''/'' \<and> CHR ''/'' \<notin> set (drop (length p + 1) q)) w)"

definition tree_listing :: "tree \<Rightarrow> cstring \<Rightarrow> apr_finfo list option" where
  "tree_listing w p =
     (if map_of w p = Some Dir then Some (entry_of APR_DIR ''.'' # entry_of APR_DIR ''..'' # children w p) else None)"

definition tree_remove :: "cstring \<Rightarrow> tree \<Rightarrow> tree" where
  "tree_remove p w = filter (\<lambda>(q, x). q \<noteq> p) w"

text \<open>\<open>ENOTDIR\<close> is 20, \<open>EISDIR\<close> 21, \<open>ENOTEMPTY\<close> 39, \<open>EOVERFLOW\<close> 75.\<close>

definition tree_api :: "(tree, apr_finfo list, byte list) file_api" where
  "tree_api = \<lparr>
     fa_copy = (\<lambda>p q perms w. case map_of w p of Some (File bs) \<Rightarrow> (0, (q, File bs) # tree_remove q w) | _ \<Rightarrow> (ENOENT, w)),
     fa_rename = (\<lambda>p q w. case map_of w p of Some x \<Rightarrow> (0, (q, x) # tree_remove q (tree_remove p w)) | None \<Rightarrow> (ENOENT, w)),
     fa_remove = (\<lambda>p w. case map_of w p of Some (File bs) \<Rightarrow> (0, tree_remove p w) | Some Dir \<Rightarrow> (21, w) | None \<Rightarrow> (ENOENT, w)),
     fa_perms_set = (\<lambda>p perms w. (if map_of w p = None then ENOENT else 0, w)),
     fa_mktemp = (\<lambda>p flags w. (Some [], (p, File []) # w)),
     fa_name_get = (\<lambda>f. None),
     fa_open = (\<lambda>p flags perms w. case map_of w p of Some (File bs) \<Rightarrow> (0, bs) | _ \<Rightarrow> (ENOENT, [])),
     fa_stat = (\<lambda>p flags w fi. case map_of w p of
         Some (File bs) \<Rightarrow>
           if length bs < 2 ^ 63 then (0, fi\<lparr>fi_valid := flags, fi_filetype := APR_REG, fi_size := of_nat (length bs)\<rparr>)
           else (75, fi)
       | Some Dir \<Rightarrow> (0, fi\<lparr>fi_valid := flags, fi_filetype := APR_DIR\<rparr>)
       | None \<Rightarrow> (ENOENT, fi)),
     da_make_recursive = (\<lambda>p perms w. if map_of w p = None then (0, (p, Dir) # w) else (EEXIST, w)),
     da_open = (\<lambda>p w. case tree_listing w p of Some es \<Rightarrow> (0, es) | None \<Rightarrow> (20, [])),
     da_read = (\<lambda>flags d. case d of [] \<Rightarrow> (ENOENT, zero_finfo, []) | e # es \<Rightarrow> (0, e, es)),
     da_close = (\<lambda>d. 0),
     da_remove = (\<lambda>p w. if map_of w p \<noteq> Some Dir then (20, w)
       else if children w p \<noteq> [] then (39, w) else (0, tree_remove p w)),
     pa_get = (\<lambda>w. Some ''/''),
     pa_root = (\<lambda>p flags. if take 1 p = ''/'' then (0, Some ''/'') else (APR_ERELATIVE, None)),
     pa_merge = (\<lambda>p q flags. (0, Some (p @ ''/'' @ q))) \<rparr>"

lemma map_of_tree_remove: "map_of (tree_remove p w) q = (if q = p then None else map_of w q)"
  by (induction w) (auto simp: tree_remove_def)

interpretation tree: apr_dir tree_api tree_listing "\<lambda>d. d"
proof unfold_locales
  fix p n :: cstring and w w' :: tree
  assume "da_remove tree_api (p @ ''/'' @ n) w = (0, w')" "tree_listing w p \<noteq> None"
  then show "tree_listing w' p \<noteq> None"
    by (auto simp: tree_api_def tree_listing_def map_of_tree_remove split: if_splits)
qed (auto simp: tree_api_def tree_listing_def map_of_tree_remove ENOENT_def
    split: option.splits list.splits node.splits if_splits)

lemmas tree_eval = tree_listing_def children_def entry_of_def node_type_def zero_finfo_def tree_remove_def
  tree_api_def flat_entry_def named_entry_def is_dot_def pools_ok_def apr_start_def

definition sample_tree :: tree where
  "sample_tree = [(''a'', Dir), (''a/f'', File [1]), (''a/b'', Dir), (''a/g'', File []), (''a/b/h'', File [2])]"

text \<open>
  Claim C38.  \<open>rmdir\<close> works on empty directories only.  A directory whose only entries are \<open>"."\<close> and
  \<open>".."\<close> is removed, with the status of that removal as the result; no pool and no directory is left
  open.  For every other directory the behaviour is undefined: at the first entry, file or
  subdirectory, the function uses the text of a temporary string that has been destroyed.
\<close>

theorem rmdir_empty_or_undefined:
  assumes "apr_dir A listing rest" "listing (world s) path = Some es" "list_all named_entry es"
    and "path \<noteq> []" "NUL \<notin> set path" "pools_ok s" "da_remove A path (world s) = (rc, w)"
  shows "if list_all is_dot es
    then \<exists>s'. rmdir A (\<lambda>_. None) path s = Some (rc, s') \<and> world s' = w \<and> apr_status s' = rc \<and>
      live_pools s' = live_pools s \<and> open_dirs s' = open_dirs s
    else rmdir A (\<lambda>_. None) path s = None"
  using apr_dir.rmdir_empty [OF assms(1-3) _ assms(4-7)] apr_dir.rmdir_undefined [OF assms(1-6)]
  by (cases "list_all is_dot es") simp_all

theorem rmdir_empty_or_undefined_witness:
  "(\<exists>s'. rmdir tree_api (\<lambda>_. None) ''e'' (apr_start [(''e'', Dir)]) = Some (0, s') \<and> world s' = [] \<and> open_dirs s' = 0) \<and>
   rmdir tree_api (\<lambda>_. None) ''a/b'' (apr_start sample_tree) = None"
proof
  have "tree_listing (world (apr_start [(''e'', Dir)])) ''e'' = Some [entry_of APR_DIR ''.'', entry_of APR_DIR ''..'']"
    "list_all named_entry [entry_of APR_DIR ''.'', entry_of APR_DIR ''..'']"
    "da_remove tree_api ''e'' (world (apr_start [(''e'', Dir)])) = (0, [])" "pools_ok (apr_start [(''e'', Dir)])"
    by (simp_all add: tree_eval)
  from rmdir_empty_or_undefined [OF tree.apr_dir_axioms this(1,2) _ _ this(4,3)]
  show "\<exists>s'. rmdir tree_api (\<lambda>_. None) ''e'' (apr_start [(''e'', Dir)]) = Some (0, s') \<and> world s' = [] \<and> open_dirs s' = 0"
    by (auto simp: entry_of_def is_dot_def zero_finfo_def apr_start_def)
  have "tree_listing (world (apr_start sample_tree)) ''a/b'' =
      Some [entry_of APR_DIR ''.'', entry_of APR_DIR ''..'', entry_of APR_REG ''h'']"
    "list_all named_entry [entry_of APR_DIR ''.'', entry_of APR_DIR ''..'', entry_of APR_REG ''h'']"
    "da_remove tree_api ''a/b'' (world (apr_start sample_tree)) = (39, sample_tree)" "pools_ok (apr_start sample_tree)"
    by (simp_all add: tree_eval sample_tree_def)
  from rmdir_empty_or_undefined [OF tree.apr_dir_axioms this(1,2) _ _ this(4,3)]
  show "rmdir tree_api (\<lambda>_. None) ''a/b'' (apr_start sample_tree) = None"
    by (simp add: entry_of_def is_dot_def zero_finfo_def)
qed

text \<open>
  What the loop was meant to do, on a run in which the dangling pointer still reads the text of the
  entry (\<open>stale\<close> is \<open>Some\<close>): a directory without subdirectories loses its files in order and is then
  removed, or the call stops at the first file that cannot be removed.
\<close>

lemma rmdir_flat_directory:
  assumes "apr_dir A listing rest" "listing (world s) path = Some es" "list_all flat_entry es"
    and "path \<noteq> ''''" "NUL \<notin> set path" "pools_ok s" "remove_files A path es (world s) = (rc, w)"
  shows "\<exists>rc' s'. rmdir A Some path s = Some (rc', s') \<and> live_pools s' = live_pools s \<and>
    (if rc \<noteq> 0 then rc' = rc \<and> world s' = w \<and> open_dirs s' = open_dirs s + 1
     else da_remove A path w = (rc', world s') \<and> open_dirs s' = open_dirs s)"
  using apr_dir.rmdir_flat [OF assms] by blast

text \<open>
  On such a run a subdirectory still ends the removal: the code takes the success of the recursive call for
  a failure and returns, with the status of success, while the directory remains.
\<close>

lemma rmdir_stops_at_subdirectory:
  assumes "apr_dir A listing rest" "pools_ok s" "path \<noteq> ''''" "NUL \<notin> set path"
    and "listing (world s) path = Some (files @ e # more_entries)" "list_all flat_entry files"
    and "remove_files A path files (world s) = (0, w1)"
    and "named_entry e" "fi_filetype e = APR_DIR" "\<not> is_dot e"
    and "listing w1 (sub_path path e) = Some es" "list_all flat_entry es"
    and "remove_files A (sub_path path e) es w1 = (0, w2)" "da_remove A (sub_path path e) w2 = (0, w3)"
  shows "\<exists>s'. rmdir A Some path s = Some (APR_SUCCESS, s') \<and> world s' = w3 \<and> listing w3 path \<noteq> None \<and>
    open_dirs s' = open_dirs s + 1 \<and> length (live_pools s') = length (live_pools s) + 1"
proof -
  obtain d s1 where s1: "rmdir_open A path s = (Inr (path, d, next_pool s), s1)" "rest d = files @ e # more_entries"
      "world s1 = world s" "open_dirs s1 = open_dirs s + 1" "length (live_pools s1) = Suc (length (live_pools s))"
      "pools_ok s1"
    using apr_dir.rmdir_open_ok [OF assms(1,5,3,4,2)] by blast
  obtain d' rc1 where loop: "rest d' = e # more_entries" "rmdir_loop A Some path d (next_pool s) s1 =
      rmdir_loop A Some path d' (next_pool s) (s1\<lparr>apr_status := rc1, world := w1\<rparr>)"
    using apr_dir.loop_flat [OF assms(1) s1(2) assms(6), of path s1 0 w1 "next_pool s"] s1(3) assms(7) by auto
  let ?s = "s1\<lparr>apr_status := rc1, world := w1\<rparr>\<lparr>apr_status := 0\<rparr>"
  have path: "sub_path path e \<noteq> ''''" "NUL \<notin> set (sub_path path e)"
    using assms(4,8) by (auto simp: named_entry_def split: option.splits)
  have ok: "pools_ok ?s" using s1(6) pools_ok_cong [of ?s s1] by simp
  obtain s2 where s2: "rmdir A Some (sub_path path e) ?s = Some (0, s2)" "live_pools s2 = live_pools s1"
      "world s2 = w3" "open_dirs s2 = open_dirs s1" "apr_status s2 = 0"
    using apr_dir.rmdir_flat [OF assms(1) _ assms(12) path ok, of 0 w2] assms(11,13,14) by auto
  have "listing w2 path \<noteq> None"
    using apr_dir.remove_files_keeps [OF assms(1,13)] apr_dir.remove_files_keeps [OF assms(1,7)] assms(5) by simp
  then have "listing w3 path \<noteq> None"
    using apr_dir.dir_kept [OF assms(1,14)] assms(8-10)
    by (auto simp: named_entry_def is_dot_def split: option.splits)
  moreover have "rmdir A Some path s = Some (APR_SUCCESS, s2)"
    using apr_dir.loop_subdirectory [OF assms(1) loop(1) assms(8-10) s2(1), of "next_pool s"] s1(1) s2(5) loop(2)
    by (simp add: rmdir_def)
  ultimately show ?thesis using s1(4,5) s2 by auto
qed

section \<open>Sending a file\<close>

text \<open>
  \<open>data w p\<close> are the bytes of the regular file \<open>p\<close>, \<open>fdata f\<close> those of an open file, \<open>body r\<close> what
  the client of the request \<open>r\<close> has been sent.  \<open>ap_send_fd\<close> sends the length it is asked for, or
  fails and reports that no byte was sent.
\<close>

locale apr_send =
  fixes A :: "('w, 'd, 'f) file_api"
    and send_fd :: "'f \<Rightarrow> 'r \<Rightarrow> 64 word \<Rightarrow> 64 word \<Rightarrow> (int \<times> 64 word) \<times> 'r"
    and data :: "'w \<Rightarrow> cstring \<Rightarrow> byte list option"
    and fdata :: "'f \<Rightarrow> byte list"
    and body :: "'r \<Rightarrow> byte list"
  assumes data_size: "data w p = Some bs \<Longrightarrow> length bs < 2 ^ 63"
    and stat_regular: "data w p = Some bs \<Longrightarrow> fa_stat A p flags w fi = (rc, fi') \<Longrightarrow>
      rc \<in> {APR_SUCCESS, APR_INCOMPLETE} \<and> fi_filetype fi' = APR_REG \<and> fi_size fi' = of_nat (length bs)"
    and stat_other: "data w p = None \<Longrightarrow> fa_stat A p flags w fi = (rc, fi') \<Longrightarrow>
      rc \<notin> {APR_SUCCESS, APR_INCOMPLETE} \<or> fi_filetype fi' \<noteq> APR_REG"
    and open_data: "data w p = Some bs \<Longrightarrow> fa_open A p flags perms w = (0, f) \<Longrightarrow> fdata f = bs"
    and send_data: "send_fd f r 0 n = ((rc, sent), r') \<Longrightarrow> unat n \<le> length (fdata f) \<Longrightarrow>
      (if rc = 0 then sent = n \<and> body r' = body r @ take (unat n) (fdata f) else sent = 0)"
begin

lemma send_file_other:
  assumes "data (world s) path = None" "pools_ok s"
  shows "\<exists>s'. send_file A send_fd path r s = (-1, r, s') \<and> live_pools s' = live_pools s \<and>
    open_files s' = open_files s \<and> world s' = world s"
  using stat_other [OF assms(1)] survivors_new [OF assms(2), of "apr_pool s"]
  by (auto simp: send_file_def stat_def file_info_new_def subpool_new_def subpool_delete_def pool_create_def
    pool_destroy_def Let_def split: prod.splits)

lemma send_file_regular:
  assumes "data (world s) path = Some bs" "pools_ok s"
    and "fa_open A path APR_READ APR_OS_DEFAULT (world s) = (rc, f)"
  shows "\<exists>s'. live_pools s' = live_pools s \<and> open_files s' = open_files s \<and> world s' = world s \<and>
    send_file A send_fd path r s =
      (if rc \<noteq> 0 then (-1, r, s')
       else case send_fd f r 0 (of_nat (length bs)) of ((rc', sent), r') \<Rightarrow> (sint (ucast sent :: 32 word), r', s'))"
proof -
  have "info_valid (stat A path APR_FINFO_MIN (world s))"
    "fi_filetype (info_stat (stat A path APR_FINFO_MIN (world s))) = APR_REG"
    "fi_size (info_stat (stat A path APR_FINFO_MIN (world s))) = of_nat (length bs)"
    using stat_regular [OF assms(1)] by (auto simp: stat_def file_info_new_def split: prod.splits)
  then show ?thesis
    using assms(3) survivors_new [OF assms(2), of "apr_pool s"]
    by (auto simp: send_file_def subpool_new_def subpool_delete_def pool_create_def pool_destroy_def
      Let_def case_prod_beta)
qed

lemma send_whole:
  assumes "data w p = Some bs" "fa_open A p flags perms w = (0, f)"
    and "send_fd f r 0 (of_nat (length bs)) = ((rc, sent), r')"
  shows "if rc = 0 then sent = of_nat (length bs) \<and> body r' = body r @ bs else sent = 0"
proof -
  have "unat (of_nat (length bs) :: 64 word) = length bs"
    using data_size [OF assms(1)] by (simp add: unat_of_nat)
  then show ?thesis using send_data [OF assms(3)] open_data [OF assms(1,2)] by (simp split: if_splits)
qed

end

lemma sint_ucast_small: "n < 2 ^ 31 \<Longrightarrow> sint (ucast (of_nat n :: 64 word) :: 32 word) = int n"
  by (simp add: unsigned_of_nat take_bit_nat_eq_self sint_uint signed_take_bit_int_eq_self)

text \<open>The file system of paths as such a server, with a request that is the list of bytes sent.\<close>

definition tree_data :: "tree \<Rightarrow> cstring \<Rightarrow> byte list option" where
  "tree_data w p = (case map_of w p of Some (File bs) \<Rightarrow> if length bs < 2 ^ 63 then Some bs else None | _ \<Rightarrow> None)"

definition list_send :: "byte list \<Rightarrow> byte list \<Rightarrow> 64 word \<Rightarrow> 64 word \<Rightarrow> (int \<times> 64 word) \<times> byte list" where
  "list_send f r offset n = ((0, n), r @ take (unat n) (drop (unat offset) f))"

interpretation tree_send: apr_send tree_api list_send tree_data "\<lambda>f. f" "\<lambda>r. r"
  by unfold_locales
    (auto simp: tree_data_def tree_api_def list_send_def ENOENT_def APR_INCOMPLETE_def
      split: option.splits node.splits if_splits)

text \<open>
  Claim C37.  \<open>send_file\<close> never leaves a pool or a file open.  It gives \(-1\) and sends nothing when
  the path does not name a regular file that can be opened.  Otherwise the file is delivered to
  the client byte for byte and, if it has less than \(2^{31}\) bytes, its length is returned; when
  the server cannot send it, the result is 0.
\<close>

theorem send_file_delivers:
  assumes "apr_send A send_fd data fdata body" "pools_ok s"
    and "fa_open A path APR_READ APR_OS_DEFAULT (world s) = (rc, f)"
  shows "\<exists>n r' s'. send_file A send_fd path r s = (n, r', s') \<and>
    live_pools s' = live_pools s \<and> open_files s' = open_files s \<and> world s' = world s \<and>
    (case data (world s) path of
       None \<Rightarrow> n = -1 \<and> r' = r
     | Some bs \<Rightarrow>
         (if rc \<noteq> 0 then n = -1 \<and> r' = r
          else if fst (fst (send_fd f r 0 (of_nat (length bs)))) = 0
          then body r' = body r @ bs \<and> (length bs < 2 ^ 31 \<longrightarrow> n = int (length bs))
          else n = 0))"
proof (cases "data (world s) path")
  case None
  then show ?thesis using apr_send.send_file_other [OF assms(1) None assms(2), of r] by auto
next
  case (Some bs)
  obtain rc' sent r' where send: "send_fd f r 0 (of_nat (length bs)) = ((rc', sent), r')" by (metis prod.collapse)
  obtain s' where s': "live_pools s' = live_pools s" "open_files s' = open_files s" "world s' = world s"
      "send_file A send_fd path r s = (if rc \<noteq> 0 then (-1, r, s') else (sint (ucast sent :: 32 word), r', s'))"
    using apr_send.send_file_regular [OF assms(1) Some assms(2,3), of r] send by auto
  show ?thesis
  proof (cases "rc = 0")
    case True
    then show ?thesis
      using apr_send.send_whole [OF assms(1) Some _ send, of APR_READ APR_OS_DEFAULT] assms(3) s' Some send
      by (cases "rc' = 0") (simp_all add: sint_ucast_small)
  qed (use s' Some in simp)
qed

theorem send_file_delivers_witness:
  "\<exists>n r' s'. send_file tree_api list_send ''a/f'' [9] (apr_start sample_tree) = (n, r', s') \<and>
    live_pools s' = [] \<and> open_files s' = 0 \<and> world s' = sample_tree \<and> r' = [9, 1] \<and> n = 1"
  using send_file_delivers [OF tree_send.apr_send_axioms, of "apr_start sample_tree" "''a/f''" 0 "[1]" "[9]"]
  by (simp add: pools_ok_def apr_start_def tree_data_def sample_tree_def tree_api_def list_send_def)

text \<open>A file of \(2^{32} - 1\) bytes is sent, and the result is that of a missing file.\<close>

lemma send_file_size_wraps:
  assumes "apr_send A send_fd data fdata body" "pools_ok s"
    and "fa_open A path APR_READ APR_OS_DEFAULT (world s) = (0, f)" "data (world s) path = Some bs"
    and "length bs = 2 ^ 32 - 1" "send_fd f r 0 (of_nat (length bs)) = ((0, sent), r')"
  shows "body r' = body r @ bs \<and> (\<exists>s'. send_file A send_fd path r s = (-1, r', s'))"
proof -
  have "sent = of_nat (length bs)" "body r' = body r @ bs"
    using apr_send.send_whole [OF assms(1,4,3,6)] by simp_all
  moreover have "sint (ucast (of_nat (2 ^ 32 - 1) :: 64 word) :: 32 word) = -1" by simp
  ultimately show ?thesis
    using apr_send.send_file_regular [OF assms(1,4,2,3), of r] assms(5,6) by auto
qed

end
