(* ===== verification/Server.thy ===== *)
theory Server
  imports Prelude
begin

text \<open>
  The wrapper of the chain of virtual hosts (\<open>src/src/server.cpp\<close>).  A \<open>server_rec\<close> of Apache is
  a chain through \<open>next\<close>; the wrapper has one object per record, allocated with \<open>new\<close> except the
  first.  The number of objects on the heap is the state that the operations change.
\<close>

datatype 'c server_rec = ServerRec (module_config: 'c) (sr_next: "'c server_rec option")

datatype 'c server = Server (server_sr: "'c server_rec option") (server_next: "'c server option")

fun server_new :: "'c server_rec \<Rightarrow> nat \<Rightarrow> 'c server \<times> nat" where
  "server_new (ServerRec c None) heap = (Server (Some (ServerRec c None)) None, heap)"
| "server_new (ServerRec c (Some s)) heap =
     (let (next_server, heap') = server_new s (Suc heap)
      in (Server (Some (ServerRec c (Some s))) (Some next_server), heap'))"

text \<open>The assignment builds a new chain; the old one is not deleted.\<close>

definition server_assign :: "'c server_rec \<Rightarrow> 'c server \<Rightarrow> nat \<Rightarrow> 'c server \<times> nat" where
  "server_assign sr self heap = server_new sr heap"

fun server_delete :: "'c server \<Rightarrow> nat \<Rightarrow> nat" where
  "server_delete (Server _ None) heap = heap"
| "server_delete (Server _ (Some s)) heap = server_delete s heap - 1"

definition get_module_config :: "('c \<Rightarrow> 'm \<Rightarrow> 'v) \<Rightarrow> 'm \<Rightarrow> 'c server \<Rightarrow> 'v option" where
  "get_module_config lookup m s = map_option (\<lambda>r. lookup (module_config r) m) (server_sr s)"

text \<open>The records behind a chain of objects.\<close>

fun server_chain :: "'c server \<Rightarrow> 'c server_rec option list" where
  "server_chain (Server r None) = [r]"
| "server_chain (Server r (Some s)) = r # server_chain s"

fun rec_chain :: "'c server_rec \<Rightarrow> 'c server_rec list" where
  "rec_chain (ServerRec c None) = [ServerRec c None]"
| "rec_chain (ServerRec c (Some s)) = ServerRec c (Some s) # rec_chain s"

lemma rec_chain_neq_Nil [simp]: "rec_chain s \<noteq> []"
  by (cases s rule: rec_chain.cases) simp_all

lemma server_new_chain:
  "server_chain (fst (server_new s heap)) = map Some (rec_chain s) \<and>
   snd (server_new s heap) = heap + (length (rec_chain s) - 1)"
  by (induction s heap rule: server_new.induct) (auto simp: case_prod_beta Suc_diff_Suc length_greater_0_conv)

lemma server_delete_chain: "server_delete s heap = heap - (length (server_chain s) - 1)"
proof (induction s heap rule: server_delete.induct)
  case (2 r s heap)
  have "0 < length (server_chain s)" by (cases s rule: server_chain.cases) simp_all
  with 2 show ?case by simp
qed simp

text \<open>A wrapper that is built and destroyed frees what it allocated.\<close>

lemma server_new_delete: "server_delete (fst (server_new s heap)) (snd (server_new s heap)) = heap"
  using server_new_chain [of s heap] by (simp add: server_delete_chain)

text \<open>An assignment leaks the chain that the object had.\<close>

lemma server_assign_leaks:
  assumes "server_new a heap = (x, heap1)" "server_assign b x heap1 = (y, heap2)"
  shows "server_delete y heap2 = heap + (length (rec_chain a) - 1)"
  using assms server_new_delete [of b heap1] server_new_chain [of a heap] by (simp add: server_assign_def)

end
