(* ===== verification/Connection.thy ===== *)
theory Connection
  imports Apr
begin

text \<open>
  The class \<open>apache::Connection\<close> (\<open>src/src/connection.h\<close>): a pointer to a record of Apache and
  methods that read it.  Modelled are the methods that do more than return a member.  Two of them
  depend on the version the module is compiled for: up to 2.2 the peer of a connection is in the members \<open>remote_ip\<close> and
  \<open>remote_addr\<close>, from 2.4 on in \<open>client_ip\<close> and \<open>client_addr\<close>.
\<close>

section \<open>The record\<close>

record sockaddr =
  sa_port :: int

text \<open>The peer is stored by version; a pointer that may be null is an option.\<close>

datatype peer = Remote_members "cstring option" "sockaddr option" | Client_members "cstring option" "sockaddr option"

record ('t, 's) conn_rec =
  conn_aborted :: bool
  conn_double_reverse :: int
  conn_id :: "64 word"
  conn_keepalive :: int
  conn_local_ip :: "cstring option"
  conn_local_addr :: "sockaddr option"
  conn_local_host :: "cstring option"
  conn_notes :: 't
  conn_remote_host :: "cstring option"
  conn_remote_logname :: "cstring option"
  conn_peer :: peer
  conn_base_server :: 's

section \<open>Methods\<close>

text \<open>\<open>_c->aborted\<close> is a bit, read as an unsigned number.\<close>

definition aborted :: "('t, 's) conn_rec \<Rightarrow> 32 word" where
  "aborted c = (if conn_aborted c then 1 else 0)"

text \<open>The identity of a connection is a \<open>long\<close>, returned as an \<open>int\<close>.\<close>

definition connection_id :: "('t, 's) conn_rec \<Rightarrow> int" where
  "connection_id c = sint (ucast (conn_id c) :: 32 word)"

definition port_of :: "sockaddr option \<Rightarrow> int option" where
  "port_of a = map_option sa_port a"

definition local_port :: "('t, 's) conn_rec \<Rightarrow> int option" where
  "local_port c = port_of (conn_local_addr c)"

text \<open>
  \<open>minor\<close> is \<open>AP_SERVER_MINORVERSION_NUMBER\<close>.  A result \<open>None\<close> is a member that the record of that
  version does not have, where the method does not compile.
\<close>

definition remote_ip :: "nat \<Rightarrow> ('t, 's) conn_rec \<Rightarrow> cstring option option" where
  "remote_ip minor c =
     (case conn_peer c of
        Remote_members ip addr \<Rightarrow> if minor < 4 then Some ip else None
      | Client_members ip addr \<Rightarrow> if minor < 4 then None else Some ip)"

definition remote_port :: "nat \<Rightarrow> ('t, 's) conn_rec \<Rightarrow> int option option" where
  "remote_port minor c =
     (case conn_peer c of
        Remote_members ip addr \<Rightarrow> if minor < 4 then Some (port_of addr) else None
      | Client_members ip addr \<Rightarrow> if minor < 4 then None else Some (port_of addr))"

section \<open>Compilation for a version\<close>

text \<open>The layout that a server of the given version has, for a peer with that address.\<close>

definition peer_of :: "nat \<Rightarrow> cstring \<Rightarrow> int \<Rightarrow> peer" where
  "peer_of minor ip port =
     (if minor < 4 then Remote_members else Client_members) (Some ip) (Some \<lparr>sa_port = port\<rparr>)"

text \<open>On every version the methods compile and give the address and the port of the peer.\<close>

lemma remote_on_every_version:
  assumes "conn_peer c = peer_of minor ip port"
  shows "remote_ip minor c = Some (Some ip)" "remote_port minor c = Some (Some port)"
  using assms by (simp_all add: remote_ip_def remote_port_def peer_of_def port_of_def)

text \<open>Connections whose identities differ by a multiple of \(2^{32}\) cannot be told apart.\<close>

lemma ucast_add_multiple: "(ucast (x + 2 ^ 32 * k :: 64 word) :: 32 word) = ucast x"
proof -
  have "take_bit 32 (take_bit 64 (a + 2 ^ 32 * b)) = take_bit 32 (take_bit 64 a)" for a b :: int
    by (simp add: take_bit_eq_mod mod_mod_cancel)
  then show ?thesis by transfer (simp add: mult.commute)
qed

lemma connection_id_collides:
  "conn_id c' = conn_id c + 2 ^ 32 * k \<Longrightarrow> connection_id c' = connection_id c"
  by (simp add: connection_id_def ucast_add_multiple [simplified])

end
