(* ===== verification/C_Types.thy ===== *)
theory C_Types
  imports Endian
begin

text \<open>
  The types of known size (\<open>src/src/types.h\<close>), the macros that reverse the byte order of an integer
  variable, and the test of the byte order of the host (\<open>src/src/endian.h\<close>).  The header chooses
  the C type behind each name by the preprocessor macros of the platform; the size of a C type is
  the compiler's and a parameter.
\<close>

section \<open>Platforms\<close>

text \<open>
  The compilers for which the header has definitions: \<open>__i386__\<close> and \<open>__x86_64__\<close> (the latter is also
  defined by the header itself under \<open>_WIN64\<close>).  The argument of each is whether the compiler is
  Microsoft's or Borland's.  \<open>Other\<close> stands for the targets that define none of these macros.
\<close>

datatype platform = I386 bool | X86_64 bool | Other

datatype c_type =
    Signed_char | Unsigned_char | Short | Unsigned_short | Plain_int | Unsigned_int | Long | Unsigned_long
  | Long_long | Unsigned_long_long | Unsigned_int64 | Float | Double | Long_double

section \<open>The names\<close>

datatype type_name = I8 | U8 | I16 | U16 | I32 | U32 | I64 | U64 | F32 | F64 | F128 | Addr

definition i386_types :: "bool \<Rightarrow> type_name \<Rightarrow> c_type" where
  "i386_types msc n = (case n of
     I8 \<Rightarrow> Signed_char | U8 \<Rightarrow> Unsigned_char | I16 \<Rightarrow> Short | U16 \<Rightarrow> Unsigned_short | I32 \<Rightarrow> Plain_int | U32 \<Rightarrow> Unsigned_int
   | I64 \<Rightarrow> Long_long | U64 \<Rightarrow> (if msc then Unsigned_int64 else Unsigned_long_long) | F32 \<Rightarrow> Float | F64 \<Rightarrow> Double
   | F128 \<Rightarrow> Long_double | Addr \<Rightarrow> Unsigned_int)"

definition x86_64_types :: "bool \<Rightarrow> type_name \<Rightarrow> c_type" where
  "x86_64_types msc n = (case n of
     I8 \<Rightarrow> Signed_char | U8 \<Rightarrow> Unsigned_char | I16 \<Rightarrow> Short | U16 \<Rightarrow> Unsigned_short | I32 \<Rightarrow> Plain_int | U32 \<Rightarrow> Unsigned_int
   | I64 \<Rightarrow> Long | U64 \<Rightarrow> (if msc then Unsigned_int64 else Unsigned_long) | F32 \<Rightarrow> Float | F64 \<Rightarrow> Double
   | F128 \<Rightarrow> Long_double | Addr \<Rightarrow> Unsigned_long)"

text \<open>Where no macro is defined the names have no meaning and the header does not compile.\<close>

definition type_of :: "platform \<Rightarrow> type_name \<Rightarrow> c_type option" where
  "type_of p n =
     (case p of I386 msc \<Rightarrow> Some (i386_types msc n) | X86_64 msc \<Rightarrow> Some (x86_64_types msc n) | Other \<Rightarrow> None)"

section \<open>The macros\<close>

text \<open>
  \<open>SWAP_I16(val)\<close> and its siblings for the other integer types:
  \<open>val = *(T*) swap_endian((void*)&val, sizeof(T))\<close>.  The variable is its bytes in memory, \<open>buf\<close> the
  static buffer of \<open>swap_endian\<close>, \<open>size_of\<close> the sizes of the C types; the assignment reads the
  buffer.  The macros for the floating types are not modelled: an assignment through \<open>f128*\<close> need not
  move every byte of the object.
\<close>

definition swap_macro ::
  "(c_type \<Rightarrow> nat) \<Rightarrow> platform \<Rightarrow> type_name \<Rightarrow> byte list \<Rightarrow> byte list \<Rightarrow> (byte list \<times> byte list) option" where
  "swap_macro size_of p n val buf =
     (if n \<in> {I16, U16, I32, U32, I64, U64} then do {
        c \<leftarrow> type_of p n;
        buf' \<leftarrow> swap_endian val (int (size_of c)) buf;
        Some (take (size_of c) buf', buf')
      } else None)"

text \<open>\<open>IS_BIGENDIAN\<close> and \<open>IS_LITTLEENDIAN\<close> look at the first byte of an \<open>int\<close> with the value 1.\<close>

definition int_bytes :: "bool \<Rightarrow> 32 word \<Rightarrow> byte list" where
  "int_bytes big_endian w = (if big_endian then bytes_of_word w else rev (bytes_of_word w))"

definition is_bigendian :: "bool \<Rightarrow> bool" where
  "is_bigendian host \<longleftrightarrow> hd (int_bytes host 1) = 0"

definition is_littleendian :: "bool \<Rightarrow> bool" where
  "is_littleendian host \<longleftrightarrow> hd (int_bytes host 1) = 1"

lemma byte_order_tests: "is_bigendian host = host" "is_littleendian host = (\<not> host)"
  by (cases host; simp add: is_bigendian_def is_littleendian_def int_bytes_def bytes_of_word_def)+

section \<open>Properties\<close>

lemma swap_known_size:
  assumes "n \<in> {I16, U16, I32, U32, I64, U64}" "type_of p n = Some c" "size_of c \<in> {2, 4, 8}"
    and "length val = size_of c" "length buf = 16"
  shows "swap_macro size_of p n val buf = Some (rev val, rev val @ drop (size_of c) buf)"
proof -
  have "swap_endian val (int (size_of c)) buf = Some (rev val @ drop (size_of c) buf)"
    by (rule swap_endian_rev) (use assms in auto)
  with assms(1,2,4) show ?thesis by (simp add: swap_macro_def)
qed

text \<open>
  Claim C33.  A swap macro of an integer type reverses the bytes of its variable, whatever the static
  buffer held before, and using it twice restores the variable, for every choice of the types
  by the header with a size that \<open>swap_endian\<close> handles.
\<close>

theorem swap_macro_reverses:
  assumes "n \<in> {I16, U16, I32, U32, I64, U64}" "type_of p n = Some c" "size_of c \<in> {2, 4, 8}"
    and "length val = size_of c" "length buf = 16"
  shows "\<exists>buf'. swap_macro size_of p n val buf = Some (rev val, buf') \<and> length buf' = 16 \<and>
    map_option fst (swap_macro size_of p n (rev val) buf') = Some val"
proof -
  have "length (rev val @ drop (size_of c) buf) = 16" using assms(3-5) by auto
  then show ?thesis
    using swap_known_size [of n p c size_of, OF assms]
      swap_known_size [of n p c size_of, OF assms(1-3), of "rev val"] assms(4) by auto
qed

theorem swap_macro_reverses_witness:
  "\<exists>buf'. swap_macro (\<lambda>_. 4) (X86_64 False) I32 [1, 2, 3, 4] (replicate 16 0) = Some ([4, 3, 2, 1], buf') \<and>
    length buf' = 16 \<and> map_option fst (swap_macro (\<lambda>_. 4) (X86_64 False) I32 [4, 3, 2, 1] buf') = Some [1, 2, 3, 4]"
  using swap_macro_reverses [of I32 "X86_64 False" Plain_int "\<lambda>_. 4" "[1, 2, 3, 4]" "replicate 16 0"]
  by (simp add: type_of_def x86_64_types_def)

text \<open>A size that \<open>swap_endian\<close> does not handle leaves the variable with what the buffer held.\<close>

lemma swap_other_size:
  assumes "n \<in> {I16, U16, I32, U32, I64, U64}" "type_of p n = Some c" "size_of c \<notin> {2, 4, 8, 16}"
  shows "swap_macro size_of p n val buf = Some (take (size_of c) buf, buf)"
  using assms swap_endian_other [of "int (size_of c)" val buf] by (simp add: swap_macro_def)

end
