(* ===== verification/Spec2Isabelle.thy ===== *)
theory Spec2Isabelle
  imports Getopt_Order Gate_Hooks Gate_Store Request_Text Request_Api Request_Calls Gatedb_Cmdline Gatedb_Correct Ruby_Sqlite_Safe Ruby_VM_Correct
    Apr_File_Correct Server Connection C_Types
begin

text \<open>
  A verification library for mod\_gate, an Apache module that decides on requests by the client's
  address, and for the programs around it.  The sources are under \<open>src/src/\<close>.

  \<^bold>\<open>The program.\<close>  Apache reads its configuration and calls the directive functions of
  \<open>mod_gate.c\<close>, which fill a configuration per server and per directory.  For each request,
  \<open>module.cpp\<close> copies these settings into the notes of the request, chooses a handler, opens the
  filter database of that handler (\<open>sqlite.cpp\<close>), converts the client's address to a number
  (\<open>endian.cpp\<close>) and looks it up in the table \<open>ip\<close>.  The administration tool \<open>gatedb.cpp\<close> creates
  such databases and fills in the numbers of the addresses given as text; it reads its command line
  with \<open>getopt_long.c\<close>.  The request object \<open>request.cpp\<close> with the table wrapper
  \<open>apr_table.cpp\<close>, the text utilities \<open>util.cpp\<close> and the file utilities \<open>apr.cpp\<close> serve handlers
  written in C++; \<open>ruby.cpp\<close>, \<open>ruby_sqlite.cpp\<close> and \<open>ruby_sqlite_stmt.cpp\<close> serve those in Ruby.

  \<^bold>\<open>Theories.\<close>
  \<^item> \<open>Prelude\<close>: C strings and characters, pieces of lists.  \<open>Text_Numbers\<close>: decimal numbers and \<open>atoi\<close>.
  \<^item> \<open>Getopt_Permute\<close>, \<open>Getopt\<close> (model), \<open>Getopt_Inv\<close>, \<open>Getopt_Correct\<close>, \<open>Getopt_Order\<close>: \<open>getopt_long.c\<close>.  The
    static and external variables are the record \<open>getopt_state\<close>; \<open>nargv\<close> holds positions of the
    original vector, since the code compares and moves pointers.  Shown: the exchange of blocks,
    safety and progress of each call, that a whole parse terminates with the options and their arguments
    before \<open>optind\<close> and exactly the operands behind it, as a reading of the vector from left to right
    finds them, and which long option an abbreviation selects.
  \<^item> \<open>Apr\<close> (interface of tables and hashes), \<open>Table_Wrapper\<close>: \<open>apr_table.cpp\<close> with its iterator,
    on the values of tables.  \<open>Table_Shared\<close>: the same on a store, where objects share tables by pointers and an
    iterator sees its table change.  Shown: \<open>join\<close> lists the entries in order, and
    when a loop on a store does what it does on values.
  \<^item> \<open>Gate_Config\<close>: \<open>mod_gate.c\<close> and \<open>common.c\<close>.  The state \<open>conf_state\<close> is the two configurations and
    the environment.  Shown: which sequences of calls of the directive functions give no error and
    what they set, that each changes only its part, that merged configurations override, and that the two
    rows of the command table named \<open>GateConfig\<close> exclude each other.
  \<^item> \<open>Endian\<close>: \<open>endian.cpp\<close> and the number of a dotted address, on hosts of either byte order.
    \<open>C_Types\<close>: the C types behind the names of \<open>types.h\<close>, with their sizes as a parameter, and the macros
    of \<open>types.h\<close> and \<open>endian.h\<close>.  Shown: the swap macros of the integer types reverse the bytes of a variable.
  \<^item> \<open>Sqlite\<close>: the classes of \<open>sqlite.cpp\<close>, with the number of live statements in the state.
    \<open>Ip_Database\<close>: the table \<open>ip\<close>, the SQL texts, what SQLite does with them, and that statements are
    finalized.
  \<^item> \<open>Gate_Module\<close>: the request handler of \<open>module.cpp\<close>.  Shown: the decision on every request, that the
    handler returns and closes what it opened, that rows of one address decide and rows of a range never do, and when the text of an
    error is used as a format.
  \<^item> \<open>Gate_Store\<close>: the copying of the settings into the notes, on the store of tables.  Shown: it computes what
    the loops on values in \<open>Gate_Module\<close> compute.
  \<^item> \<open>Gate_Server\<close>: requests whose configuration comes from calls of the directive functions and from merges of
    sections.  Which sections Apache merges, and in which order, is not fixed: the relation \<open>merged_dir\<close>
    allows every order and bracketing.  Shown: the decision on a request, read off the directives, and that
    a \<open>Gate\<close> of a handler which the same server did not declare checks nothing.
  \<^item> \<open>Gate_Hooks\<close>: the hooks of \<open>mod_gate.c\<close>, the log, start-up and shut-down.  Running the hooks is a
    parameter.  Shown: a blocked client reaches no other handler, and other clients reach the other
    handlers with only the notes of the request changed.
  \<^item> \<open>Gatedb\<close> (model), \<open>Gatedb_Correct\<close>, \<open>Gatedb_Cmdline\<close>: \<open>gatedb.cpp\<close>.  Shown: what indexing,
    checking and creating do to the file and print, that indexing a locked file fails without a word, and that
    the command line is decoded.
  \<^item> \<open>Url\<close>: \<open>util.cpp\<close>.  \<open>Request_Body\<close>, \<open>Request_Text\<close>: \<open>request.cpp\<close>.  Shown: decoding and encoding
    with their buffers, when \<open>replace\<close> terminates, reading of bodies whatever pieces they arrive in,
    form data, and the bounds of printed lines.  \<open>Request_Api\<close>: the operations of \<open>request.h\<close> and
    \<open>request.cpp\<close> that write to the client or set fields of the request.  \<open>Request_Calls\<close>: the methods that
    call the function of Apache of the same name, and reading of a body through them.  \<open>Request_Tables\<close>: the
    methods that return a table of the request.
  \<^item> \<open>Ruby_Sqlite\<close> (model), \<open>Ruby_Sqlite_Safe\<close>: the Ruby classes for SQLite.  The relation \<open>rb_step\<close> is
    one action of a Ruby program or of the garbage collector with a defined result; in every state it
    reaches, the handles that were written into objects are alive, and exactly the collections of connections that
    were not closed are undefined.
  \<^item> \<open>Ruby_VM\<close> (model), \<open>Ruby_VM_Correct\<close>: \<open>ruby.cpp\<close>.  Shown: the results and the error texts of a run.
  \<^item> \<open>Apr_File\<close> (model), \<open>Apr_File_Correct\<close>: \<open>apr.cpp\<close> and \<open>Request::send_file\<close>.  Shown: the life of the
    global pool, that \<open>rmdir\<close> removes empty directories and is undefined on all others, what it was meant to
    do on those, and delivery of a file.
  \<^item> \<open>Server\<close>: \<open>server.cpp\<close>.  \<open>Connection\<close>: the methods of \<open>connection.h\<close> that do more than return a member.
  \<^item> This theory: the composition of the tool and the server, from the texts of addresses to the decision
    on requests.

  \<^bold>\<open>Interfaces.\<close>  Code outside the repository is a record of functions that the models take as an
  argument; a locale states what its documentation promises, and an interpretation discharges the
  laws for an executable implementation of the whole interface, on which the witnesses run.
  \<open>apr_table\<close>, \<open>apr_hash\<close> and \<open>apr_lib\<close> (their union, by \<open>sublocale\<close>, with the formatter of APR) are interpreted on association
  lists; \<open>sqlite_lib\<close> and \<open>sqlite_ip\<close> on an engine over rows of the table \<open>ip\<close>; \<open>sqlite_index\<close>, which adds what the
  file holds, locks and transactions (a second \<open>BEGIN\<close>, a \<open>COMMIT\<close> without a transaction and any write to a
  locked file may fail), on an engine with a copy of the rows for the connection and one for the
  file; \<open>httpd_handlers\<close> on handlers sorted by their order; \<open>client_body\<close> on a list of blocks; \<open>apache_reading\<close>, which gives
  \<open>client_body\<close> by \<open>sublocale\<close>, on a request that delivers two bytes at a time; \<open>sqlite_handles\<close> on a pool of handles;
  \<open>apr_dir\<close> and \<open>apr_send\<close> on a file system of paths; \<open>httpd_output\<close> on a request that collects its output.

  \<^bold>\<open>Results of the models.\<close>  Errors that the code reports are values.  A result \<open>None\<close> is undefined
  behaviour (a null or dangling pointer, an uninitialised variable, a read out of bounds, a format with a
  conversion but no argument) or a loop
  that does not end: loops without a bound in the code are \<open>partial_function (option)\<close>, and the
  theorems on them show a result \<open>Some\<close>.  Only the driver \<open>getopt_run\<close>, which calls the parser until it
  gives \(-1\), has fuel; any fuel above the number of characters still to be parsed is enough.
  Machine integers are words, or \<open>int\<close> with the conversion written out, where their width matters; the
  plain \<open>char\<close> is signed.

  \<^bold>\<open>Not modelled.\<close>  Accessors that only return a member of a record of Apache (in \<open>request.h\<close>, \<open>server.h\<close>,
  \<open>connection.h\<close>, \<open>process.h\<close>, and those of \<open>file_info\<close> in \<open>apr.cpp\<close>); the headers \<open>sqlite3.h\<close> and \<open>sqlite3ext.h\<close>, which hold
  declarations; the vendored mruby; the Ruby scripts, tests and build files.  Memory of APR pools
  is modelled only in \<open>Apr_File\<close>; elsewhere texts in pools live as long as they are needed.
\<close>

section \<open>From the tool to the server\<close>

lemma ip_number_host: "ip_number big s = ip_number big' s"
  using inet_pton_length [of s] ip_number_bytes [of s]
  by (cases "inet_pton s") (auto simp: ip_number_def)

lemma indexed_single:
  assumes "unindexed x" "row_start_text x = row_end_text x" "row_range big x \<noteq> None"
  obtains s a where "row_start_text x = SqlText s" "ip_number big s = Some a"
    "index_spec big x = x\<lparr>row_start := SqlInt (uint a), row_end := SqlInt (uint a)\<rparr>"
proof -
  obtain s where "row_start_text x = SqlText s" "row_end_text x = SqlText s"
    using assms(2,3) by (auto simp: row_range_def split: sql_value.splits)
  moreover from this obtain a where "ip_number big s = Some a"
    using assms(3) by (auto simp: row_range_def)
  ultimately show thesis using that assms(1) by (simp add: index_spec_def row_range_def)
qed

definition named :: "bool \<Rightarrow> 32 word \<Rightarrow> ip_row \<Rightarrow> bool" where
  "named big addr x \<longleftrightarrow> (\<exists>s. row_start_text x = SqlText s \<and> ip_number big s = Some addr)"

lemma indexed_lookup:
  assumes "\<forall>x\<in>set rows. unindexed x \<and> row_start_text x = row_end_text x \<and> row_range b x \<noteq> None"
  shows "(\<exists>x\<in>set (map (index_spec b) rows). lookup_matches addr x \<and> P (http_code x)) \<longleftrightarrow>
    (\<exists>x\<in>set rows. named big addr x \<and> P (http_code x))"
proof -
  have "lookup_matches addr (index_spec b x) = named big addr x \<and> http_code (index_spec b x) = http_code x"
    if x: "x \<in> set rows" for x
  proof -
    obtain s a where sa: "row_start_text x = SqlText s" "ip_number b s = Some a"
        "index_spec b x = x\<lparr>row_start := SqlInt (uint a), row_end := SqlInt (uint a)\<rparr>"
      using indexed_single [of x b] x assms by blast
    have "single_address (index_spec b x)" using sa(3) by (simp add: single_address_def)
    from lookup_single [OF this] show ?thesis
      using sa ip_number_host [of big s b] by (simp add: named_def word_uint_eq_iff http_code_def)
  qed
  then show ?thesis by simp
qed

text \<open>
  Claim C10.  From the address texts to the decision: let an administrator index a table in which
  every row holds one address as text, not yet converted, in a file that can be locked and written, and
  let the server then check requests against the rows that the file holds when the tool has closed it.  A client whose address is that of some row gets the
  code of such a row and its request ends there (or proceeds, for code 200); all other
  requests proceed.  The tool and the server may run on hosts of different byte order.
\<close>

theorem indexed_addresses_decided:
  assumes "sqlite_index S ip_rows cursor stored lock" "sq_open S path = (SQLITE_OK, db)" "ip_rows db = Some rows"
    and "lock db = Free" "indexable (ge_big_endian env) rows" "w_live (t_world t) = 0"
    and "list_all (\<lambda>x. unindexed x \<and> row_start_text x = row_end_text x) rows"
    and "index_database S env path t = Some (t', rc)"
    and "checked_against A S' ip_rows' readable r (the (stored (w_db (t_world t'))))"
    and "ip_number big (r_remote_ip r) = Some addr"
  shows "\<exists>r' w res. gate_request_handler A S' readable big r = Some (r', w, res) \<and>
    (if \<exists>x\<in>set rows. \<exists>s. row_start_text x = SqlText s \<and> ip_number big s = Some addr
     then \<exists>x\<in>set rows. (\<exists>s. row_start_text x = SqlText s \<and> ip_number big s = Some addr) \<and>
       r_status r' = http_code x \<and> res = (if http_code x = 200 then DECLINED else OK)
     else r_status r' = r_status r \<and> res = DECLINED)"
proof -
  have rows: "the (stored (w_db (t_world t'))) = map (index_spec (ge_big_endian env)) rows"
    using sqlite_index.index_database_spec [OF assms(1-6)] assms(8) by fastforce
  have ok: "\<forall>x\<in>set rows. unindexed x \<and> row_start_text x = row_end_text x \<and> row_range (ge_big_endian env) x \<noteq> None"
    using assms(5,7) by (simp add: indexable_def list_all_iff)
  obtain r' w res where h: "gate_request_handler A S' readable big r = Some (r', Some w, res)"
    and out: "if \<exists>x\<in>set (map (index_spec (ge_big_endian env)) rows). lookup_matches addr x
     then \<exists>x\<in>set (map (index_spec (ge_big_endian env)) rows). lookup_matches addr x \<and> r_status r' = http_code x \<and>
       res = (if http_code x = 200 then DECLINED else OK)
     else r_status r' = r_status r \<and> res = DECLINED"
    using handler_outcome [OF assms(9) [unfolded rows] assms(10)] by blast
  show ?thesis
    unfolding named_def [symmetric]
    using out indexed_lookup [OF ok, of addr "\<lambda>_. True" big]
      indexed_lookup [OF ok, of addr "\<lambda>c. r_status r' = c \<and> res = (if c = 200 then DECLINED else OK)" big]
    by (intro exI [of _ r'] exI [of _ "Some w"] exI [of _ res] conjI h) (simp only: simp_thms)
qed

definition listed :: "ip_row list" where
  "listed = [plain_row 1 ''10.0.0.7'' ''10.0.0.7'']"

lemma listed_indexable: "indexable False listed"
  using sample_ip [of False]
  by (simp add: indexable_def listed_def plain_row_def id32_def row_range_def)

abbreviation "listed_db \<equiv> \<lparr>e_rows = Some listed, e_stored = Some listed, e_lock = Free\<rparr>"

lemma listed_indexed:
  "\<exists>t'. index_database (tx_engine Free (\<lambda>p. Some listed)) sample_env (Some ''db'') (sample_tool listed_db) = Some (t', Inr 0) \<and>
     e_stored (w_db (t_world t')) = Some (map (index_spec False) listed)"
proof -
  have "sq_open (tx_engine Free (\<lambda>p. Some listed)) (Some ''db'') = (SQLITE_OK, listed_db)" by (simp add: tx_engine_def)
  moreover have "ge_big_endian sample_env = False" "w_live (t_world (sample_tool listed_db)) = 0"
    by (simp_all add: sample_env_def sample_tool_def)
  ultimately show ?thesis
    using sqlite_index.index_database_spec [OF tx_eng.sqlite_index_axioms, of Free "\<lambda>p. Some listed" "Some ''db''" listed_db
      listed sample_env "sample_tool listed_db"] listed_indexable by auto
qed

theorem indexed_addresses_decided_witness:
  "\<exists>r' w res. gate_request_handler alist_apr (sample_api (map (index_spec False) listed)) (\<lambda>_. True) True sample_req =
      Some (r', w, res) \<and>
    (if \<exists>x\<in>set listed. \<exists>s. row_start_text x = SqlText s \<and> ip_number True s = Some 0x0A000007
     then \<exists>x\<in>set listed. (\<exists>s. row_start_text x = SqlText s \<and> ip_number True s = Some 0x0A000007) \<and>
       r_status r' = http_code x \<and> res = (if http_code x = 200 then DECLINED else OK)
     else r_status r' = r_status sample_req \<and> res = DECLINED)"
proof -
  obtain t' where t': "index_database (tx_engine Free (\<lambda>p. Some listed)) sample_env (Some ''db'') (sample_tool listed_db) = Some (t', Inr 0)"
      "e_stored (w_db (t_world t')) = Some (map (index_spec False) listed)"
    using listed_indexed by blast
  have hyp: "checked_against alist_apr (sample_api (map (index_spec False) listed)) (\<lambda>d. d) (\<lambda>_. True) sample_req
      (the (e_stored (w_db (t_world t'))))"
    using sample_checked [of "map (index_spec False) listed"] t'(2) by simp
  show ?thesis
    by (rule indexed_addresses_decided [OF tx_eng.sqlite_index_axioms _ _ _ _ _ _ t'(1) hyp sample_addr, where db = listed_db])
      (simp_all add: tx_engine_def sample_env_def sample_tool_def listed_indexable listed_def [THEN arg_cong, of "list_all _"] plain_row_def unindexed_def)
qed

end
